theory Spec2Isabelle
  imports Main "HOL-Library.Sublist" "HOL-Library.Multiset"
begin

section \<open>Strings\<close>

text \<open>
  Source strings are modelled as \<^typ>\<open>string\<close>, the UTF-8 bytes of the text; the
  emoji of the source's literals are written as their bytes. The operations below are the
  string methods the source calls.
\<close>

definition nl :: string where
  "nl = [CHR 0x0A]"

definition is_space :: "char \<Rightarrow> bool" where
  "is_space c = (c = CHR 0x09 \<or> c = CHR 0x0A \<or> c = CHR 0x0B \<or> c = CHR 0x0C
     \<or> c = CHR 0x0D \<or> c = CHR 0x20)"

text \<open>
  \<open>s.trim()\<close> strips the white space and the line terminators of ECMAScript from both
  ends: the six of ASCII above, and, in UTF-8, U+00A0 (C2 A0), U+1680 (E1 9A 80), U+2000 to
  U+200A (E2 80 80 to E2 80 8A), U+2028, U+2029, U+202F (E2 80 A8, A9, AF), U+205F
  (E2 81 9F), U+3000 (E3 80 80) and U+FEFF (EF BB BF). \<open>strip\<close> removes them from the
  front; the end is the front of the reversed string, with the bytes of a character
  reversed.
\<close>

definition is_space2 :: "char \<Rightarrow> char \<Rightarrow> bool" where
  "is_space2 a b = (a = CHR 0xC2 \<and> b = CHR 0xA0)"

definition is_space3 :: "char \<Rightarrow> char \<Rightarrow> char \<Rightarrow> bool" where
  "is_space3 a b c =
     (a = CHR 0xE1 \<and> b = CHR 0x9A \<and> c = CHR 0x80
      \<or> a = CHR 0xE2 \<and> b = CHR 0x80 \<and>
          (0x80 \<le> (of_char c :: nat) \<and> (of_char c :: nat) \<le> 0x8A
           \<or> c = CHR 0xA8 \<or> c = CHR 0xA9 \<or> c = CHR 0xAF)
      \<or> a = CHR 0xE2 \<and> b = CHR 0x81 \<and> c = CHR 0x9F
      \<or> a = CHR 0xE3 \<and> b = CHR 0x80 \<and> c = CHR 0x80
      \<or> a = CHR 0xEF \<and> b = CHR 0xBB \<and> c = CHR 0xBF)"

fun strip ::
  "(char \<Rightarrow> char \<Rightarrow> char \<Rightarrow> bool) \<Rightarrow> (char \<Rightarrow> char \<Rightarrow> bool) \<Rightarrow> string \<Rightarrow> string" where
  "strip s3 s2 (a # b # c # s) =
     (if s3 a b c then strip s3 s2 s
      else if s2 a b then strip s3 s2 (c # s)
      else if is_space a then strip s3 s2 (b # c # s)
      else a # b # c # s)"
| "strip s3 s2 [a, b] =
     (if s2 a b then [] else if is_space a then strip s3 s2 [b] else [a, b])"
| "strip s3 s2 [a] = (if is_space a then [] else [a])"
| "strip s3 s2 [] = []"

definition trimStart :: "string \<Rightarrow> string" where
  "trimStart s = strip is_space3 is_space2 s"

definition trimEnd :: "string \<Rightarrow> string" where
  "trimEnd s = rev (strip (\<lambda>a b c. is_space3 c b a) (\<lambda>a b. is_space2 b a) (rev s))"

definition trim :: "string \<Rightarrow> string" where
  "trim s = trimEnd (trimStart s)"

text \<open>\<open>s.includes(sub)\<close>\<close>

fun includes_str :: "string \<Rightarrow> string \<Rightarrow> bool" where
  "includes_str [] sub = (sub = [])"
| "includes_str (c # cs) sub = (prefix sub (c # cs) \<or> includes_str cs sub)"

text \<open>\<open>s.split(c)\<close> for a separator of one character; the result is never empty.\<close>

fun split :: "char \<Rightarrow> string \<Rightarrow> string list" where
  "split c [] = [[]]"
| "split c (x # xs) =
     (if x = c then [] # split c xs
      else (case split c xs of [] \<Rightarrow> [[x]] | w # ws \<Rightarrow> (x # w) # ws))"

text \<open>\<open>xs.pop()\<close>: the last element, \<open>undefined\<close> on the empty array.\<close>

definition pop :: "'a list \<Rightarrow> 'a option" where
  "pop xs = (case rev xs of [] \<Rightarrow> None | x # _ \<Rightarrow> Some x)"

text \<open>\<open>s || ""\<close> for an optional string.\<close>

definition or_empty :: "string option \<Rightarrow> string" where
  "or_empty v = (case v of None \<Rightarrow> [] | Some s \<Rightarrow> s)"

text \<open>Truthiness of an optional string: present and not empty.\<close>

definition truthy :: "string option \<Rightarrow> bool" where
  "truthy v = (case v of None \<Rightarrow> False | Some s \<Rightarrow> s \<noteq> [])"

text \<open>\<open>n.toString()\<close> and \<open>${n}\<close> for a natural number.\<close>

fun digits :: "nat \<Rightarrow> nat \<Rightarrow> string" where
  "digits 0 n = []"
| "digits (Suc fuel) n =
     (if n < 10 then [char_of (48 + n)] else digits fuel (n div 10) @ [char_of (48 + n mod 10)])"

definition show_nat :: "nat \<Rightarrow> string" where
  "show_nat n = digits (Suc n) n"


section \<open>Document nodes (unist / mdast)\<close>

text \<open>
  A node is an object with a \<open>type\<close>, further properties (\<open>lang\<close>, \<open>depth\<close>, \<open>url\<close>,
  \<open>align\<close>), and optionally a \<open>value\<close> (a literal) or \<open>children\<close> (a parent), as
  \<open>u(type, props, value-or-children)\<close> of unist-builder makes them.
\<close>

datatype pval = PNull | PStr string | PNum nat | PList "pval list"

datatype node =
  Node (ntype: string) (nprops: "(string \<times> pval) list")
       (nvalue: "string option") (nchildren: "node list option")

definition u_leaf :: "string \<Rightarrow> node" where
  "u_leaf t = Node t [] None None"

definition u_lit :: "string \<Rightarrow> string \<Rightarrow> node" where
  "u_lit t v = Node t [] (Some v) None"

definition u_par :: "string \<Rightarrow> node list \<Rightarrow> node" where
  "u_par t cs = Node t [] None (Some cs)"

definition u_props_lit :: "string \<Rightarrow> (string \<times> pval) list \<Rightarrow> string \<Rightarrow> node" where
  "u_props_lit t ps v = Node t ps (Some v) None"

definition u_props_par :: "string \<Rightarrow> (string \<times> pval) list \<Rightarrow> node list \<Rightarrow> node" where
  "u_props_par t ps cs = Node t ps None (Some cs)"

text \<open>The DOM nodes that \<open>content/html.ts\<close> builds.\<close>

datatype dom = DText string | DElement string "(string \<times> string) list" "dom list"

text \<open>A thrown \<open>Error\<close>, with its message.\<close>

datatype error = Error string

definition message :: "error \<Rightarrow> string" where
  "message e = (case e of Error m \<Rightarrow> m)"

text \<open>JSON values, carried to the serialiser only.\<close>

datatype json = JNull | JBool bool | JNum int | JStr string
  | JArr "json list" | JObj "(string \<times> json) list"


section \<open>Content blocks and log records (\<open>claude-project/types.ts\<close>)\<close>

record todo =
  todo_status :: string
  todo_content :: string

text \<open>
  \<open>input\<close> of a content block is \<open>z.any()\<close>. \<open>tool_input\<close> is an input at the types
  \<open>createToolUseNodes\<close> reads its fields at: \<open>todos\<close> an array of \<open>Todo\<close>, \<open>file_path\<close>,
  \<open>command\<close> and \<open>pattern\<close> strings, \<open>edits\<close> an array; \<open>in_others\<close> are its remaining keys.
\<close>

record tool_input =
  in_todos :: "todo list option"
  in_file_path :: "string option"
  in_edits :: "json list option"
  in_command :: "string option"
  in_pattern :: "string option"
  in_others :: "(string \<times> json) list"

text \<open>
  \<open>any_input\<close> is an input as the decoder delivers it, where the schema checks nothing:
  \<open>todos\<close>, \<open>file_path\<close> and \<open>command\<close> hold a value of the type above, or a value of
  another type (\<open>other\<close>: a JSON value that is neither a string nor an array; for \<open>todos\<close>
  also a string); \<open>pattern\<close> holds a string, or an object, given as the node that
  \<open>u("inlineCode", pattern)\<close> makes of it. An array where a string is read, a pattern that
  is neither a string nor an object, an \<open>edits\<close> that is no array and an input that is no
  object are not modelled.
\<close>

datatype other = ONull | OBool bool | ONum int | OObj "(string \<times> json) list"

datatype todos_value = Todos "todo list" | TodosText string | TodosOther other

datatype text_value = TextValue string | TextOther other

datatype pattern_value = Pattern string | PatternNode node

record any_input =
  any_todos :: "todos_value option"
  any_file_path :: "text_value option"
  any_edits :: "json list option"
  any_command :: "text_value option"
  any_pattern :: "pattern_value option"
  any_others :: "(string \<times> json) list"

datatype block_type = BText | BToolUse | BToolResult | BThinking

datatype result_content = RStr string | RArr "json list"

text \<open>A content block, with an input of type \<open>'i\<close>: \<open>any_input\<close> in a decoded record.\<close>

record 'i content_block =
  btype :: block_type
  btext :: "string option"
  bthinking :: "string option"
  bsignature :: "string option"
  bid :: "string option"
  bname :: "string option"
  binput :: "'i option"
  btool_use_id :: "string option"
  bcontent :: "result_content option"

datatype message_content = CString string | CBlocks "any_input content_block list"

datatype entry_type = User | Assistant

text \<open>
  The records keep the fields that the modelled functions read. In a chat message,
  \<open>mtype\<close> is the \<open>type\<close> of the entry and \<open>mcontent\<close> the \<open>content\<close> of its \<open>message\<close>;
  \<open>toolResults\<close> is the annotation that \<open>mergeToolResults\<close> adds, absent from a decoded
  record.
\<close>

record chat_message =
  mtype :: entry_type
  mcontent :: message_content
  muuid :: string
  mtimestamp :: string
  msessionId :: string
  toolResults :: "(string \<rightharpoonup> string) option"

record system_message =
  sys_content :: string
  sys_uuid :: string
  sys_timestamp :: string

record summary_message =
  sm_summary :: string
  sm_leafUuid :: string

datatype chat_entry =
  ChatMessage chat_message
| SystemMessage system_message
| SummaryMessage summary_message


section \<open>External collaborators\<close>

text \<open>
  The libraries and the host the source calls, as parameters: remark's \<open>parse\<close> and
  \<open>stringify\<close>, the DOM's \<open>innerHTML\<close>, \<open>JSON.stringify(_, null, 2)\<close> (of an input at
  its types, of an input as decoded, of an array), the message of the \<open>TypeError\<close> that
  the engine throws when the member named by an expression is called and is no function,
  the decoder of one
  line (\<open>JSON.parse\<close> followed by \<open>ChatEntrySchema.parse\<close>, \<open>None\<close> when either throws),
  \<open>new Date(s).getTime()\<close> (\<open>None\<close> for an invalid date, whose time is \<open>NaN\<close>),
  \<open>basename\<close> of std/path, the clock (\<open>new Date()\<close>, as a timestamp), and two
  functions of the repository on whose results no statement below depends:
  \<open>formatTimestamp\<close> (the \<open>Date\<close> API in the host's time zone) and
  \<open>extractChatMetadata\<close> (counters and fields of the records).
\<close>

record env =
  md_stringify :: "node list \<Rightarrow> string"
  md_parse :: "string \<Rightarrow> node list"
  inner_html :: "dom list \<Rightarrow> string"
  json_stringify_input :: "tool_input \<Rightarrow> string"
  json_stringify_any :: "any_input \<Rightarrow> string"
  json_stringify :: "json list \<Rightarrow> string"
  not_a_function :: "string \<Rightarrow> string"
  decode_line :: "string \<Rightarrow> chat_entry option"
  date_time :: "string \<Rightarrow> int option"
  basename :: "string \<Rightarrow> string \<Rightarrow> string"
  formatTimestamp :: "string \<Rightarrow> string"
  extractChatMetadata :: "chat_entry list \<Rightarrow> (string \<times> string) list"
  current_time :: string


section \<open>Inline rendering (\<open>content/html.ts\<close>)\<close>

text \<open>\<open>element.textContent = String(node.value || "")\<close>, when the node is a literal.\<close>

definition textContent :: "string option \<Rightarrow> dom list" where
  "textContent v = (case v of None \<Rightarrow> [] | Some s \<Rightarrow> if s = [] then [] else [DText s])"

text \<open>
  \<open>nodeToElement\<close> returns an element, \<open>null\<close> (\<open>None\<close>) or throws; \<open>nodesToElements\<close>
  is the loop over a node array that appends the non-null elements, used for the children of
  \<open>strong\<close> and \<open>link\<close> and by \<open>unistToHtml\<close>.
\<close>

fun nodeToElement :: "node \<Rightarrow> error + dom option"
  and nodesToElements :: "node list \<Rightarrow> error + dom list" where
  "nodeToElement (Node t ps v cs) =
     (if t = ''text'' then
        (case v of Some s \<Rightarrow> Inr (Some (DText s)) | None \<Rightarrow> Inr None)
      else if t = ''strong'' then
        (case cs of
           Some ch \<Rightarrow>
             (case nodesToElements ch of
                Inl e \<Rightarrow> Inl e
              | Inr ds \<Rightarrow> Inr (Some (DElement ''strong'' [] ds)))
         | None \<Rightarrow> Inr (Some (DElement ''strong'' [] (textContent v))))
      else if t = ''code'' \<or> t = ''inlineCode'' then
        Inr (Some (DElement (if t = ''inlineCode'' then ''code'' else ''pre'') []
                     (textContent v)))
      else if t = ''link'' then
        (let attrs = (case map_of ps ''url'' of Some (PStr url) \<Rightarrow> [(''href'', url)] | _ \<Rightarrow> [])
         in case cs of
           Some ch \<Rightarrow>
             (case nodesToElements ch of
                Inl e \<Rightarrow> Inl e
              | Inr ds \<Rightarrow> Inr (Some (DElement ''a'' attrs ds)))
         | None \<Rightarrow> Inr (Some (DElement ''a'' attrs (textContent v))))
      else Inl (Error (''Unsupported unist node type: '' @ t)))"
| "nodesToElements [] = Inr []"
| "nodesToElements (n # ns) =
     (case nodeToElement n of
        Inl e \<Rightarrow> Inl e
      | Inr el \<Rightarrow>
          (case nodesToElements ns of
             Inl e \<Rightarrow> Inl e
           | Inr ds \<Rightarrow> Inr (case el of None \<Rightarrow> ds | Some d \<Rightarrow> d # ds)))"

definition unistToHtml :: "env \<Rightarrow> node list \<Rightarrow> error + string" where
  "unistToHtml E nodes =
     (case nodesToElements nodes of Inl e \<Rightarrow> Inl e | Inr ds \<Rightarrow> Inr (inner_html E ds))"


section \<open>Markdown utilities (\<open>content/markdown.ts\<close>)\<close>

definition stringifyMarkdown :: "env \<Rightarrow> node list \<Rightarrow> string" where
  "stringifyMarkdown E nodes = md_stringify E nodes"

definition parseMarkdown :: "env \<Rightarrow> string \<Rightarrow> node list" where
  "parseMarkdown E content = md_parse E content"

text \<open>The raw HTML of a details block, from the summary's HTML and the content's markdown.\<close>

definition detailsHtml :: "string \<Rightarrow> string \<Rightarrow> string" where
  "detailsHtml summaryHtml contentMarkdown =
     ''<details><summary>'' @ summaryHtml @ ''</summary>'' @ nl @ nl
       @ contentMarkdown @ nl @ nl @ ''</details>''"

definition createDetailsBlock :: "env \<Rightarrow> node list \<Rightarrow> node list \<Rightarrow> error + node list" where
  "createDetailsBlock E summary contentNodes =
     (case unistToHtml E summary of
        Inl e \<Rightarrow> Inl e
      | Inr summaryHtml \<Rightarrow>
          (let contentMarkdown = stringifyMarkdown E contentNodes
           in Inr [u_lit ''html'' (detailsHtml summaryHtml contentMarkdown)]))"

definition createMetadataTableNodes :: "(string \<times> string) list \<Rightarrow> node list" where
  "createMetadataTableNodes metadata =
     (if metadata = [] then []
      else
        (let rows = map (\<lambda>(key, val).
                      u_par ''tableRow''
                        [u_par ''tableCell'' [u_lit ''text'' key],
                         u_par ''tableCell'' [u_lit ''text'' val]]) metadata;
             headerRow = u_par ''tableRow''
                        [u_par ''tableCell'' [u_lit ''text'' ''Property''],
                         u_par ''tableCell'' [u_lit ''text'' ''Value'']]
         in [u_props_par ''table'' [(''align'', PList [PStr ''left'', PStr ''left''])]
               (headerRow # rows)]))"


section \<open>The collapsing engine (\<open>processAssistantContent\<close>)\<close>

record walk_state =
  visibleNodes :: "node list"
  collapsedNodes :: "node list"
  paragraphCount :: nat
  shouldCollapse :: bool

definition walk_init :: walk_state where
  "walk_init = \<lparr>visibleNodes = [], collapsedNodes = [], paragraphCount = 0,
     shouldCollapse = False\<rparr>"

text \<open>One iteration of the loop over \<open>contentNodes\<close>.\<close>

definition walk_step :: "walk_state \<Rightarrow> node \<Rightarrow> walk_state" where
  "walk_step s node =
     (if shouldCollapse s then s\<lparr>collapsedNodes := collapsedNodes s @ [node]\<rparr>
      else if ntype node = ''paragraph'' then
        (let s1 = s\<lparr>paragraphCount := paragraphCount s + 1\<rparr>
         in if paragraphCount s1 \<le> 3 then s1\<lparr>visibleNodes := visibleNodes s1 @ [node]\<rparr>
            else s1\<lparr>shouldCollapse := True, collapsedNodes := collapsedNodes s1 @ [node]\<rparr>)
      else if ntype node = ''heading'' then
        s\<lparr>shouldCollapse := True, collapsedNodes := collapsedNodes s @ [node]\<rparr>
      else if paragraphCount s \<ge> 3 then
        s\<lparr>shouldCollapse := True, collapsedNodes := collapsedNodes s @ [node]\<rparr>
      else s\<lparr>visibleNodes := visibleNodes s @ [node]\<rparr>)"

definition walk :: "node list \<Rightarrow> walk_state" where
  "walk contentNodes = foldl walk_step walk_init contentNodes"

definition hasDetailsBlocks :: "node list \<Rightarrow> bool" where
  "hasDetailsBlocks collapsed =
     list_ex (\<lambda>node. ntype node = ''html'' \<and>
                (case nvalue node of Some v \<Rightarrow> includes_str v ''<details>'' | None \<Rightarrow> False))
       collapsed"

definition processAssistantContent :: "env \<Rightarrow> node list \<Rightarrow> error + node list" where
  "processAssistantContent E contentNodes =
     (if contentNodes = [] then Inr []
      else
        (let s = walk contentNodes; result = visibleNodes s
         in if collapsedNodes s \<noteq> [] then
              (let collapsedMarkdown = trim (md_stringify E (collapsedNodes s))
               in if hasDetailsBlocks (collapsedNodes s) then
                    Inr (result @ [u_lit ''html'' collapsedMarkdown])
                  else
                    (case createDetailsBlock E [u_lit ''text'' ''More...''] (collapsedNodes s) of
                       Inl e \<Rightarrow> Inl e
                     | Inr detailsContent \<Rightarrow> Inr (result @ detailsContent)))
            else Inr result))"


section \<open>The tool-use renderer (\<open>createToolUseNodes\<close>)\<close>

text \<open>The optional \<open>description\<close> argument of \<open>createToolSummary\<close>: a string or a node array.\<close>

datatype description = NoDescription | DString string | DNodes "node list"

definition wrench :: string where
  "wrench = [CHR 0xF0, CHR 0x9F, CHR 0x94, CHR 0xA7]"

definition clipboard :: string where
  "clipboard = [CHR 0xF0, CHR 0x9F, CHR 0x93, CHR 0x8B]"

definition createCodeNode :: "string \<Rightarrow> string option \<Rightarrow> node" where
  "createCodeNode content language =
     (if includes_str content nl then
        u_props_lit ''code''
          [(''lang'', (case language of None \<Rightarrow> PNull
                       | Some l \<Rightarrow> if l = [] then PNull else PStr l))] content
      else u_lit ''inlineCode'' content)"

definition createToolSummary :: "string \<Rightarrow> description \<Rightarrow> node list" where
  "createToolSummary toolName description =
     [u_lit ''text'' (wrench @ '' ''), u_par ''strong'' [u_lit ''text'' toolName]] @
     (case description of
        NoDescription \<Rightarrow> []
      | DString d \<Rightarrow> if d = [] then [] else [u_lit ''text'' ('': '' @ d)]
      | DNodes ds \<Rightarrow> u_lit ''text'' '': '' # ds)"

text \<open>\<open>xs.join(sep)\<close>\<close>

fun join :: "string \<Rightarrow> string list \<Rightarrow> string" where
  "join sep [] = []"
| "join sep [x] = x"
| "join sep (x # y # ys) = x @ sep @ join sep (y # ys)"

definition taskSummary :: "todo \<Rightarrow> string" where
  "taskSummary t =
     (if todo_status t = ''completed'' then [CHR 0xE2, CHR 0x9C, CHR 0x85]
      else if todo_status t = ''in_progress'' then [CHR 0xF0, CHR 0x9F, CHR 0x94, CHR 0x84]
      else [CHR 0xE2, CHR 0x8F, CHR 0xB3]) @ '' '' @ todo_content t"

definition count_status :: "string \<Rightarrow> todo list \<Rightarrow> nat" where
  "count_status st ts = length (filter (\<lambda>t. todo_status t = st) ts)"

text \<open>\<open>block.input?.f\<close>\<close>

definition input_field :: "('i \<Rightarrow> 'a option) \<Rightarrow> 'i content_block \<Rightarrow> 'a option" where
  "input_field f block = (case binput block of None \<Rightarrow> None | Some i \<Rightarrow> f i)"

text \<open>\<open>block.input.file_path.split("/").pop()\<close>, then \<open>fileName || ""\<close>\<close>

definition fileName :: "string \<Rightarrow> string" where
  "fileName path = or_empty (pop (split CHR ''/'' path))"

text \<open>\<open>Object.keys(input).length\<close>\<close>

definition present :: "'a option \<Rightarrow> nat" where
  "present v = (case v of None \<Rightarrow> 0 | Some _ \<Rightarrow> 1)"

definition keys_length :: "tool_input \<Rightarrow> nat" where
  "keys_length i = present (in_todos i) + present (in_file_path i) + present (in_edits i)
     + present (in_command i) + present (in_pattern i) + length (in_others i)"

definition toolNameOf :: "'i content_block \<Rightarrow> string" where
  "toolNameOf block = (if truthy (bname block) then or_empty (bname block) else ''unknown_tool'')"

text \<open>
  \<open>createToolUseNodes\<close> on a block whose input is at its types. The summary, and the
  nodes pushed while it is computed (the task list of \<open>TodoWrite\<close>): the chain of \<open>if\<close>s
  on the tool name.
\<close>

definition toolSummaryAndNodes ::
  "env \<Rightarrow> tool_input content_block \<Rightarrow> node list \<times> node list" where
  "toolSummaryAndNodes E block =
     (let toolName = toolNameOf block in
      if toolName = ''TodoWrite'' \<and> input_field in_todos block \<noteq> None then
        (let tds = (case input_field in_todos block of None \<Rightarrow> [] | Some ts \<Rightarrow> ts);
             completed = count_status ''completed'' tds;
             inProgress = count_status ''in_progress'' tds;
             pending = count_status ''pending'' tds;
             taskSummaries = map taskSummary tds;
             tasksText = ''**Tasks:**'' @ [CHR 0x5C] @ nl
               @ join ([CHR 0x5C] @ nl) taskSummaries
         in (createToolSummary toolName
               (DString (''Updated todo list ('' @ show_nat completed @ '' completed, ''
                  @ show_nat inProgress @ '' in progress, '' @ show_nat pending
                  @ '' pending)'')),
             md_parse E tasksText))
      else if toolName = ''Read'' \<and> truthy (input_field in_file_path block) then
        (createToolSummary toolName
           (DNodes [u_lit ''text'' ''Read file '',
                    u_lit ''inlineCode'' (fileName (or_empty (input_field in_file_path block)))]),
         [])
      else if toolName = ''Write'' \<and> truthy (input_field in_file_path block) then
        (createToolSummary toolName
           (DNodes [u_lit ''text'' ''Created file '',
                    u_lit ''inlineCode'' (fileName (or_empty (input_field in_file_path block)))]),
         [])
      else if toolName = ''Edit'' \<and> truthy (input_field in_file_path block) then
        (createToolSummary toolName
           (DNodes [u_lit ''text'' ''Edited file '',
                    u_lit ''inlineCode'' (fileName (or_empty (input_field in_file_path block)))]),
         [])
      else if toolName = ''MultiEdit'' \<and> truthy (input_field in_file_path block) then
        (let editCount = (case input_field in_edits block of None \<Rightarrow> 0 | Some es \<Rightarrow> length es)
         in (createToolSummary toolName
               (DNodes [u_lit ''text'' (''Made '' @ show_nat editCount @ '' edits to ''),
                        u_lit ''inlineCode''
                          (fileName (or_empty (input_field in_file_path block)))]),
             []))
      else if toolName = ''Bash'' \<and> truthy (input_field in_command block) then
        (createToolSummary toolName
           (DNodes [createCodeNode (or_empty (input_field in_command block)) (Some ''bash'')]),
         [])
      else if toolName = ''Glob'' \<and> truthy (input_field in_pattern block) then
        (createToolSummary toolName
           (DNodes [u_lit ''text'' ''Search pattern '',
                    u_lit ''inlineCode'' (or_empty (input_field in_pattern block))]),
         [])
      else if toolName = ''Grep'' \<and> truthy (input_field in_pattern block) then
        (createToolSummary toolName
           (DNodes [u_lit ''text'' ''Search for '',
                    u_lit ''inlineCode'' (or_empty (input_field in_pattern block))]),
         [])
      else (createToolSummary toolName NoDescription, []))"

text \<open>The raw parameters, first part of the collapsible content.\<close>

definition parameterParts :: "env \<Rightarrow> tool_input content_block \<Rightarrow> node list" where
  "parameterParts E block =
     (case binput block of
        None \<Rightarrow> []
      | Some i \<Rightarrow>
          if keys_length i > 0 then
            [u_par ''paragraph'' [u_par ''strong'' [u_lit ''text'' ''Parameters:'']],
             u_props_lit ''code'' [(''lang'', PStr ''json'')] (json_stringify_input E i)]
          else [])"

text \<open>
  The result: what is pushed on \<open>nodes\<close> (shown openly) and what is pushed on
  \<open>collapsibleParts\<close>.
\<close>

definition resultParts :: "string \<Rightarrow> string option \<Rightarrow> node list \<times> node list" where
  "resultParts toolName result =
     (if truthy result then
        (if toolName = ''Write'' \<or> toolName = ''Edit'' then
           ([u_par ''paragraph''
               [u_lit ''text'' (clipboard @ '' ''), u_par ''strong'' [u_lit ''text'' ''Result:'']],
             u_props_lit ''code'' [(''lang'', PNull)] (or_empty result)],
            [])
         else if toolName = ''Read'' then
           ([],
            [u_par ''paragraph'' [u_par ''strong'' [u_lit ''text'' ''File Contents:'']],
             u_props_lit ''code'' [(''lang'', PNull)] (or_empty result)])
         else
           ([],
            [u_par ''paragraph'' [u_par ''strong'' [u_lit ''text'' ''Result:'']],
             u_props_lit ''code'' [(''lang'', PNull)] (or_empty result)]))
      else ([], []))"

definition createToolUseNodes ::
  "env \<Rightarrow> tool_input content_block \<Rightarrow> string option \<Rightarrow> error + node list" where
  "createToolUseNodes E block result =
     (let toolName = toolNameOf block;
          (summary, nodes0) = toolSummaryAndNodes E block;
          (openParts, hiddenParts) = resultParts toolName result;
          nodes = nodes0 @ openParts;
          collapsibleParts = parameterParts E block @ hiddenParts
      in if collapsibleParts \<noteq> [] then
           (case createDetailsBlock E summary collapsibleParts of
              Inl e \<Rightarrow> Inl e
            | Inr detailsContent \<Rightarrow> Inr (detailsContent @ nodes))
         else
           (case unistToHtml E summary of
              Inl e \<Rightarrow> Inl e
            | Inr html \<Rightarrow> Inr (u_lit ''html'' html # nodes)))"

text \<open>
  \<open>createToolUseNodes\<close> on a block as decoded. The chain of \<open>if\<close>s tests the field of the
  tool for truthiness and then calls a method of its type on it: \<open>todos.filter\<close>,
  \<open>block.input.file_path.split\<close>, \<open>content.includes\<close> (in \<open>createCodeNode\<close>); on a
  value of another type the member is \<open>undefined\<close> and the call throws a \<open>TypeError\<close>.
  \<open>u("inlineCode", pattern)\<close> with an object for \<open>pattern\<close> assigns the object's
  properties to the new node (\<open>Object.assign\<close> in unist-builder), its \<open>type\<close> included
  if it has one: the node has the type and the other properties of the object.
\<close>

definition truthy_other :: "other \<Rightarrow> bool" where
  "truthy_other v = (case v of ONull \<Rightarrow> False | OBool b \<Rightarrow> b | ONum n \<Rightarrow> n \<noteq> 0 | OObj _ \<Rightarrow> True)"

definition truthy_todos :: "todos_value option \<Rightarrow> bool" where
  "truthy_todos v =
     (case v of
        None \<Rightarrow> False
      | Some (Todos _) \<Rightarrow> True
      | Some (TodosText s) \<Rightarrow> s \<noteq> []
      | Some (TodosOther x) \<Rightarrow> truthy_other x)"

definition truthy_text :: "text_value option \<Rightarrow> bool" where
  "truthy_text v =
     (case v of
        None \<Rightarrow> False
      | Some (TextValue s) \<Rightarrow> s \<noteq> []
      | Some (TextOther x) \<Rightarrow> truthy_other x)"

definition truthy_pattern :: "pattern_value option \<Rightarrow> bool" where
  "truthy_pattern v =
     (case v of None \<Rightarrow> False | Some (Pattern s) \<Rightarrow> s \<noteq> [] | Some (PatternNode _) \<Rightarrow> True)"

definition inlineCodeOf :: "pattern_value \<Rightarrow> node" where
  "inlineCodeOf p = (case p of Pattern s \<Rightarrow> u_lit ''inlineCode'' s | PatternNode n \<Rightarrow> n)"

definition type_error :: "env \<Rightarrow> string \<Rightarrow> error" where
  "type_error E member = Error (not_a_function E member)"

definition toolSummaryAndNodes_any ::
  "env \<Rightarrow> any_input content_block \<Rightarrow> error + node list \<times> node list" where
  "toolSummaryAndNodes_any E block =
     (let toolName = toolNameOf block in
      if toolName = ''TodoWrite'' \<and> truthy_todos (input_field any_todos block) then
        (case input_field any_todos block of
           Some (Todos tds) \<Rightarrow>
             (let completed = count_status ''completed'' tds;
                  inProgress = count_status ''in_progress'' tds;
                  pending = count_status ''pending'' tds;
                  taskSummaries = map taskSummary tds;
                  tasksText = ''**Tasks:**'' @ [CHR 0x5C] @ nl
                    @ join ([CHR 0x5C] @ nl) taskSummaries
              in Inr (createToolSummary toolName
                        (DString (''Updated todo list ('' @ show_nat completed @ '' completed, ''
                           @ show_nat inProgress @ '' in progress, '' @ show_nat pending
                           @ '' pending)'')),
                      md_parse E tasksText))
         | _ \<Rightarrow> Inl (type_error E ''todos.filter''))
      else if toolName = ''Read'' \<and> truthy_text (input_field any_file_path block) then
        (case input_field any_file_path block of
           Some (TextValue path) \<Rightarrow>
             Inr (createToolSummary toolName
                    (DNodes [u_lit ''text'' ''Read file '', u_lit ''inlineCode'' (fileName path)]),
                  [])
         | _ \<Rightarrow> Inl (type_error E ''block.input.file_path.split''))
      else if toolName = ''Write'' \<and> truthy_text (input_field any_file_path block) then
        (case input_field any_file_path block of
           Some (TextValue path) \<Rightarrow>
             Inr (createToolSummary toolName
                    (DNodes [u_lit ''text'' ''Created file '',
                             u_lit ''inlineCode'' (fileName path)]),
                  [])
         | _ \<Rightarrow> Inl (type_error E ''block.input.file_path.split''))
      else if toolName = ''Edit'' \<and> truthy_text (input_field any_file_path block) then
        (case input_field any_file_path block of
           Some (TextValue path) \<Rightarrow>
             Inr (createToolSummary toolName
                    (DNodes [u_lit ''text'' ''Edited file '',
                             u_lit ''inlineCode'' (fileName path)]),
                  [])
         | _ \<Rightarrow> Inl (type_error E ''block.input.file_path.split''))
      else if toolName = ''MultiEdit'' \<and> truthy_text (input_field any_file_path block) then
        (case input_field any_file_path block of
           Some (TextValue path) \<Rightarrow>
             (let editCount = (case input_field any_edits block of
                                 None \<Rightarrow> 0 | Some es \<Rightarrow> length es)
              in Inr (createToolSummary toolName
                        (DNodes [u_lit ''text'' (''Made '' @ show_nat editCount @ '' edits to ''),
                                 u_lit ''inlineCode'' (fileName path)]),
                      []))
         | _ \<Rightarrow> Inl (type_error E ''block.input.file_path.split''))
      else if toolName = ''Bash'' \<and> truthy_text (input_field any_command block) then
        (case input_field any_command block of
           Some (TextValue content) \<Rightarrow>
             Inr (createToolSummary toolName (DNodes [createCodeNode content (Some ''bash'')]),
                  [])
         | _ \<Rightarrow> Inl (type_error E ''content.includes''))
      else if toolName = ''Glob'' \<and> truthy_pattern (input_field any_pattern block) then
        (case input_field any_pattern block of
           Some p \<Rightarrow>
             Inr (createToolSummary toolName
                    (DNodes [u_lit ''text'' ''Search pattern '', inlineCodeOf p]),
                  [])
         | None \<Rightarrow> Inr (createToolSummary toolName NoDescription, []))
      else if toolName = ''Grep'' \<and> truthy_pattern (input_field any_pattern block) then
        (case input_field any_pattern block of
           Some p \<Rightarrow>
             Inr (createToolSummary toolName
                    (DNodes [u_lit ''text'' ''Search for '', inlineCodeOf p]),
                  [])
         | None \<Rightarrow> Inr (createToolSummary toolName NoDescription, []))
      else Inr (createToolSummary toolName NoDescription, []))"

definition keys_length_any :: "any_input \<Rightarrow> nat" where
  "keys_length_any i = present (any_todos i) + present (any_file_path i) + present (any_edits i)
     + present (any_command i) + present (any_pattern i) + length (any_others i)"

definition parameterParts_any :: "env \<Rightarrow> any_input content_block \<Rightarrow> node list" where
  "parameterParts_any E block =
     (case binput block of
        None \<Rightarrow> []
      | Some i \<Rightarrow>
          if keys_length_any i > 0 then
            [u_par ''paragraph'' [u_par ''strong'' [u_lit ''text'' ''Parameters:'']],
             u_props_lit ''code'' [(''lang'', PStr ''json'')] (json_stringify_any E i)]
          else [])"

definition createToolUseNodes_any ::
  "env \<Rightarrow> any_input content_block \<Rightarrow> string option \<Rightarrow> error + node list" where
  "createToolUseNodes_any E block result =
     (case toolSummaryAndNodes_any E block of
        Inl e \<Rightarrow> Inl e
      | Inr (summary, nodes0) \<Rightarrow>
          (let toolName = toolNameOf block;
               (openParts, hiddenParts) = resultParts toolName result;
               nodes = nodes0 @ openParts;
               collapsibleParts = parameterParts_any E block @ hiddenParts
           in if collapsibleParts \<noteq> [] then
                (case createDetailsBlock E summary collapsibleParts of
                   Inl e \<Rightarrow> Inl e
                 | Inr detailsContent \<Rightarrow> Inr (detailsContent @ nodes))
              else
                (case unistToHtml E summary of
                   Inl e \<Rightarrow> Inl e
                 | Inr html \<Rightarrow> Inr (u_lit ''html'' html # nodes))))"

text \<open>An input at its types, as a decoded input; and the block that holds it.\<close>

definition as_any :: "tool_input \<Rightarrow> any_input" where
  "as_any i = \<lparr>any_todos = map_option Todos (in_todos i),
     any_file_path = map_option TextValue (in_file_path i), any_edits = in_edits i,
     any_command = map_option TextValue (in_command i),
     any_pattern = map_option Pattern (in_pattern i), any_others = in_others i\<rparr>"

definition block_as_any :: "tool_input content_block \<Rightarrow> any_input content_block" where
  "block_as_any block = \<lparr>btype = btype block, btext = btext block, bthinking = bthinking block,
     bsignature = bsignature block, bid = bid block, bname = bname block,
     binput = map_option as_any (binput block), btool_use_id = btool_use_id block,
     bcontent = bcontent block\<rparr>"


section \<open>The tool-call reconciler (\<open>mergeToolResults\<close>)\<close>

text \<open>
  \<open>block.type === "tool_result" && block.tool_use_id && block.content\<close>: the content is a
  string, truthy when not empty, or an array, always truthy.
\<close>

definition recordable :: "'i content_block \<Rightarrow> bool" where
  "recordable block =
     (btype block = BToolResult \<and> truthy (btool_use_id block) \<and>
      (case bcontent block of None \<Rightarrow> False | Some (RStr s) \<Rightarrow> s \<noteq> [] | Some (RArr _) \<Rightarrow> True))"

definition payload :: "env \<Rightarrow> 'i content_block \<Rightarrow> string" where
  "payload E block =
     (case bcontent block of
        None \<Rightarrow> []
      | Some (RStr s) \<Rightarrow> s
      | Some (RArr js) \<Rightarrow> json_stringify E js)"

definition collect_block ::
  "env \<Rightarrow> (string \<rightharpoonup> string) \<Rightarrow> 'i content_block \<Rightarrow> (string \<rightharpoonup> string)" where
  "collect_block E m block =
     (if recordable block then m(or_empty (btool_use_id block) \<mapsto> payload E block) else m)"

text \<open>\<open>"message" in entry && entry.type === "user" && typeof entry.message.content !== "string"\<close>\<close>

definition user_blocks :: "chat_entry \<Rightarrow> any_input content_block list option" where
  "user_blocks entry =
     (case entry of
        ChatMessage m \<Rightarrow>
          (if mtype m = User then
             (case mcontent m of CBlocks bs \<Rightarrow> Some bs | CString _ \<Rightarrow> None)
           else None)
      | _ \<Rightarrow> None)"

definition collect_entry :: "env \<Rightarrow> (string \<rightharpoonup> string) \<Rightarrow> chat_entry \<Rightarrow> (string \<rightharpoonup> string)" where
  "collect_entry E m entry =
     (case user_blocks entry of None \<Rightarrow> m | Some bs \<Rightarrow> foldl (collect_block E) m bs)"

text \<open>First pass: the Tool Result Index.\<close>

definition collectToolResults :: "env \<Rightarrow> chat_entry list \<Rightarrow> (string \<rightharpoonup> string)" where
  "collectToolResults E entries = foldl (collect_entry E) Map.empty entries"

definition hasNonToolResult :: "'i content_block list \<Rightarrow> bool" where
  "hasNonToolResult bs = list_ex (\<lambda>block. btype block \<noteq> BToolResult) bs"

text \<open>Second pass: skip the messages that are only tool results, annotate the assistant's.\<close>

fun secondPass :: "(string \<rightharpoonup> string) \<Rightarrow> chat_entry list \<Rightarrow> chat_entry list" where
  "secondPass results [] = []"
| "secondPass results (entry # entries) =
     (if (case user_blocks entry of None \<Rightarrow> False | Some bs \<Rightarrow> \<not> hasNonToolResult bs) then
        secondPass results entries
      else
        (case entry of
           ChatMessage m \<Rightarrow>
             (if mtype m = Assistant then
                ChatMessage (m\<lparr>toolResults := Some results\<rparr>) # secondPass results entries
              else entry # secondPass results entries)
         | _ \<Rightarrow> entry # secondPass results entries))"

definition mergeToolResults :: "env \<Rightarrow> chat_entry list \<Rightarrow> chat_entry list" where
  "mergeToolResults E entries = secondPass (collectToolResults E entries) entries"


section \<open>The entry classifier (\<open>chat-processing.ts\<close>)\<close>

text \<open>A user's text: one paragraph, a \<open>break\<close> between the lines.\<close>

fun lineChildren :: "string list \<Rightarrow> node list" where
  "lineChildren [] = []"
| "lineChildren [l] = [u_lit ''text'' l]"
| "lineChildren (l # l' # ls) = u_lit ''text'' l # u_leaf ''break'' # lineChildren (l' # ls)"

definition textBlock :: "string \<Rightarrow> 'i content_block" where
  "textBlock s = \<lparr>btype = BText, btext = Some s, bthinking = None, bsignature = None,
     bid = None, bname = None, binput = None, btool_use_id = None, bcontent = None\<rparr>"

definition blockNodes ::
  "env \<Rightarrow> (string \<rightharpoonup> string) option \<Rightarrow> bool \<Rightarrow> any_input content_block \<Rightarrow>
   error + node list" where
  "blockNodes E results isAssistant block =
     (if btype block = BText \<and> truthy (btext block) then
        (if isAssistant then Inr (parseMarkdown E (or_empty (btext block)))
         else Inr [u_par ''paragraph'' (lineChildren (split CHR 0x0A (or_empty (btext block))))])
      else if btype block = BToolUse then
        (let result = (case results of
                         None \<Rightarrow> None
                       | Some m \<Rightarrow> if truthy (bid block) then m (or_empty (bid block)) else None)
         in createToolUseNodes_any E block result)
      else Inr [])"

fun blocksNodes ::
  "env \<Rightarrow> (string \<rightharpoonup> string) option \<Rightarrow> bool \<Rightarrow> any_input content_block list \<Rightarrow>
   error + node list" where
  "blocksNodes E results isAssistant [] = Inr []"
| "blocksNodes E results isAssistant (block # blocks) =
     (case blockNodes E results isAssistant block of
        Inl e \<Rightarrow> Inl e
      | Inr ns \<Rightarrow>
          (case blocksNodes E results isAssistant blocks of
             Inl e \<Rightarrow> Inl e
           | Inr ms \<Rightarrow> Inr (ns @ ms)))"

definition extractTextContentAsNodes ::
  "env \<Rightarrow> message_content \<Rightarrow> (string \<rightharpoonup> string) option \<Rightarrow> bool \<Rightarrow> error + node list" where
  "extractTextContentAsNodes E content results isAssistant =
     blocksNodes E results isAssistant
       (case content of CString s \<Rightarrow> [textBlock s] | CBlocks bs \<Rightarrow> bs)"

definition system_glyph :: string where
  "system_glyph = [CHR 0xC3, CHR 0xB0, CHR 0xC5, CHR 0xB8, CHR 0xE2, CHR 0x80, CHR 0x9D,
     CHR 0xC2, CHR 0xA7]"

definition createChatEntryNodes :: "env \<Rightarrow> chat_entry \<Rightarrow> error + node list" where
  "createChatEntryNodes E entry =
     (case entry of
        SummaryMessage sm \<Rightarrow>
          processAssistantContent E
            [u_props_par ''heading'' [(''depth'', PNum 2)] [u_lit ''text'' ''Summary''],
             u_par ''paragraph'' [u_lit ''text'' (sm_summary sm)]]
      | SystemMessage sy \<Rightarrow>
          processAssistantContent E
            [u_props_par ''heading'' [(''depth'', PNum 3)]
               [u_lit ''text'' (formatTimestamp E (sys_timestamp sy))],
             u_par ''paragraph''
               [u_lit ''text'' (system_glyph @ '' ''),
                u_par ''strong'' [u_lit ''text'' ''System''],
                u_lit ''text'' ('': '' @ sys_content sy)]]
      | ChatMessage m \<Rightarrow>
          (case extractTextContentAsNodes E (mcontent m) (toolResults m) (mtype m = Assistant) of
             Inl e \<Rightarrow> Inl e
           | Inr contentNodes \<Rightarrow>
               if contentNodes = [] then Inr []
               else if mtype m = User then
                 Inr [u_props_par ''heading'' [(''depth'', PNum 3)]
                        [u_lit ''text'' (formatTimestamp E (mtimestamp m))],
                      u_par ''blockquote'' contentNodes]
               else processAssistantContent E contentNodes))"

text \<open>\<open>AppCliOptions\<close>\<close>

record app_cli_options =
  opt_project :: "string option"
  opt_output :: "string option"
  opt_chats :: "string list option"
  opt_help :: "bool option"
  opt_currentProject :: "bool option"

definition createExportMetadata ::
  "env \<Rightarrow> string \<Rightarrow> string list \<Rightarrow> app_cli_options \<Rightarrow> (string \<times> string) list" where
  "createExportMetadata E projectName chatFiles options =
     (let chatCount = length chatFiles;
          selectedChats = (case opt_chats options of Some cs \<Rightarrow> length cs | None \<Rightarrow> chatCount);
          exportTime = formatTimestamp E (current_time E)
      in [(''Project Name'', projectName),
          (''Export Date'', exportTime),
          (''Total Chat Files'', show_nat chatCount),
          (''Exported Chats'', show_nat selectedChats),
          (''Output Format'', ''Markdown'')])"


section \<open>Chat files (\<open>jsonl.ts\<close>, \<open>claude-project.ts\<close>)\<close>

text \<open>
  The file system maps a path to the text of the file, or to the message of the error that
  \<open>Deno.readTextFile\<close> throws.
\<close>

type_synonym fs = "string \<Rightarrow> error + string"

text \<open>\<open>content.trim().split("\n").filter((line) => line.trim())\<close>\<close>

definition file_lines :: "string \<Rightarrow> string list" where
  "file_lines content = filter (\<lambda>line. trim line \<noteq> []) (split CHR 0x0A (trim content))"

text \<open>The loop of \<open>parseJsonlFile\<close>: a line that fails to parse is skipped with a warning.\<close>

fun parseLines :: "env \<Rightarrow> string list \<Rightarrow> chat_entry list" where
  "parseLines E [] = []"
| "parseLines E (line # lines) =
     (case decode_line E line of
        None \<Rightarrow> parseLines E lines
      | Some entry \<Rightarrow> entry # parseLines E lines)"

definition parseClaudeChatFile :: "env \<Rightarrow> fs \<Rightarrow> string \<Rightarrow> error + chat_entry list" where
  "parseClaudeChatFile E files filePath =
     (case files filePath of
        Inl e \<Rightarrow> Inl e
      | Inr content \<Rightarrow> Inr (parseLines E (file_lines content)))"

text \<open>\<open>"timestamp" in entry\<close>: a summary has none.\<close>

definition entry_timestamp :: "chat_entry \<Rightarrow> string option" where
  "entry_timestamp entry =
     (case entry of
        ChatMessage m \<Rightarrow> Some (mtimestamp m)
      | SystemMessage sy \<Rightarrow> Some (sys_timestamp sy)
      | SummaryMessage _ \<Rightarrow> None)"

text \<open>
  A \<open>Date\<close> is modelled by its \<open>getTime()\<close>: milliseconds since the epoch, \<open>None\<close> for an
  invalid date (\<open>NaN\<close>).
\<close>

type_synonym date = "int option"

definition epoch :: date where
  "epoch = Some 0"

fun firstTimestamp :: "env \<Rightarrow> string list \<Rightarrow> date" where
  "firstTimestamp E [] = epoch"
| "firstTimestamp E (line # lines) =
     (case decode_line E line of
        None \<Rightarrow> firstTimestamp E lines
      | Some entry \<Rightarrow>
          (case entry_timestamp entry of
             Some ts \<Rightarrow> date_time E ts
           | None \<Rightarrow> firstTimestamp E lines))"

definition getChatStartTime :: "env \<Rightarrow> fs \<Rightarrow> string \<Rightarrow> date" where
  "getChatStartTime E files chatFile =
     (case files chatFile of
        Inl _ \<Rightarrow> epoch
      | Inr content \<Rightarrow>
          (let lines = file_lines content
           in if lines = [] then epoch else firstTimestamp E lines))"

text \<open>
  \<open>Array.prototype.sort\<close> with a comparator, as V8 does it (\<open>ArrayTimSortImpl\<close> of
  \<open>third_party/v8/builtins/array-sort.tq\<close>) for an array of fewer than 64 elements: the
  minimal run length is then the length of the array, so the first run is counted, made
  ascending, and extended over the whole array by binary insertion; nothing is merged. A
  comparator result \<open>NaN\<close> is read as 0. Longer arrays, which V8 cuts into several such
  runs and merges, are sorted here as one run, which gives the same result when the
  comparator is consistent.
\<close>

definition negative :: "int option \<Rightarrow> bool" where
  "negative v = (case v of None \<Rightarrow> False | Some d \<Rightarrow> d < 0)"

text \<open>
  \<open>CountAndMakeRun\<close>: the length of the run that starts the array, descending when the
  second element compares less than the first and then as long as each element compares
  less than the one before it, ascending otherwise and then as long as no element compares
  less than the one before it; a descending run is reversed in place.
\<close>

fun run_rest :: "('a \<Rightarrow> 'a \<Rightarrow> int option) \<Rightarrow> bool \<Rightarrow> 'a \<Rightarrow> 'a list \<Rightarrow> nat" where
  "run_rest cmp descending previous [] = 0"
| "run_rest cmp descending previous (current # rest) =
     (if negative (cmp current previous) = descending
      then Suc (run_rest cmp descending current rest) else 0)"

definition countAndMakeRun :: "('a \<Rightarrow> 'a \<Rightarrow> int option) \<Rightarrow> 'a list \<Rightarrow> 'a list \<times> nat" where
  "countAndMakeRun cmp xs =
     (case xs of
        a # b # rest \<Rightarrow>
          (let descending = negative (cmp b a);
               runLength = 2 + run_rest cmp descending b rest
           in (if descending then rev (take runLength xs) @ drop runLength xs else xs,
               runLength))
      | _ \<Rightarrow> (xs, length xs))"

text \<open>
  \<open>BinaryInsertionSort\<close>: each element after the run is the pivot of a binary search
  in the sorted part before it, which goes left when the pivot compares less than the
  middle element and right otherwise, and is inserted where the search ends.
\<close>

function search :: "('a \<Rightarrow> 'a \<Rightarrow> int option) \<Rightarrow> 'a \<Rightarrow> 'a list \<Rightarrow> nat \<Rightarrow> nat \<Rightarrow> nat" where
  "search cmp pivot xs left right =
     (if left < right then
        (if negative (cmp pivot (xs ! (left + (right - left) div 2)))
         then search cmp pivot xs left (left + (right - left) div 2)
         else search cmp pivot xs (left + (right - left) div 2 + 1) right)
      else left)"
  by pat_completeness auto
termination
  by (relation "measure (\<lambda>(cmp, pivot, xs, left, right). right - left)") auto

declare search.simps [simp del]

definition binaryInsert :: "('a \<Rightarrow> 'a \<Rightarrow> int option) \<Rightarrow> 'a list \<Rightarrow> 'a \<Rightarrow> 'a list" where
  "binaryInsert cmp run pivot =
     (let left = search cmp pivot run 0 (length run)
      in take left run @ pivot # drop left run)"

definition array_sort :: "('a \<Rightarrow> 'a \<Rightarrow> int option) \<Rightarrow> 'a list \<Rightarrow> 'a list" where
  "array_sort cmp xs =
     (if length xs < 2 then xs
      else
        (let (ys, runLength) = countAndMakeRun cmp xs
         in foldl (binaryInsert cmp) (take runLength ys) (drop runLength ys)))"

text \<open>\<open>a.startTime.getTime() - b.startTime.getTime()\<close>\<close>

definition compareStartTime :: "string \<times> date \<Rightarrow> string \<times> date \<Rightarrow> int option" where
  "compareStartTime a b =
     (case (snd a, snd b) of (Some ta, Some tb) \<Rightarrow> Some (ta - tb) | _ \<Rightarrow> None)"

definition sortChatFilesByTime :: "env \<Rightarrow> fs \<Rightarrow> string list \<Rightarrow> string list" where
  "sortChatFilesByTime E files chatFiles =
     map fst (array_sort compareStartTime
       (map (\<lambda>chatFile. (chatFile, getChatStartTime E files chatFile)) chatFiles))"


section \<open>The document (\<open>export.ts\<close>)\<close>

text \<open>The loop over the reconciled entries; it stops at the first entry whose rendering throws.\<close>

fun pushEntries :: "env \<Rightarrow> node list \<Rightarrow> chat_entry list \<Rightarrow> node list \<times> error option" where
  "pushEntries E documentNodes [] = (documentNodes, None)"
| "pushEntries E documentNodes (entry # entries) =
     (case createChatEntryNodes E entry of
        Inl e \<Rightarrow> (documentNodes, Some e)
      | Inr entryNodes \<Rightarrow> pushEntries E (documentNodes @ entryNodes) entries)"

definition formatTime :: "env \<Rightarrow> string \<Rightarrow> (string \<times> string) list \<Rightarrow> (string \<times> string) list" where
  "formatTime E key metadata =
     map (\<lambda>(k, v). if k = key \<and> v \<noteq> [] then (k, formatTimestamp E v) else (k, v)) metadata"

text \<open>
  The body of the \<open>try\<close> for one chat file: the document after it, and the error it
  threw, if any.
\<close>

definition processChat :: "env \<Rightarrow> fs \<Rightarrow> string \<Rightarrow> node list \<Rightarrow> node list \<times> error option" where
  "processChat E files chatFile documentNodes =
     (case parseClaudeChatFile E files chatFile of
        Inl e \<Rightarrow> (documentNodes, Some e)
      | Inr entries \<Rightarrow>
          (let metadata = extractChatMetadata E entries;
               formattedMetadata = formatTime E ''End Time'' (formatTime E ''Start Time'' metadata);
               metadataNodes = createMetadataTableNodes formattedMetadata;
               processedEntries = mergeToolResults E entries
           in pushEntries E (documentNodes @ metadataNodes) processedEntries))"

definition errorParagraph :: "error \<Rightarrow> node" where
  "errorParagraph e =
     u_par ''paragraph''
       [u_par ''emphasis'' [u_lit ''text'' (''Error processing this chat: '' @ message e)]]"

definition chatHeading :: "env \<Rightarrow> string \<Rightarrow> node" where
  "chatHeading E chatFile =
     u_props_par ''heading'' [(''depth'', PNum 2)]
       [u_lit ''text'' (''Chat: '' @ basename E chatFile ''.jsonl'')]"

fun chatLoop :: "env \<Rightarrow> fs \<Rightarrow> node list \<Rightarrow> string list \<Rightarrow> node list" where
  "chatLoop E files documentNodes [] = documentNodes"
| "chatLoop E files documentNodes (chatFile # chatFiles) =
     (let (pushed, thrown) = processChat E files chatFile (documentNodes @ [chatHeading E chatFile]);
          caught = (case thrown of None \<Rightarrow> pushed | Some e \<Rightarrow> pushed @ [errorParagraph e])
      in chatLoop E files (caught @ [u_leaf ''thematicBreak'']) chatFiles)"

text \<open>\<open>basename(chatFiles[0]).split("/").slice(-2, -1)[0] || "Chat"\<close>\<close>

definition exportProjectName :: "env \<Rightarrow> string \<Rightarrow> string" where
  "exportProjectName E chatFile =
     (let parts = split CHR ''/'' (basename E chatFile []);
          picked = (if 2 \<le> length parts then Some (parts ! (length parts - 2)) else None)
      in if truthy picked then or_empty picked else ''Chat'')"

definition documentHead :: "env \<Rightarrow> string \<Rightarrow> string list \<Rightarrow> app_cli_options \<Rightarrow> node list" where
  "documentHead E title chatFiles options =
     u_props_par ''heading'' [(''depth'', PNum 1)] [u_lit ''text'' title] #
     (case chatFiles of
        first # _ # _ \<Rightarrow>
          createMetadataTableNodes
            (createExportMetadata E (exportProjectName E first) chatFiles options)
          @ [u_leaf ''thematicBreak'']
      | _ \<Rightarrow> [])"

definition documentNodesOf ::
  "env \<Rightarrow> fs \<Rightarrow> string \<Rightarrow> string list \<Rightarrow> app_cli_options \<Rightarrow> node list" where
  "documentNodesOf E files title chatFiles options =
     chatLoop E files (documentHead E title chatFiles options)
       (sortChatFilesByTime E files chatFiles)"

definition buildMarkdownDocument ::
  "env \<Rightarrow> fs \<Rightarrow> string \<Rightarrow> string list \<Rightarrow> app_cli_options \<Rightarrow> string" where
  "buildMarkdownDocument E files title chatFiles options =
     stringifyMarkdown E (documentNodesOf E files title chatFiles options)"


section \<open>Notions used in the statements\<close>

text \<open>The node types that \<open>nodeToElement\<close> has a case for.\<close>

definition supported :: "string \<Rightarrow> bool" where
  "supported t = (t = ''text'' \<or> t = ''strong'' \<or> t = ''code'' \<or> t = ''inlineCode''
     \<or> t = ''link'')"

text \<open>A node built only from supported types: the node and all its descendants.\<close>

fun all_supported :: "node \<Rightarrow> bool" where
  "all_supported (Node t ps v cs) =
     (supported t \<and> (case cs of None \<Rightarrow> True | Some ch \<Rightarrow> list_all all_supported ch))"


text \<open>
  A record survives the second pass of \<open>mergeToolResults\<close> unless it is a user message of
  blocks that are all tool results.
\<close>

definition survives :: "chat_entry \<Rightarrow> bool" where
  "survives entry = (case user_blocks entry of None \<Rightarrow> True | Some bs \<Rightarrow> hasNonToolResult bs)"

text \<open>The annotation of the second pass: \<open>{ ...entry, toolResults }\<close> on an assistant message.\<close>

definition annotate :: "(string \<rightharpoonup> string) \<Rightarrow> chat_entry \<Rightarrow> chat_entry" where
  "annotate results entry =
     (case entry of
        ChatMessage m \<Rightarrow>
          if mtype m = Assistant then ChatMessage (m\<lparr>toolResults := Some results\<rparr>) else entry
      | _ \<Rightarrow> entry)"

text \<open>The blocks that the first pass scans, in order.\<close>

definition scanned_blocks :: "chat_entry list \<Rightarrow> any_input content_block list" where
  "scanned_blocks entries =
     concat (map (\<lambda>entry. case user_blocks entry of None \<Rightarrow> [] | Some bs \<Rightarrow> bs) entries)"

text \<open>The payload of the last recordable block with the given id, if there is one.\<close>

definition last_payload :: "env \<Rightarrow> string \<Rightarrow> 'i content_block list \<Rightarrow> string option" where
  "last_payload E k blocks =
     (case rev (filter (\<lambda>b. recordable b \<and> or_empty (btool_use_id b) = k) blocks) of
        [] \<Rightarrow> None
      | b # _ \<Rightarrow> Some (payload E b))"

text \<open>An entry none of whose scanned blocks is recorded in the index.\<close>

definition records_nothing :: "chat_entry \<Rightarrow> bool" where
  "records_nothing entry =
     (case user_blocks entry of None \<Rightarrow> True | Some bs \<Rightarrow> list_all (\<lambda>b. \<not> recordable b) bs)"


text \<open>A line that yields no start time: it does not decode, or to a record without timestamp.\<close>

definition no_timestamp :: "env \<Rightarrow> string \<Rightarrow> bool" where
  "no_timestamp E line =
     (case decode_line E line of None \<Rightarrow> True | Some entry \<Rightarrow> entry_timestamp entry = None)"

text \<open>The start time of a chat file in milliseconds, when it is a valid date.\<close>

definition startMillis :: "env \<Rightarrow> fs \<Rightarrow> string \<Rightarrow> int" where
  "startMillis E files chatFile =
     (case getChatStartTime E files chatFile of None \<Rightarrow> 0 | Some t \<Rightarrow> t)"

text \<open>A comparator that orders the elements of a set as a key does.\<close>

definition agrees :: "('a \<Rightarrow> 'a \<Rightarrow> int option) \<Rightarrow> ('a \<Rightarrow> int) \<Rightarrow> 'a set \<Rightarrow> bool" where
  "agrees cmp key S = (\<forall>a\<in>S. \<forall>b\<in>S. negative (cmp a b) = (key a < key b))"

definition pair_millis :: "string \<times> date \<Rightarrow> int" where
  "pair_millis p = (case snd p of None \<Rightarrow> 0 | Some t \<Rightarrow> t)"

text \<open>Whether rendering an entry returns, and the nodes it returns.\<close>

definition renders :: "env \<Rightarrow> chat_entry \<Rightarrow> bool" where
  "renders E entry = (case createChatEntryNodes E entry of Inl _ \<Rightarrow> False | Inr _ \<Rightarrow> True)"

definition entryNodes :: "env \<Rightarrow> chat_entry \<Rightarrow> node list" where
  "entryNodes E entry = (case createChatEntryNodes E entry of Inl _ \<Rightarrow> [] | Inr ns \<Rightarrow> ns)"

text \<open>
  The reconciled entries of a chat file with the given text, and the nodes of its metadata
  table.
\<close>

definition chatEntries :: "env \<Rightarrow> string \<Rightarrow> chat_entry list" where
  "chatEntries E content = mergeToolResults E (parseLines E (file_lines content))"

definition chatMetadataNodes :: "env \<Rightarrow> string \<Rightarrow> node list" where
  "chatMetadataNodes E content =
     createMetadataTableNodes
       (formatTime E ''End Time''
          (formatTime E ''Start Time'' (extractChatMetadata E (parseLines E (file_lines content)))))"

text \<open>
  The part of the document that one chat file contributes, from what reading the file
  gives: the heading, what the \<open>try\<close> pushed, the error paragraph if it threw, the
  thematic break.
\<close>

definition sectionOf :: "env \<Rightarrow> error + string \<Rightarrow> string \<Rightarrow> node list" where
  "sectionOf E read chatFile =
     (let (pushed, thrown) = processChat E (\<lambda>path. read) chatFile []
      in chatHeading E chatFile # pushed
         @ (case thrown of None \<Rightarrow> [] | Some e \<Rightarrow> [errorParagraph e])
         @ [u_leaf ''thematicBreak''])"


section \<open>A sample environment and sample inputs\<close>

text \<open>
  Concrete stand-ins for the external collaborators, to evaluate the definitions on
  examples: the serialiser lists the node types, the parser makes one paragraph, and a
  timestamp of digits is a valid date. A line \<open>u<timestamp>\<close> decodes to a user message, a
  line \<open>s\<close> to a summary, a line \<open>w<timestamp>\<close> to an assistant message that calls
  TodoWrite with the string "x" for \<open>todos\<close>, and a line \<open>g<timestamp>\<close> to an assistant
  message that calls Glob with the object \<open>{"type": "heading"}\<close> for \<open>pattern\<close>.
\<close>

fun dom_html :: "dom \<Rightarrow> string" where
  "dom_html (DText s) = s"
| "dom_html (DElement tag attrs children) =
     ''<'' @ tag @ ''>'' @ concat (map dom_html children) @ ''</'' @ tag @ ''>''"

fun read_nat :: "nat \<Rightarrow> string \<Rightarrow> nat option" where
  "read_nat acc [] = Some acc"
| "read_nat acc (c # cs) =
     (if 48 \<le> (of_char c :: nat) \<and> (of_char c :: nat) \<le> 57
      then read_nat (10 * acc + (of_char c - 48)) cs
      else None)"

definition sample_message :: "entry_type \<Rightarrow> message_content \<Rightarrow> string \<Rightarrow> chat_message" where
  "sample_message t c ts = \<lparr>mtype = t, mcontent = c, muuid = ''id'', mtimestamp = ts,
     msessionId = ''session'', toolResults = None\<rparr>"

text \<open>A tool_use block with an input at its types, and one as decoded; a tool_result block.\<close>

definition tool_use :: "string \<Rightarrow> string \<Rightarrow> tool_input option \<Rightarrow> tool_input content_block" where
  "tool_use i name inp = \<lparr>btype = BToolUse, btext = None, bthinking = None, bsignature = None,
     bid = Some i, bname = Some name, binput = inp, btool_use_id = None, bcontent = None\<rparr>"

definition tool_call :: "string \<Rightarrow> string \<Rightarrow> any_input option \<Rightarrow> any_input content_block" where
  "tool_call i name inp = \<lparr>btype = BToolUse, btext = None, bthinking = None, bsignature = None,
     bid = Some i, bname = Some name, binput = inp, btool_use_id = None, bcontent = None\<rparr>"

definition tool_result :: "string \<Rightarrow> result_content option \<Rightarrow> any_input content_block" where
  "tool_result i c = \<lparr>btype = BToolResult, btext = None, bthinking = None, bsignature = None,
     bid = None, bname = None, binput = None, btool_use_id = Some i, bcontent = c\<rparr>"

definition no_fields :: any_input where
  "no_fields = \<lparr>any_todos = None, any_file_path = None, any_edits = None, any_command = None,
     any_pattern = None, any_others = []\<rparr>"

definition todos_text :: "any_input content_block" where
  "todos_text = tool_call ''t1'' ''TodoWrite'' (Some (no_fields\<lparr>any_todos := Some (TodosText ''x'')\<rparr>))"

definition pattern_object :: "any_input content_block" where
  "pattern_object =
     tool_call ''t3'' ''Glob'' (Some (no_fields\<lparr>any_pattern := Some (PatternNode (u_leaf ''heading''))\<rparr>))"

definition sample_decode :: "string \<Rightarrow> chat_entry option" where
  "sample_decode line =
     (case line of
        [] \<Rightarrow> None
      | c # rest \<Rightarrow>
          if c = CHR ''u'' then Some (ChatMessage (sample_message User (CString ''hello'') rest))
          else if c = CHR ''s'' then
            Some (SummaryMessage \<lparr>sm_summary = rest, sm_leafUuid = ''leaf''\<rparr>)
          else if c = CHR ''w'' then
            Some (ChatMessage (sample_message Assistant (CBlocks [todos_text]) rest))
          else if c = CHR ''g'' then
            Some (ChatMessage (sample_message Assistant (CBlocks [pattern_object]) rest))
          else None)"

definition sample_env :: env where
  "sample_env = \<lparr>
     md_stringify = (\<lambda>nodes. join '' '' (map ntype nodes)),
     md_parse = (\<lambda>text. [u_par ''paragraph'' [u_lit ''text'' text]]),
     inner_html = (\<lambda>ds. concat (map dom_html ds)),
     json_stringify_input = (\<lambda>i. ''{}''),
     json_stringify_any = (\<lambda>i. ''{}''),
     json_stringify = (\<lambda>js. ''[]''),
     not_a_function = (\<lambda>member. member @ '' is not a function''),
     decode_line = sample_decode,
     date_time = (\<lambda>ts. if ts = [] then None else map_option int (read_nat 0 ts)),
     basename = (\<lambda>path suffix. path),
     formatTimestamp = (\<lambda>ts. ts),
     extractChatMetadata = (\<lambda>entries. []),
     current_time = ''0''\<rparr>"

text \<open>An assistant message that calls a tool, and a user message that holds only its result.\<close>

definition asks :: "string \<Rightarrow> string \<Rightarrow> chat_message" where
  "asks i name = sample_message Assistant (CBlocks [tool_call i name None]) ''1''"

definition answers :: "(string \<times> string) list \<Rightarrow> chat_message" where
  "answers rs =
     sample_message User (CBlocks (map (\<lambda>(i, r). tool_result i (Some (RStr r))) rs)) ''2''"

text \<open>
  Chat files: one that starts at 5 ms, one whose first timestamp is no date, an empty
  one, one whose second record calls TodoWrite with a string for \<open>todos\<close>, one whose record
  calls Glob with an object for \<open>pattern\<close>; every other path cannot be read.
\<close>

definition three_lines :: string where
  "three_lines = ''u5'' @ nl @ ''w6'' @ nl @ ''u7''"

definition sample_files :: fs where
  "sample_files path =
     (if path = ''a.jsonl'' then Inr ''u5''
      else if path = ''n.jsonl'' then Inr ''ugarbage''
      else if path = ''z.jsonl'' then Inr []
      else if path = ''w.jsonl'' then Inr three_lines
      else if path = ''g.jsonl'' then Inr ''g1''
      else Inl (Error ''No such file''))"

text \<open>The user message of a line \<open>u<timestamp>\<close>, and the nodes it renders to.\<close>

definition hello :: "string \<Rightarrow> chat_entry" where
  "hello ts = ChatMessage (sample_message User (CString ''hello'') ts)"

definition hello_nodes :: "string \<Rightarrow> node list" where
  "hello_nodes ts =
     [u_props_par ''heading'' [(''depth'', PNum 3)] [u_lit ''text'' ts],
      u_par ''blockquote'' [u_par ''paragraph'' [u_lit ''text'' ''hello'']]]"

text \<open>The assistant message of a line \<open>w<timestamp>\<close> or \<open>g<timestamp>\<close>, reconciled.\<close>

definition calls :: "any_input content_block \<Rightarrow> string \<Rightarrow> chat_entry" where
  "calls block ts =
     ChatMessage ((sample_message Assistant (CBlocks [block]) ts)\<lparr>toolResults := Some Map.empty\<rparr>)"

definition no_options :: app_cli_options where
  "no_options = \<lparr>opt_project = None, opt_output = None, opt_chats = None, opt_help = None,
     opt_currentProject = None\<rparr>"

definition par :: "string \<Rightarrow> node" where
  "par s = u_par ''paragraph'' [u_lit ''text'' s]"

definition heading :: "string \<Rightarrow> node" where
  "heading s = u_props_par ''heading'' [(''depth'', PNum 2)] [u_lit ''text'' s]"


section \<open>Properties of the collapsing engine\<close>

lemma walk_Nil: "walk [] = walk_init"
  by (simp add: walk_def)

lemma walk_snoc: "walk (ns @ [n]) = walk_step (walk ns) n"
  by (simp add: walk_def)

lemma walk_step_collapsed:
  "shouldCollapse s \<Longrightarrow> walk_step s n = s\<lparr>collapsedNodes := collapsedNodes s @ [n]\<rparr>"
  by (simp add: walk_step_def)

text \<open>Collapsed mode never reverts: the rest of the list is appended to the collapsed nodes.\<close>

lemma foldl_walk_collapsed:
  "shouldCollapse s \<Longrightarrow> foldl walk_step s ns = s\<lparr>collapsedNodes := collapsedNodes s @ ns\<rparr>"
  by (induction ns arbitrary: s) (simp_all add: walk_step_collapsed)

lemma walk_step_heading:
  "ntype h = ''heading'' \<Longrightarrow>
   walk_step s h = s\<lparr>shouldCollapse := True, collapsedNodes := collapsedNodes s @ [h]\<rparr>"
  by (simp add: walk_step_def)

lemma walk_heading:
  assumes "ntype h = ''heading''"
  shows "walk (pre @ h # post) =
    (walk pre)\<lparr>shouldCollapse := True, collapsedNodes := collapsedNodes (walk pre) @ h # post\<rparr>"
proof -
  let ?s = "walk_step (walk pre) h"
  have "walk (pre @ h # post) = foldl walk_step ?s post"
    by (simp add: walk_def)
  also have "\<dots> = ?s\<lparr>collapsedNodes := collapsedNodes ?s @ post\<rparr>"
    by (rule foldl_walk_collapsed) (simp add: walk_step_heading assms)
  finally show ?thesis
    by (simp add: walk_step_heading assms)
qed

lemma walk_step_visible_no_heading:
  "\<forall>n\<in>set (visibleNodes s). ntype n \<noteq> ''heading'' \<Longrightarrow>
   \<forall>n\<in>set (visibleNodes (walk_step s x)). ntype n \<noteq> ''heading''"
  by (auto simp: walk_step_def Let_def)

lemma walk_visible_no_heading: "\<forall>n\<in>set (visibleNodes (walk ns)). ntype n \<noteq> ''heading''"
proof (induction ns rule: rev_induct)
  case Nil
  then show ?case by (simp add: walk_Nil walk_init_def)
next
  case (snoc x xs)
  then show ?case unfolding walk_snoc by (rule walk_step_visible_no_heading)
qed

lemma ntype_u_lit [simp]: "ntype (u_lit t v) = t"
  by (simp add: u_lit_def)

lemma unistToHtml_More:
  "unistToHtml E [u_lit ''text'' ''More...''] = Inr (inner_html E [DText ''More...''])"
  by (simp add: unistToHtml_def u_lit_def)

text \<open>The output is the visible list followed by at most one raw HTML node.\<close>

lemma processAssistantContent_shape:
  "\<exists>w. processAssistantContent E ns = Inr (visibleNodes (walk ns) @ w) \<and>
       (\<forall>n\<in>set w. ntype n = ''html'')"
  by (simp add: processAssistantContent_def Let_def createDetailsBlock_def unistToHtml_More
      walk_Nil walk_init_def)

text \<open>While the walk has not collapsed, the counter is the number of paragraphs seen.\<close>

lemma walk_open_count:
  "\<not> shouldCollapse (walk ns) \<Longrightarrow>
   paragraphCount (walk ns) = length (filter (\<lambda>n. ntype n = ''paragraph'') ns)"
proof (induction ns rule: rev_induct)
  case Nil
  then show ?case by (simp add: walk_Nil walk_init_def)
next
  case (snoc x xs)
  then show ?case
    by (simp add: walk_snoc walk_step_def Let_def split: if_splits)
qed

lemma walk_quiet_prefix:
  "\<forall>n\<in>set pre. ntype n \<noteq> ''heading'' \<Longrightarrow>
   length (filter (\<lambda>n. ntype n = ''paragraph'') pre) < 3 \<Longrightarrow>
   walk pre = \<lparr>visibleNodes = pre, collapsedNodes = [],
     paragraphCount = length (filter (\<lambda>n. ntype n = ''paragraph'') pre),
     shouldCollapse = False\<rparr>"
proof (induction pre rule: rev_induct)
  case Nil
  then show ?case by (simp add: walk_Nil walk_init_def)
next
  case (snoc x xs)
  then show ?case
    by (simp add: walk_snoc walk_step_def Let_def split: if_splits)
qed

lemma foldl_walk_visible_prefix:
  "prefix (visibleNodes s) (visibleNodes (foldl walk_step s ns))"
proof (induction ns arbitrary: s)
  case Nil
  then show ?case by simp
next
  case (Cons n ns)
  have "prefix (visibleNodes s) (visibleNodes (walk_step s n))"
    by (simp add: walk_step_def Let_def)
  with Cons show ?case
    using prefix_order.trans by fastforce
qed

lemma walk_fourth_paragraph:
  assumes "ntype n = ''paragraph''"
    and "3 \<le> length (filter (\<lambda>n. ntype n = ''paragraph'') pre)"
  shows "visibleNodes (walk (pre @ n # post)) = visibleNodes (walk pre) \<and>
         collapsedNodes (walk (pre @ n # post)) = collapsedNodes (walk pre) @ n # post"
proof -
  let ?s = "walk_step (walk pre) n"
  have step: "shouldCollapse ?s \<and> visibleNodes ?s = visibleNodes (walk pre) \<and>
      collapsedNodes ?s = collapsedNodes (walk pre) @ [n]"
  proof (cases "shouldCollapse (walk pre)")
    case True
    then show ?thesis by (simp add: walk_step_def)
  next
    case False
    from walk_open_count [OF this] assms show ?thesis
      by (simp add: walk_step_def Let_def)
  qed
  have "walk (pre @ n # post) = foldl walk_step ?s post"
    by (simp add: walk_def)
  also have "\<dots> = ?s\<lparr>collapsedNodes := collapsedNodes ?s @ post\<rparr>"
    by (rule foldl_walk_collapsed) (simp add: step)
  finally show ?thesis
    by (simp add: step)
qed

lemma walk_early_node:
  assumes "\<forall>m\<in>set pre. ntype m \<noteq> ''heading''"
    and "length (filter (\<lambda>m. ntype m = ''paragraph'') pre) < 3"
    and "ntype n \<noteq> ''heading''"
  shows "visibleNodes (walk (pre @ [n])) = pre @ [n] \<and> collapsedNodes (walk (pre @ [n])) = [] \<and>
         prefix (pre @ [n]) (visibleNodes (walk (pre @ n # post)))"
proof -
  have pre: "walk pre = \<lparr>visibleNodes = pre, collapsedNodes = [],
     paragraphCount = length (filter (\<lambda>n. ntype n = ''paragraph'') pre),
     shouldCollapse = False\<rparr>"
    using assms(1,2) by (rule walk_quiet_prefix)
  have one: "visibleNodes (walk (pre @ [n])) = pre @ [n] \<and> collapsedNodes (walk (pre @ [n])) = []"
    using assms(2,3) by (simp add: walk_snoc pre walk_step_def Let_def)
  have "walk (pre @ n # post) = foldl walk_step (walk (pre @ [n])) post"
    by (simp add: walk_def)
  with foldl_walk_visible_prefix [of "walk (pre @ [n])" post] one show ?thesis
    by simp
qed

lemma five_paragraphs:
  assumes "ntype p1 = ''paragraph''" "ntype p2 = ''paragraph''" "ntype p3 = ''paragraph''"
    "ntype p4 = ''paragraph''" "ntype p5 = ''paragraph''"
  shows "processAssistantContent E [p1, p2, p3, p4, p5] =
    Inr [p1, p2, p3,
         u_lit ''html'' (detailsHtml (inner_html E [DText ''More...'']) (md_stringify E [p4, p5]))]"
proof -
  have w: "walk [p1, p2, p3, p4, p5] = \<lparr>visibleNodes = [p1, p2, p3], collapsedNodes = [p4, p5],
     paragraphCount = 4, shouldCollapse = True\<rparr>"
    using assms by (simp add: walk_def walk_init_def walk_step_def Let_def)
  have h: "\<not> hasDetailsBlocks [p4, p5]"
    using assms by (simp add: hasDetailsBlocks_def)
  show ?thesis
    by (simp add: processAssistantContent_def w h createDetailsBlock_def unistToHtml_More
        stringifyMarkdown_def)
qed

text \<open>
  C1. A heading switches the walk into collapsed mode for good: whatever precedes it, the
  heading and every node after it are appended to the collapsed list and the visible list
  stays as it was before the heading. So no node of the visible list is a heading, and the
  output, the visible list followed by raw HTML nodes only, has no heading at its top level.
  For [paragraph, heading, paragraph] the visible list is [paragraph] and the collapsed list
  is [heading, paragraph].
\<close>

theorem heading_forces_collapse:
  "(ntype h = ''heading'' \<longrightarrow>
      visibleNodes (walk (pre @ h # post)) = visibleNodes (walk pre) \<and>
      collapsedNodes (walk (pre @ h # post)) = collapsedNodes (walk pre) @ h # post) \<and>
   (\<forall>n\<in>set (visibleNodes (walk ns)). ntype n \<noteq> ''heading'') \<and>
   (\<exists>w. processAssistantContent E ns = Inr (visibleNodes (walk ns) @ w) \<and>
        (\<forall>n\<in>set w. ntype n = ''html'')) \<and>
   (ntype p = ''paragraph'' \<and> ntype h = ''heading'' \<and> ntype q = ''paragraph'' \<longrightarrow>
      visibleNodes (walk [p, h, q]) = [p] \<and> collapsedNodes (walk [p, h, q]) = [h, q])"
proof (intro conjI impI)
  assume h: "ntype h = ''heading''"
  show "visibleNodes (walk (pre @ h # post)) = visibleNodes (walk pre)"
    by (simp add: walk_heading [OF h])
  show "collapsedNodes (walk (pre @ h # post)) = collapsedNodes (walk pre) @ h # post"
    by (simp add: walk_heading [OF h])
next
  show "\<forall>n\<in>set (visibleNodes (walk ns)). ntype n \<noteq> ''heading''"
    by (rule walk_visible_no_heading)
next
  show "\<exists>w. processAssistantContent E ns = Inr (visibleNodes (walk ns) @ w) \<and>
        (\<forall>n\<in>set w. ntype n = ''html'')"
    by (rule processAssistantContent_shape)
next
  assume a: "ntype p = ''paragraph'' \<and> ntype h = ''heading'' \<and> ntype q = ''paragraph''"
  then have h: "ntype h = ''heading''" by simp
  have p: "walk [p] = \<lparr>visibleNodes = [p], collapsedNodes = [], paragraphCount = 1,
      shouldCollapse = False\<rparr>"
    using a by (simp add: walk_def walk_init_def walk_step_def Let_def)
  from walk_heading [OF h, of "[p]" "[q]"] p
  show "visibleNodes (walk [p, h, q]) = [p]" and "collapsedNodes (walk [p, h, q]) = [h, q]"
    by simp_all
qed

theorem heading_forces_collapse_witness:
  "ntype (heading ''Title'') = ''heading'' \<and> ntype (par ''a'') = ''paragraph'' \<and>
   visibleNodes (walk [par ''a'', heading ''Title'', par ''b'']) = [par ''a''] \<and>
   collapsedNodes (walk [par ''a'', heading ''Title'', par ''b'']) =
     [heading ''Title'', par ''b'']"
proof -
  have t: "ntype (heading ''Title'') = ''heading''" "ntype (par ''a'') = ''paragraph''"
    "ntype (par ''b'') = ''paragraph''"
    by (simp_all add: heading_def par_def u_par_def u_props_par_def)
  from t heading_forces_collapse
    [of "heading ''Title''" "[par ''a'']" "[par ''b'']"
        "[par ''a'', heading ''Title'', par ''b'']" sample_env "par ''a''" "par ''b''"]
  show ?thesis by blast
qed

text \<open>
  C2 as stated fails after a heading: in [heading, paragraph] the first paragraph of the
  list is collapsed, not visible.
\<close>

theorem collapsing_threshold_counterexample:
  "visibleNodes (walk [heading ''Title'', par ''first'']) = [] \<and>
   collapsedNodes (walk [heading ''Title'', par ''first'']) = [heading ''Title'', par ''first'']"
  by (simp add: walk_def walk_init_def walk_step_def Let_def heading_def par_def u_par_def
      u_props_par_def)

text \<open>
  C2, amended. Five paragraphs and nothing else give the first three, in order, followed by
  one details block whose summary is the text "More..." and whose content is the last two.
  In general, as long as no heading has occurred before it, each of the first three
  paragraphs and each node that is neither a paragraph nor a heading and comes before the
  third paragraph has been emitted is appended to the visible list, and nothing is
  collapsed up to there; and, heading or not, the fourth paragraph and every node after it
  are appended to the collapsed list.
\<close>

theorem collapsing_threshold:
  "(ntype p1 = ''paragraph'' \<and> ntype p2 = ''paragraph'' \<and> ntype p3 = ''paragraph'' \<and>
    ntype p4 = ''paragraph'' \<and> ntype p5 = ''paragraph'' \<longrightarrow>
      processAssistantContent E [p1, p2, p3, p4, p5] =
        Inr [p1, p2, p3,
             u_lit ''html''
               (detailsHtml (inner_html E [DText ''More...'']) (md_stringify E [p4, p5]))]) \<and>
   ((\<forall>m\<in>set pre. ntype m \<noteq> ''heading'') \<and>
    length (filter (\<lambda>m. ntype m = ''paragraph'') pre) < 3 \<and> ntype n \<noteq> ''heading'' \<longrightarrow>
      visibleNodes (walk (pre @ [n])) = pre @ [n] \<and> collapsedNodes (walk (pre @ [n])) = [] \<and>
      prefix (pre @ [n]) (visibleNodes (walk (pre @ n # post)))) \<and>
   (ntype n = ''paragraph'' \<and> 3 \<le> length (filter (\<lambda>m. ntype m = ''paragraph'') pre) \<longrightarrow>
      visibleNodes (walk (pre @ n # post)) = visibleNodes (walk pre) \<and>
      collapsedNodes (walk (pre @ n # post)) = collapsedNodes (walk pre) @ n # post)"
  using five_paragraphs [of p1 p2 p3 p4 p5 E] walk_early_node [of pre n post]
    walk_fourth_paragraph [of n pre post]
  by blast

theorem collapsing_threshold_witness:
  "ntype (par ''a'') = ''paragraph'' \<and>
   processAssistantContent sample_env [par ''a'', par ''a'', par ''a'', par ''a'', par ''a''] =
     Inr [par ''a'', par ''a'', par ''a'',
          u_lit ''html'' (detailsHtml (inner_html sample_env [DText ''More...''])
            (md_stringify sample_env [par ''a'', par ''a'']))] \<and>
   visibleNodes (walk ([u_lit ''html'' ''x'', par ''a''] @ [par ''a''])) =
     [u_lit ''html'' ''x'', par ''a''] @ [par ''a''] \<and>
   collapsedNodes (walk ([par ''a'', par ''a'', par ''a''] @ par ''a'' # [u_lit ''html'' ''x''])) =
     collapsedNodes (walk [par ''a'', par ''a'', par ''a'']) @ par ''a'' # [u_lit ''html'' ''x'']"
proof -
  have t: "ntype (par ''a'') = ''paragraph''"
    by (simp add: par_def u_par_def)
  have early: "(\<forall>m\<in>set [u_lit ''html'' ''x'', par ''a'']. ntype m \<noteq> ''heading'') \<and>
      length (filter (\<lambda>m. ntype m = ''paragraph'') [u_lit ''html'' ''x'', par ''a'']) < 3 \<and>
      ntype (par ''a'') \<noteq> ''heading''"
    by (simp add: t)
  have late: "ntype (par ''a'') = ''paragraph'' \<and>
      3 \<le> length (filter (\<lambda>m. ntype m = ''paragraph'') [par ''a'', par ''a'', par ''a''])"
    by (simp add: t)
  from t early
    collapsing_threshold [of "par ''a''" "par ''a''" "par ''a''" "par ''a''" "par ''a''"
      sample_env "[u_lit ''html'' ''x'', par ''a'']" "par ''a''" "[]"]
  have a: "processAssistantContent sample_env
        [par ''a'', par ''a'', par ''a'', par ''a'', par ''a''] =
      Inr [par ''a'', par ''a'', par ''a'',
          u_lit ''html'' (detailsHtml (inner_html sample_env [DText ''More...''])
            (md_stringify sample_env [par ''a'', par ''a'']))]"
    and b: "visibleNodes (walk ([u_lit ''html'' ''x'', par ''a''] @ [par ''a''])) =
     [u_lit ''html'' ''x'', par ''a''] @ [par ''a'']"
    by blast+
  from late
    collapsing_threshold [of "par ''a''" "par ''a''" "par ''a''" "par ''a''" "par ''a''"
      sample_env "[par ''a'', par ''a'', par ''a'']" "par ''a''" "[u_lit ''html'' ''x'']"]
  have c: "collapsedNodes (walk ([par ''a'', par ''a'', par ''a''] @ par ''a'' # [u_lit ''html'' ''x''])) =
     collapsedNodes (walk [par ''a'', par ''a'', par ''a'']) @ par ''a'' # [u_lit ''html'' ''x'']"
    by blast
  from t a b c show ?thesis by blast
qed


section \<open>Properties of inline rendering and of the tool-use renderer\<close>

lemma nodeToElement_unsupported:
  "\<not> supported (ntype n) \<Longrightarrow>
   nodeToElement n = Inl (Error (''Unsupported unist node type: '' @ ntype n))"
  by (cases n) (simp add: supported_def)

lemma supported_cases:
  obtains (Text) "t = ''text''" | (Strong) "t = ''strong''" | (Code) "t = ''code''"
    | (InlineCode) "t = ''inlineCode''" | (Link) "t = ''link''" | (Other) "\<not> supported t"
  unfolding supported_def by blast

lemma nodeToElement_text:
  "nodeToElement (Node ''text'' ps v cs) =
     (case v of Some s \<Rightarrow> Inr (Some (DText s)) | None \<Rightarrow> Inr None)"
  by simp

lemma nodeToElement_strong:
  "nodeToElement (Node ''strong'' ps v cs) =
     (case cs of
        Some ch \<Rightarrow>
          (case nodesToElements ch of
             Inl e \<Rightarrow> Inl e
           | Inr ds \<Rightarrow> Inr (Some (DElement ''strong'' [] ds)))
      | None \<Rightarrow> Inr (Some (DElement ''strong'' [] (textContent v))))"
  by simp

lemma nodeToElement_code:
  "nodeToElement (Node ''code'' ps v cs) = Inr (Some (DElement ''pre'' [] (textContent v)))"
  by simp

lemma nodeToElement_inlineCode:
  "nodeToElement (Node ''inlineCode'' ps v cs) =
     Inr (Some (DElement ''code'' [] (textContent v)))"
  by simp

lemma nodeToElement_link:
  "nodeToElement (Node ''link'' ps v cs) =
     (let attrs = (case map_of ps ''url'' of Some (PStr url) \<Rightarrow> [(''href'', url)] | _ \<Rightarrow> [])
      in case cs of
           Some ch \<Rightarrow>
             (case nodesToElements ch of
                Inl e \<Rightarrow> Inl e
              | Inr ds \<Rightarrow> Inr (Some (DElement ''a'' attrs ds)))
         | None \<Rightarrow> Inr (Some (DElement ''a'' attrs (textContent v))))"
  by simp

lemma conversion_errors:
  "nodeToElement n = Inl e \<Longrightarrow>
     \<exists>t. \<not> supported t \<and> e = Error (''Unsupported unist node type: '' @ t)"
  "nodesToElements ns = Inl e \<Longrightarrow>
     \<exists>t. \<not> supported t \<and> e = Error (''Unsupported unist node type: '' @ t)"
proof (induction n and ns arbitrary: e and e rule: nodeToElement_nodesToElements.induct)
  case (1 t ps v cs)
  show ?case
  proof (cases t rule: supported_cases)
    case Text
    with "1.prems" show ?thesis
      by (simp only: nodeToElement_text split: option.splits) simp_all
  next
    case Strong
    with "1.prems" "1.IH"(1) show ?thesis
      by (simp only: nodeToElement_strong) (auto split: option.splits sum.splits)
  next
    case Code
    with "1.prems" show ?thesis by (simp only: nodeToElement_code) simp
  next
    case InlineCode
    with "1.prems" show ?thesis by (simp only: nodeToElement_inlineCode) simp
  next
    case Link
    with "1.prems" "1.IH"(2) show ?thesis
      by (simp only: nodeToElement_link Let_def) (auto split: option.splits sum.splits)
  next
    case Other
    with "1.prems" nodeToElement_unsupported [of "Node t ps v cs"] show ?thesis
      by auto
  qed
next
  case 2
  then show ?case by simp
next
  case (3 n ns)
  from "3.prems" show ?case
    by (auto split: sum.splits dest: "3.IH"(1) "3.IH"(2))
qed

lemma nodesToElements_throws:
  "n \<in> set ns \<Longrightarrow> \<not> supported (ntype n) \<Longrightarrow> \<exists>e. nodesToElements ns = Inl e"
proof (induction ns)
  case Nil
  then show ?case by simp
next
  case (Cons m ms)
  show ?case
  proof (cases "nodeToElement m")
    case (Inl e)
    then show ?thesis by simp
  next
    case (Inr el)
    with Cons.prems nodeToElement_unsupported [of m] have "n \<in> set ms" by auto
    with Cons obtain e where "nodesToElements ms = Inl e" by blast
    with Inr show ?thesis by simp
  qed
qed

lemma conversion_succeeds:
  "all_supported n \<Longrightarrow> \<exists>el. nodeToElement n = Inr el"
  "list_all all_supported ns \<Longrightarrow> \<exists>ds. nodesToElements ns = Inr ds"
proof (induction n and ns rule: nodeToElement_nodesToElements.induct)
  case (1 t ps v cs)
  from "1.prems" have sup: "supported t"
    and ch: "\<And>ch. cs = Some ch \<Longrightarrow> list_all all_supported ch"
    by simp_all
  show ?case
  proof (cases t rule: supported_cases)
    case Text
    then show ?thesis by (simp only: nodeToElement_text split: option.splits) simp
  next
    case Strong
    show ?thesis
    proof (cases cs)
      case None
      with Strong show ?thesis by (simp only: nodeToElement_strong) simp
    next
      case (Some c)
      with Strong "1.IH"(1) [OF _ _ Some] ch [OF Some]
      obtain ds where "nodesToElements c = Inr ds" by auto
      with Strong Some show ?thesis by (simp only: nodeToElement_strong) simp
    qed
  next
    case Code
    then show ?thesis by (simp only: nodeToElement_code) simp
  next
    case InlineCode
    then show ?thesis by (simp only: nodeToElement_inlineCode) simp
  next
    case Link
    show ?thesis
    proof (cases cs)
      case None
      with Link show ?thesis by (simp only: nodeToElement_link Let_def) simp
    next
      case (Some c)
      with Link "1.IH"(2) [OF _ _ _ _ _ Some] ch [OF Some]
      obtain ds where "nodesToElements c = Inr ds" by auto
      with Link Some show ?thesis by (simp only: nodeToElement_link Let_def) simp
    qed
  next
    case Other
    with sup show ?thesis by simp
  qed
next
  case 2
  then show ?case by simp
next
  case (3 n ns)
  then show ?case by (auto split: sum.splits)
qed

lemma unistToHtml_supported:
  "list_all all_supported ns \<Longrightarrow>
   \<exists>ds. nodesToElements ns = Inr ds \<and> unistToHtml E ns = Inr (inner_html E ds)"
  using conversion_succeeds(2) [of ns] by (auto simp: unistToHtml_def)

lemma unistToHtml_throws:
  assumes "n \<in> set ns" and "\<not> supported (ntype n)"
  shows "\<exists>t. \<not> supported t \<and>
     unistToHtml E ns = Inl (Error (''Unsupported unist node type: '' @ t))"
proof -
  from nodesToElements_throws [OF assms] obtain e where e: "nodesToElements ns = Inl e" ..
  from conversion_errors(2) [OF e] e show ?thesis
    by (auto simp: unistToHtml_def)
qed

lemma createDetailsBlock_throws:
  "unistToHtml E summary = Inl e \<Longrightarrow> createDetailsBlock E summary body = Inl e"
  by (simp add: createDetailsBlock_def)

lemma createToolSummary_supported:
  "(case d of DNodes ds \<Rightarrow> list_all all_supported ds | _ \<Rightarrow> True) \<Longrightarrow>
   list_all all_supported (createToolSummary name d)"
  by (cases d) (simp_all add: createToolSummary_def u_lit_def u_par_def supported_def)

lemma createCodeNode_supported: "all_supported (createCodeNode c l)"
  by (simp add: createCodeNode_def u_lit_def u_props_lit_def supported_def)

lemma u_lit_supported: "supported t \<Longrightarrow> all_supported (u_lit t v)"
  by (simp add: u_lit_def)

lemma toolNodes_empty:
  "toolNameOf block \<noteq> ''TodoWrite'' \<Longrightarrow> snd (toolSummaryAndNodes E block) = []"
  by (simp add: toolSummaryAndNodes_def Let_def)

lemma text_inline_supported:
  "all_supported (u_lit ''text'' a)" "all_supported (u_lit ''inlineCode'' b)"
  by (simp_all add: u_lit_def supported_def)

lemma createToolSummary_supported_iff:
  "list_all all_supported (createToolSummary name NoDescription)"
  "list_all all_supported (createToolSummary name (DString s))"
  "list_all all_supported (createToolSummary name (DNodes ds)) = list_all all_supported ds"
  by (simp_all add: createToolSummary_def u_lit_def u_par_def supported_def)

lemma toolSummary_supported: "list_all all_supported (fst (toolSummaryAndNodes E block))"
  unfolding toolSummaryAndNodes_def Let_def
  by (simp add: createToolSummary_supported_iff text_inline_supported createCodeNode_supported
      split: option.splits)

lemma createToolUseNodes_eq:
  assumes "unistToHtml E (fst (toolSummaryAndNodes E block)) = Inr html"
  shows "createToolUseNodes E block result =
    Inr ((if parameterParts E block @ snd (resultParts (toolNameOf block) result) \<noteq> []
          then u_lit ''html'' (detailsHtml html
                 (md_stringify E
                    (parameterParts E block @ snd (resultParts (toolNameOf block) result))))
          else u_lit ''html'' html)
         # snd (toolSummaryAndNodes E block) @ fst (resultParts (toolNameOf block) result))"
proof -
  obtain summary nodes0 where s: "toolSummaryAndNodes E block = (summary, nodes0)"
    by (cases "toolSummaryAndNodes E block")
  obtain openParts hiddenParts where r: "resultParts (toolNameOf block) result = (openParts, hiddenParts)"
    by (cases "resultParts (toolNameOf block) result")
  from assms s have h: "unistToHtml E summary = Inr html" by simp
  show ?thesis
    by (simp add: createToolUseNodes_def Let_def s r h createDetailsBlock_def
        stringifyMarkdown_def)
qed

lemma createToolUseNodes_total:
  "\<exists>html. unistToHtml E (fst (toolSummaryAndNodes E block)) = Inr html"
  using unistToHtml_supported [OF toolSummary_supported, of E block E] by blast

lemma resultParts_present:
  "r \<noteq> [] \<Longrightarrow> resultParts name (Some r) =
     (if name = ''Write'' \<or> name = ''Edit'' then
        ([u_par ''paragraph''
            [u_lit ''text'' (clipboard @ '' ''), u_par ''strong'' [u_lit ''text'' ''Result:'']],
          u_props_lit ''code'' [(''lang'', PNull)] r], [])
      else if name = ''Read'' then
        ([], [u_par ''paragraph'' [u_par ''strong'' [u_lit ''text'' ''File Contents:'']],
              u_props_lit ''code'' [(''lang'', PNull)] r])
      else
        ([], [u_par ''paragraph'' [u_par ''strong'' [u_lit ''text'' ''Result:'']],
              u_props_lit ''code'' [(''lang'', PNull)] r]))"
  by (simp add: resultParts_def truthy_def or_empty_def)

lemma resultParts_absent: "resultParts name (Some []) = ([], [])" "resultParts name None = ([], [])"
  by (simp_all add: resultParts_def truthy_def)


lemma sample_summary:
  "unistToHtml sample_env (fst (toolSummaryAndNodes sample_env (tool_use ''t1'' ''Write'' None))) =
     Inr (wrench @ '' <strong>Write</strong>'')"
  "unistToHtml sample_env (fst (toolSummaryAndNodes sample_env (tool_use ''t1'' ''Read'' None))) =
     Inr (wrench @ '' <strong>Read</strong>'')"
  "unistToHtml sample_env (fst (toolSummaryAndNodes sample_env (tool_use ''t1'' ''Bash'' None))) =
     Inr (wrench @ '' <strong>Bash</strong>'')"
  by (simp_all add: toolSummaryAndNodes_def toolNameOf_def tool_use_def truthy_def or_empty_def
      input_field_def createToolSummary_def unistToHtml_def u_lit_def u_par_def sample_env_def)



text \<open>
  C8. The empty string as result gives the same output as no result: the label (the
  details block of the parameters, or the bare summary) and the nodes pushed with the
  summary, with no result section.
\<close>

theorem empty_result_is_absent:
  "createToolUseNodes E block (Some []) = createToolUseNodes E block None \<and>
   (\<exists>html. unistToHtml E (fst (toolSummaryAndNodes E block)) = Inr html \<and>
      createToolUseNodes E block None =
        Inr ((if parameterParts E block \<noteq> []
              then u_lit ''html'' (detailsHtml html (md_stringify E (parameterParts E block)))
              else u_lit ''html'' html)
             # snd (toolSummaryAndNodes E block)))"
proof -
  from createToolUseNodes_total obtain html
    where h: "unistToHtml E (fst (toolSummaryAndNodes E block)) = Inr html" ..
  show ?thesis
    using h by (auto simp: createToolUseNodes_eq [OF h] resultParts_absent)
qed

theorem empty_result_is_absent_witness:
  "createToolUseNodes sample_env (tool_use ''t1'' ''Write'' None) (Some []) =
     createToolUseNodes sample_env (tool_use ''t1'' ''Write'' None) None \<and>
   createToolUseNodes sample_env (tool_use ''t1'' ''Write'' None) None =
     Inr [u_lit ''html'' (wrench @ '' <strong>Write</strong>'')]"
proof -
  have p: "parameterParts sample_env (tool_use ''t1'' ''Write'' None) = []"
    by (simp add: parameterParts_def tool_use_def)
  have n: "snd (toolSummaryAndNodes sample_env (tool_use ''t1'' ''Write'' None)) = []"
    by (rule toolNodes_empty) (simp add: toolNameOf_def tool_use_def truthy_def or_empty_def)
  from empty_result_is_absent [of sample_env "tool_use ''t1'' ''Write'' None"]
  show ?thesis
    by (auto simp: n p sample_summary)
qed

text \<open>
  On a block whose input is at its types, \<open>createToolUseNodes\<close> on the block as decoded
  is \<open>createToolUseNodes\<close> on the block at its types, the serialiser being the same.
\<close>

lemma as_any_fields:
  "input_field any_todos (block_as_any block) = map_option Todos (input_field in_todos block)"
  "input_field any_file_path (block_as_any block) = map_option TextValue (input_field in_file_path block)"
  "input_field any_edits (block_as_any block) = input_field in_edits block"
  "input_field any_command (block_as_any block) = map_option TextValue (input_field in_command block)"
  "input_field any_pattern (block_as_any block) = map_option Pattern (input_field in_pattern block)"
  "toolNameOf (block_as_any block) = toolNameOf block"
  by (simp_all add: input_field_def block_as_any_def as_any_def toolNameOf_def split: option.splits)

lemma as_any_truthy:
  "truthy_todos (map_option Todos v) = (v \<noteq> None)"
  "truthy_text (map_option TextValue w) = truthy w"
  "truthy_pattern (map_option Pattern w) = truthy w"
  by (simp_all add: truthy_todos_def truthy_text_def truthy_pattern_def truthy_def split: option.splits)

lemma toolSummaryAndNodes_as_any:
  "toolSummaryAndNodes_any E (block_as_any block) = Inr (toolSummaryAndNodes E block)"
  unfolding toolSummaryAndNodes_any_def toolSummaryAndNodes_def Let_def as_any_fields as_any_truthy
  by (simp add: truthy_def or_empty_def inlineCodeOf_def split: option.splits)

lemma parameterParts_as_any:
  "(\<And>i. json_stringify_any E (as_any i) = json_stringify_input E i) \<Longrightarrow>
   parameterParts_any E (block_as_any block) = parameterParts E block"
  by (simp add: parameterParts_any_def parameterParts_def block_as_any_def keys_length_any_def
      keys_length_def as_any_def present_def split: option.splits)

lemma createToolUseNodes_as_any:
  assumes "\<And>i. json_stringify_any E (as_any i) = json_stringify_input E i"
  shows "createToolUseNodes_any E (block_as_any block) result = createToolUseNodes E block result"
  by (simp add: createToolUseNodes_any_def createToolUseNodes_def toolSummaryAndNodes_as_any
      parameterParts_as_any [OF assms] as_any_fields split: prod.splits)


section \<open>Properties of the tool-call reconciler\<close>

lemma secondPass_eq: "secondPass results entries = map (annotate results) (filter survives entries)"
  by (induction entries)
    (auto simp: survives_def annotate_def split: option.splits chat_entry.splits)

lemma user_blocks_annotate: "user_blocks (annotate results entry) = user_blocks entry"
  by (cases entry) (auto simp: annotate_def user_blocks_def)

lemma survives_annotate: "survives (annotate results entry) = survives entry"
  by (simp add: survives_def user_blocks_annotate)

lemma annotate_annotate: "annotate r (annotate r' entry) = annotate r entry"
  by (cases entry) (auto simp: annotate_def)

lemma filter_survives_annotate:
  "filter survives (map (annotate r) entries) = map (annotate r) (filter survives entries)"
  by (induction entries) (simp_all add: survives_annotate)

lemma scanned_blocks_annotate: "scanned_blocks (map (annotate r) entries) = scanned_blocks entries"
  by (simp add: scanned_blocks_def user_blocks_annotate comp_def)

lemma collect_entries_blocks:
  "foldl (collect_entry E) m entries = foldl (collect_block E) m (scanned_blocks entries)"
  by (induction entries arbitrary: m)
    (simp_all add: scanned_blocks_def collect_entry_def split: option.splits)

lemma collectToolResults_blocks:
  "collectToolResults E entries = foldl (collect_block E) Map.empty (scanned_blocks entries)"
  by (simp add: collectToolResults_def collect_entries_blocks)

lemma collect_blocks_lookup:
  "foldl (collect_block E) m blocks k =
     (case last_payload E k blocks of None \<Rightarrow> m k | Some p \<Rightarrow> Some p)"
proof (induction blocks rule: rev_induct)
  case Nil
  then show ?case by (simp add: last_payload_def)
next
  case (snoc b bs)
  then show ?case
    by (auto simp: last_payload_def collect_block_def split: list.splits)
qed

lemma collectToolResults_lookup:
  "collectToolResults E entries k = last_payload E k (scanned_blocks entries)"
  by (simp add: collectToolResults_blocks collect_blocks_lookup split: option.splits)

lemma mergeToolResults_eq:
  "mergeToolResults E entries = map (annotate (collectToolResults E entries)) (filter survives entries)"
  by (simp add: mergeToolResults_def secondPass_eq)

lemma mergeToolResults_twice:
  "mergeToolResults E (mergeToolResults E entries) =
     map (annotate (collectToolResults E (mergeToolResults E entries))) (filter survives entries)"
proof -
  let ?r = "collectToolResults E (mergeToolResults E entries)"
  have "mergeToolResults E (mergeToolResults E entries) =
      map (annotate ?r) (filter survives (mergeToolResults E entries))"
    by (rule mergeToolResults_eq)
  also have "filter survives (mergeToolResults E entries) =
      map (annotate (collectToolResults E entries)) (filter survives entries)"
    by (simp add: mergeToolResults_eq filter_survives_annotate)
  finally show ?thesis
    by (simp add: annotate_annotate comp_def)
qed

lemma collect_none_recordable:
  "list_all (\<lambda>b. \<not> recordable b) bs \<Longrightarrow> foldl (collect_block E) m bs = m"
  by (induction bs arbitrary: m) (simp_all add: collect_block_def)

lemma collect_survivors:
  "list_all (\<lambda>e. survives e \<or> records_nothing e) entries \<Longrightarrow>
   foldl (collect_entry E) m (filter survives entries) = foldl (collect_entry E) m entries"
proof (induction entries arbitrary: m)
  case Nil
  then show ?case by simp
next
  case (Cons e es)
  show ?case
  proof (cases "survives e")
    case True
    with Cons show ?thesis by simp
  next
    case False
    with Cons.prems have "records_nothing e" by simp
    then have "collect_entry E m e = m"
      by (auto simp: records_nothing_def collect_entry_def collect_none_recordable
          split: option.splits)
    with False Cons show ?thesis by simp
  qed
qed

lemma collect_merged:
  "collectToolResults E (mergeToolResults E entries) =
     foldl (collect_entry E) Map.empty (filter survives entries)"
  by (simp add: collectToolResults_blocks mergeToolResults_eq scanned_blocks_annotate
      collect_entries_blocks)

lemma mergeToolResults_idem:
  assumes "list_all (\<lambda>e. survives e \<or> records_nothing e) entries"
  shows "mergeToolResults E (mergeToolResults E entries) = mergeToolResults E entries"
proof -
  have "collectToolResults E (mergeToolResults E entries) =
      foldl (collect_entry E) Map.empty entries"
    unfolding collect_merged by (rule collect_survivors [OF assms])
  then have "collectToolResults E (mergeToolResults E entries) = collectToolResults E entries"
    by (simp add: collectToolResults_def)
  then have "mergeToolResults E (mergeToolResults E entries) =
      map (annotate (collectToolResults E entries)) (filter survives entries)"
    by (simp add: mergeToolResults_twice)
  then show ?thesis
    by (simp add: mergeToolResults_eq)
qed

lemma sample_survives:
  "survives (ChatMessage (asks i name))" "\<not> survives (ChatMessage (answers rs))"
  by (simp_all add: survives_def user_blocks_def asks_def answers_def sample_message_def
      hasNonToolResult_def list_ex_iff tool_result_def split: prod.splits)

lemma sample_user_blocks:
  "user_blocks (ChatMessage (asks i name)) = None"
  "user_blocks (ChatMessage (answers rs)) =
     Some (map (\<lambda>(i, r). tool_result i (Some (RStr r))) rs)"
  by (simp_all add: user_blocks_def asks_def answers_def sample_message_def)

lemma sample_recordable:
  "recordable (tool_result i (Some (RStr r))) = (i \<noteq> [] \<and> r \<noteq> [])"
  by (simp add: recordable_def tool_result_def truthy_def)

lemma sample_payload: "payload E (tool_result i (Some (RStr r))) = r"
  by (simp add: payload_def tool_result_def)

lemma sample_tool_use_id: "btool_use_id (tool_result i c) = Some i"
  by (simp add: tool_result_def)

lemma sample_annotate:
  "annotate r (ChatMessage (asks i name)) = ChatMessage ((asks i name)\<lparr>toolResults := Some r\<rparr>)"
  by (simp add: annotate_def asks_def sample_message_def)

text \<open>
  C3 as stated fails on the annotations: the second application collects the index from
  its input, where the result messages are gone.
\<close>

theorem reconciliation_idempotent_counterexample:
  "mergeToolResults sample_env
     (mergeToolResults sample_env
        [ChatMessage (asks ''t1'' ''Bash''), ChatMessage (answers [(''t1'', ''ok'')])]) \<noteq>
   mergeToolResults sample_env
     [ChatMessage (asks ''t1'' ''Bash''), ChatMessage (answers [(''t1'', ''ok'')])] \<and>
   mergeToolResults sample_env
     [ChatMessage (asks ''t1'' ''Bash''), ChatMessage (answers [(''t1'', ''ok'')])] =
     [ChatMessage ((asks ''t1'' ''Bash'')\<lparr>toolResults := Some [''t1'' \<mapsto> ''ok'']\<rparr>)] \<and>
   mergeToolResults sample_env
     (mergeToolResults sample_env
        [ChatMessage (asks ''t1'' ''Bash''), ChatMessage (answers [(''t1'', ''ok'')])]) =
     [ChatMessage ((asks ''t1'' ''Bash'')\<lparr>toolResults := Some Map.empty\<rparr>)]"
proof -
  let ?chat = "[ChatMessage (asks ''t1'' ''Bash''), ChatMessage (answers [(''t1'', ''ok'')])]"
  have i: "collectToolResults sample_env ?chat = [''t1'' \<mapsto> ''ok'']"
    by (simp add: collectToolResults_def collect_entry_def sample_user_blocks collect_block_def
        sample_recordable sample_payload sample_tool_use_id or_empty_def)
  have m: "mergeToolResults sample_env ?chat =
      [ChatMessage ((asks ''t1'' ''Bash'')\<lparr>toolResults := Some [''t1'' \<mapsto> ''ok'']\<rparr>)]"
    by (simp add: mergeToolResults_eq i sample_survives sample_annotate)
  have j: "collectToolResults sample_env
      [ChatMessage ((asks ''t1'' ''Bash'')\<lparr>toolResults := Some [''t1'' \<mapsto> ''ok'']\<rparr>)] = Map.empty"
    by (simp add: collectToolResults_def collect_entry_def user_blocks_def asks_def
        sample_message_def)
  have mm: "mergeToolResults sample_env (mergeToolResults sample_env ?chat) =
      [ChatMessage ((asks ''t1'' ''Bash'')\<lparr>toolResults := Some Map.empty\<rparr>)]"
    unfolding m
    by (simp add: mergeToolResults_def j)
      (simp add: user_blocks_def asks_def sample_message_def)
  have "(Map.empty :: string \<rightharpoonup> string) ''t1'' \<noteq> [''t1'' \<mapsto> ''ok''] ''t1''"
    by simp
  then have "(Map.empty :: string \<rightharpoonup> string) \<noteq> [''t1'' \<mapsto> ''ok'']"
    by metis
  then have "toolResults ((asks ''t1'' ''Bash'')\<lparr>toolResults := Some Map.empty\<rparr>) \<noteq>
      toolResults ((asks ''t1'' ''Bash'')\<lparr>toolResults := Some [''t1'' \<mapsto> ''ok'']\<rparr>)"
    by simp
  then have "(asks ''t1'' ''Bash'')\<lparr>toolResults := Some Map.empty\<rparr> \<noteq>
      (asks ''t1'' ''Bash'')\<lparr>toolResults := Some [''t1'' \<mapsto> ''ok'']\<rparr>"
    by metis
  with m mm show ?thesis by simp
qed

text \<open>
  C3, amended. \<open>mergeToolResults\<close> never reorders: its output is the list of the records
  that survive the filter, in their input order, each assistant message annotated with the
  index. Applied to its own output it returns the same records in the same order; the
  annotation is then the index collected from that output, and it is the same annotation,
  so that the two outputs are equal, when every record that the filter dropped recorded
  nothing in the index.
\<close>

theorem reconciliation_idempotent:
  "mergeToolResults E entries =
     map (annotate (collectToolResults E entries)) (filter survives entries) \<and>
   mergeToolResults E (mergeToolResults E entries) =
     map (annotate (collectToolResults E (mergeToolResults E entries)))
       (filter survives entries) \<and>
   (list_all (\<lambda>e. survives e \<or> records_nothing e) entries \<longrightarrow>
      mergeToolResults E (mergeToolResults E entries) = mergeToolResults E entries)"
  using mergeToolResults_eq [of E entries] mergeToolResults_twice [of E entries]
    mergeToolResults_idem [of entries E]
  by blast

theorem reconciliation_idempotent_witness:
  "list_all (\<lambda>e. survives e \<or> records_nothing e)
     [ChatMessage (asks ''t1'' ''Bash''), ChatMessage (answers [(''t1'', [])])] \<and>
   mergeToolResults sample_env
     (mergeToolResults sample_env
        [ChatMessage (asks ''t1'' ''Bash''), ChatMessage (answers [(''t1'', [])])]) =
   mergeToolResults sample_env
     [ChatMessage (asks ''t1'' ''Bash''), ChatMessage (answers [(''t1'', [])])]"
proof -
  have "list_all (\<lambda>e. survives e \<or> records_nothing e)
     [ChatMessage (asks ''t1'' ''Bash''), ChatMessage (answers [(''t1'', [])])]"
    by (simp add: sample_survives records_nothing_def sample_user_blocks sample_recordable)
  with reconciliation_idempotent
    [of sample_env "[ChatMessage (asks ''t1'' ''Bash''), ChatMessage (answers [(''t1'', [])])]"]
  show ?thesis by blast
qed

lemma merged_survive: "x \<in> set (mergeToolResults E entries) \<Longrightarrow> survives x"
  by (auto simp: mergeToolResults_eq survives_annotate)

lemma scanned_blocks_append:
  "scanned_blocks (pre @ post) = scanned_blocks pre @ scanned_blocks post"
  by (simp add: scanned_blocks_def)

lemma merge_without_silent:
  assumes "user_blocks entry = Some bs" and "\<not> hasNonToolResult bs"
    and "list_all (\<lambda>b. \<not> recordable b) bs"
  shows "mergeToolResults E (pre @ entry # post) = mergeToolResults E (pre @ post)"
proof -
  have "collectToolResults E (pre @ entry # post) = collectToolResults E (pre @ post)"
    using assms(1,3)
    by (simp add: collectToolResults_def collect_entry_def collect_none_recordable)
  moreover have "\<not> survives entry"
    using assms(1,2) by (simp add: survives_def)
  ultimately show ?thesis
    by (simp add: mergeToolResults_eq)
qed

text \<open>
  C9. A user message whose blocks are all tool results is not in the output of
  \<open>mergeToolResults\<close>, whether or not its blocks were recorded; and when none of its
  blocks is recorded (no \<open>tool_use_id\<close>, or no content, or an empty string as content), the
  index, the output and the nodes rendered from the output are those that the list without
  this message gives: nothing of the message is left.
\<close>

theorem unrecorded_results_lost:
  "user_blocks entry = Some bs \<and> \<not> hasNonToolResult bs \<longrightarrow>
     entry \<notin> set (mergeToolResults E entries) \<and>
     (list_all (\<lambda>b. \<not> recordable b) bs \<longrightarrow>
        collectToolResults E (pre @ entry # post) = collectToolResults E (pre @ post) \<and>
        mergeToolResults E (pre @ entry # post) = mergeToolResults E (pre @ post) \<and>
        pushEntries E doc (mergeToolResults E (pre @ entry # post)) =
          pushEntries E doc (mergeToolResults E (pre @ post)))"
proof (intro impI conjI)
  assume a: "user_blocks entry = Some bs \<and> \<not> hasNonToolResult bs"
  then have "\<not> survives entry" by (simp add: survives_def)
  with merged_survive [of entry E entries] show "entry \<notin> set (mergeToolResults E entries)"
    by blast
  assume n: "list_all (\<lambda>b. \<not> recordable b) bs"
  from a n show "collectToolResults E (pre @ entry # post) = collectToolResults E (pre @ post)"
    by (simp add: collectToolResults_def collect_entry_def collect_none_recordable)
  from a n show m: "mergeToolResults E (pre @ entry # post) = mergeToolResults E (pre @ post)"
    by (intro merge_without_silent) simp_all
  show "pushEntries E doc (mergeToolResults E (pre @ entry # post)) =
      pushEntries E doc (mergeToolResults E (pre @ post))"
    by (simp only: m)
qed

theorem unrecorded_results_lost_witness:
  "user_blocks (ChatMessage (answers [(''t1'', [])])) = Some [tool_result ''t1'' (Some (RStr []))] \<and>
   \<not> hasNonToolResult [tool_result ''t1'' (Some (RStr []))] \<and>
   list_all (\<lambda>b. \<not> recordable b) [tool_result ''t1'' (Some (RStr []))] \<and>
   ChatMessage (answers [(''t1'', [])]) \<notin>
     set (mergeToolResults sample_env
            [ChatMessage (asks ''t1'' ''Bash''), ChatMessage (answers [(''t1'', [])])]) \<and>
   mergeToolResults sample_env
     ([ChatMessage (asks ''t1'' ''Bash'')] @ ChatMessage (answers [(''t1'', [])]) # []) =
   mergeToolResults sample_env ([ChatMessage (asks ''t1'' ''Bash'')] @ [])"
proof -
  have a: "user_blocks (ChatMessage (answers [(''t1'', [])])) =
      Some [tool_result ''t1'' (Some (RStr []))]"
    by (simp add: sample_user_blocks)
  have b: "\<not> hasNonToolResult [tool_result ''t1'' (Some (RStr []))]"
    by (simp add: hasNonToolResult_def tool_result_def)
  have c: "list_all (\<lambda>b. \<not> recordable b) [tool_result ''t1'' (Some (RStr []))]"
    by (simp add: sample_recordable)
  from a b c
    unrecorded_results_lost [of "ChatMessage (answers [(''t1'', [])])"
      "[tool_result ''t1'' (Some (RStr []))]" sample_env
      "[ChatMessage (asks ''t1'' ''Bash''), ChatMessage (answers [(''t1'', [])])]"
      "[ChatMessage (asks ''t1'' ''Bash'')]" "[]" "[]"]
  show ?thesis by blast
qed

lemma result_code_rendered:
  "r \<noteq> [] \<Longrightarrow>
   u_props_lit ''code'' [(''lang'', PNull)] r \<in>
     set (fst (resultParts name (Some r)) @ snd (resultParts name (Some r)))"
  by (simp add: resultParts_present)

lemma createToolUseNodes_any_eq:
  assumes "toolSummaryAndNodes_any E block = Inr (summary, nodes0)"
    and "unistToHtml E summary = Inr html"
  shows "createToolUseNodes_any E block result =
    Inr ((if parameterParts_any E block @ snd (resultParts (toolNameOf block) result) \<noteq> []
          then u_lit ''html'' (detailsHtml html
                 (md_stringify E
                    (parameterParts_any E block @ snd (resultParts (toolNameOf block) result))))
          else u_lit ''html'' html)
         # nodes0 @ fst (resultParts (toolNameOf block) result))"
proof -
  obtain openParts hiddenParts
    where r: "resultParts (toolNameOf block) result = (openParts, hiddenParts)"
    by (cases "resultParts (toolNameOf block) result")
  show ?thesis
    by (simp add: createToolUseNodes_any_def Let_def assms r createDetailsBlock_def
        stringifyMarkdown_def)
qed

lemma createToolUseNodes_any_throws:
  assumes "toolSummaryAndNodes_any E block = Inr (summary, nodes0)"
    and "unistToHtml E summary = Inl e"
  shows "createToolUseNodes_any E block result = Inl e"
proof -
  obtain openParts hiddenParts
    where r: "resultParts (toolNameOf block) result = (openParts, hiddenParts)"
    by (cases "resultParts (toolNameOf block) result")
  show ?thesis
    by (simp add: createToolUseNodes_any_def Let_def assms r createDetailsBlock_def)
qed

lemma createToolUseNodes_any_type_error:
  "toolSummaryAndNodes_any E block = Inl e \<Longrightarrow> createToolUseNodes_any E block result = Inl e"
  by (simp add: createToolUseNodes_any_def)

lemma blocksNodes_single:
  "blocksNodes E results a [block] = blockNodes E results a block"
  by (simp split: sum.splits)

lemma blockNodes_tool_use:
  "btype block = BToolUse \<Longrightarrow>
   blockNodes E results a block =
     createToolUseNodes_any E block
       (case results of
          None \<Rightarrow> None
        | Some m \<Rightarrow> if truthy (bid block) then m (or_empty (bid block)) else None)"
  by (simp add: blockNodes_def)

lemma processAssistantContent_Nil: "processAssistantContent E [] = Inr []"
  by (simp add: processAssistantContent_def)

lemma createChatEntryNodes_tool_use:
  assumes "mtype a = Assistant" and "mcontent a = CBlocks [tu]" and "btype tu = BToolUse"
  shows "createChatEntryNodes E (ChatMessage a) =
    (case createToolUseNodes_any E tu
            (case toolResults a of
               None \<Rightarrow> None
             | Some m \<Rightarrow> if truthy (bid tu) then m (or_empty (bid tu)) else None) of
       Inl e \<Rightarrow> Inl e
     | Inr ns \<Rightarrow> processAssistantContent E ns)"
  using assms
  by (simp add: createChatEntryNodes_def extractTextContentAsNodes_def blocksNodes_single
      blockNodes_tool_use processAssistantContent_Nil split: sum.splits)

lemma collect_two_blocks:
  assumes "recordable b1" and "recordable b2" and "btool_use_id b1 = btool_use_id b2"
    and "user_blocks entry = Some [b1, b2]"
  shows "collectToolResults E [entry] (or_empty (btool_use_id b2)) = Some (payload E b2)"
  using assms
  by (simp add: collectToolResults_def collect_entry_def collect_block_def)

lemma payload_recordable:
  "btype tr = BToolResult \<Longrightarrow> btool_use_id tr = Some i \<Longrightarrow> i \<noteq> [] \<Longrightarrow> payload E tr \<noteq> [] \<Longrightarrow>
   recordable tr"
  by (auto simp: recordable_def payload_def truthy_def split: option.splits result_content.splits)

lemma merge_scenario:
  assumes "mtype a = Assistant" and "mtype u = User" and "mcontent u = CBlocks [tr]"
    and "btype tr = BToolResult" and "btool_use_id tr = Some i" and "i \<noteq> []"
    and "payload E tr \<noteq> []"
  shows "mergeToolResults E [ChatMessage a, ChatMessage u] =
    [ChatMessage (a\<lparr>toolResults := Some [i \<mapsto> payload E tr]\<rparr>)]"
proof -
  have r: "recordable tr"
    using assms(4-7) by (rule payload_recordable)
  have ub: "user_blocks (ChatMessage a) = None" "user_blocks (ChatMessage u) = Some [tr]"
    using assms by (simp_all add: user_blocks_def)
  have i: "collectToolResults E [ChatMessage a, ChatMessage u] = [i \<mapsto> payload E tr]"
    using assms(5) by (simp add: collectToolResults_def collect_entry_def ub collect_block_def r
        or_empty_def)
  have s: "survives (ChatMessage a)" "\<not> survives (ChatMessage u)"
    using assms(4) by (simp_all add: survives_def ub hasNonToolResult_def)
  show ?thesis
    using assms(1) by (simp add: mergeToolResults_eq i s annotate_def)
qed

lemma sample_todos_text:
  "toolSummaryAndNodes_any sample_env todos_text = Inl (Error ''todos.filter is not a function'')"
  by (simp add: toolSummaryAndNodes_any_def todos_text_def tool_call_def toolNameOf_def truthy_def
      or_empty_def input_field_def no_fields_def truthy_todos_def type_error_def sample_env_def)

lemma sample_asks_summary:
  "toolSummaryAndNodes_any sample_env (tool_call ''t1'' ''Bash'' None) =
     Inr (createToolSummary ''Bash'' NoDescription, [])"
  "unistToHtml sample_env (createToolSummary ''Bash'' NoDescription) =
     Inr (wrench @ '' <strong>Bash</strong>'')"
  by (simp_all add: toolSummaryAndNodes_any_def tool_call_def toolNameOf_def truthy_def
      or_empty_def input_field_def truthy_text_def createToolSummary_def unistToHtml_def
      u_lit_def u_par_def sample_env_def)

text \<open>
  C4 as stated fails for a result block whose content is the empty string: it is not
  recorded, and as the later of two blocks with one id it does not replace the earlier
  payload. It also fails when rendering the tool_use block throws: for a call of TodoWrite
  whose \<open>todos\<close> is a string the result is recorded, and the message has no rendered body.
\<close>

theorem tool_reconciliation_counterexample:
  "collectToolResults sample_env
     [ChatMessage (asks ''t1'' ''Bash''), ChatMessage (answers [(''t1'', [])])] ''t1'' = None \<and>
   collectToolResults sample_env
     [ChatMessage (asks ''t1'' ''Bash''),
      ChatMessage (answers [(''t1'', ''first''), (''t1'', [])])] ''t1'' = Some ''first'' \<and>
   bid todos_text = Some ''t1'' \<and>
   mergeToolResults sample_env
     [ChatMessage (sample_message Assistant (CBlocks [todos_text]) ''1''),
      ChatMessage (answers [(''t1'', ''ok'')])] =
     [ChatMessage ((sample_message Assistant (CBlocks [todos_text]) ''1'')
        \<lparr>toolResults := Some [''t1'' \<mapsto> ''ok'']\<rparr>)] \<and>
   createChatEntryNodes sample_env
     (ChatMessage ((sample_message Assistant (CBlocks [todos_text]) ''1'')
        \<lparr>toolResults := Some [''t1'' \<mapsto> ''ok'']\<rparr>)) =
     Inl (Error ''todos.filter is not a function'')"
proof -
  have a: "collectToolResults sample_env
     [ChatMessage (asks ''t1'' ''Bash''), ChatMessage (answers [(''t1'', [])])] ''t1'' = None"
    "collectToolResults sample_env
     [ChatMessage (asks ''t1'' ''Bash''),
      ChatMessage (answers [(''t1'', ''first''), (''t1'', [])])] ''t1'' = Some ''first''"
    by (simp_all add: collectToolResults_lookup scanned_blocks_def sample_user_blocks
        last_payload_def sample_recordable sample_payload sample_tool_use_id or_empty_def)
  have b: "bid todos_text = Some ''t1''"
    by (simp add: todos_text_def tool_call_def)
  have t: "btype (todos_text) = BToolUse"
    by (simp add: todos_text_def tool_call_def)
  have m: "mergeToolResults sample_env
     [ChatMessage (sample_message Assistant (CBlocks [todos_text]) ''1''),
      ChatMessage (answers [(''t1'', ''ok'')])] =
     [ChatMessage ((sample_message Assistant (CBlocks [todos_text]) ''1'')
        \<lparr>toolResults := Some [''t1'' \<mapsto> payload sample_env (tool_result ''t1'' (Some (RStr ''ok'')))]\<rparr>)]"
    by (rule merge_scenario [where tr = "tool_result ''t1'' (Some (RStr ''ok''))"])
      (simp_all add: sample_message_def answers_def sample_payload sample_tool_use_id,
        simp add: tool_result_def)
  have c: "createChatEntryNodes sample_env
     (ChatMessage ((sample_message Assistant (CBlocks [todos_text]) ''1'')
        \<lparr>toolResults := Some [''t1'' \<mapsto> ''ok'']\<rparr>)) =
     Inl (Error ''todos.filter is not a function'')"
    by (subst createChatEntryNodes_tool_use [where tu = todos_text])
      (simp_all add: sample_message_def t createToolUseNodes_any_type_error [OF sample_todos_text])
  from a b m c show ?thesis
    by (simp add: sample_payload)
qed

text \<open>
  C4, amended. Take a chat of an assistant message whose one block is a tool_use with id
  "t1" and a user message whose one block is a tool_result for "t1" with a payload that is
  not empty: a string that is not empty, or an array, whose payload is its serialisation.
  \<open>mergeToolResults\<close> returns the assistant message alone, annotated with the index that
  maps "t1" to the payload; rendering that message hands the payload to
  \<open>createToolUseNodes\<close> as the result of the block; and when the summary of the block is
  computed and converted without a throw, the nodes of the block are the label, the nodes
  pushed with the summary and the open part of the result, and the code block of the
  payload is in the open part or in the content of the details block. In every chat, the
  index maps an id to the payload of the last block that is recorded for it: a tool_result
  with a non-empty id whose content is an array or a non-empty string; among two such
  blocks with one id the later wins.
\<close>

theorem tool_reconciliation:
  "(mtype a = Assistant \<and> mcontent a = CBlocks [tu] \<and> btype tu = BToolUse \<and>
    bid tu = Some ''t1'' \<and> mtype u = User \<and> mcontent u = CBlocks [tr] \<and>
    btype tr = BToolResult \<and> btool_use_id tr = Some ''t1'' \<and> payload E tr \<noteq> [] \<longrightarrow>
      mergeToolResults E [ChatMessage a, ChatMessage u] =
        [ChatMessage (a\<lparr>toolResults := Some [''t1'' \<mapsto> payload E tr]\<rparr>)] \<and>
      createChatEntryNodes E (ChatMessage (a\<lparr>toolResults := Some [''t1'' \<mapsto> payload E tr]\<rparr>)) =
        (case createToolUseNodes_any E tu (Some (payload E tr)) of
           Inl e \<Rightarrow> Inl e
         | Inr ns \<Rightarrow> processAssistantContent E ns) \<and>
      (toolSummaryAndNodes_any E tu = Inr (summary, nodes0) \<and>
       unistToHtml E summary = Inr html \<longrightarrow>
         createToolUseNodes_any E tu (Some (payload E tr)) =
           Inr ((if parameterParts_any E tu @
                    snd (resultParts (toolNameOf tu) (Some (payload E tr))) \<noteq> []
                 then u_lit ''html'' (detailsHtml html (md_stringify E
                        (parameterParts_any E tu @
                         snd (resultParts (toolNameOf tu) (Some (payload E tr))))))
                 else u_lit ''html'' html)
                # nodes0 @ fst (resultParts (toolNameOf tu) (Some (payload E tr)))) \<and>
         u_props_lit ''code'' [(''lang'', PNull)] (payload E tr) \<in>
           set (fst (resultParts (toolNameOf tu) (Some (payload E tr))) @
                snd (resultParts (toolNameOf tu) (Some (payload E tr)))))) \<and>
   collectToolResults E entries k = last_payload E k (scanned_blocks entries) \<and>
   (recordable b1 \<and> recordable b2 \<and> btool_use_id b1 = btool_use_id b2 \<and>
    user_blocks entry = Some [b1, b2] \<longrightarrow>
      collectToolResults E [entry] (or_empty (btool_use_id b2)) = Some (payload E b2))"
proof (intro conjI impI)
  assume h: "mtype a = Assistant \<and> mcontent a = CBlocks [tu] \<and> btype tu = BToolUse \<and>
    bid tu = Some ''t1'' \<and> mtype u = User \<and> mcontent u = CBlocks [tr] \<and>
    btype tr = BToolResult \<and> btool_use_id tr = Some ''t1'' \<and> payload E tr \<noteq> []"
  let ?a = "a\<lparr>toolResults := Some [''t1'' \<mapsto> payload E tr]\<rparr>"
  from h show "mergeToolResults E [ChatMessage a, ChatMessage u] = [ChatMessage ?a]"
    by (intro merge_scenario [where tr = tr]) simp_all
  from h have "createChatEntryNodes E (ChatMessage ?a) =
      (case createToolUseNodes_any E tu
            (case toolResults ?a of
               None \<Rightarrow> None
             | Some m \<Rightarrow> if truthy (bid tu) then m (or_empty (bid tu)) else None) of
         Inl e \<Rightarrow> Inl e
       | Inr ns \<Rightarrow> processAssistantContent E ns)"
    by (intro createChatEntryNodes_tool_use) simp_all
  with h show "createChatEntryNodes E (ChatMessage ?a) =
      (case createToolUseNodes_any E tu (Some (payload E tr)) of
         Inl e \<Rightarrow> Inl e
       | Inr ns \<Rightarrow> processAssistantContent E ns)"
    by (simp add: truthy_def or_empty_def)
  from h show "u_props_lit ''code'' [(''lang'', PNull)] (payload E tr) \<in>
      set (fst (resultParts (toolNameOf tu) (Some (payload E tr))) @
           snd (resultParts (toolNameOf tu) (Some (payload E tr))))"
    by (intro result_code_rendered) simp
  assume "toolSummaryAndNodes_any E tu = Inr (summary, nodes0) \<and>
    unistToHtml E summary = Inr html"
  then have "toolSummaryAndNodes_any E tu = Inr (summary, nodes0)"
    and "unistToHtml E summary = Inr html"
    by simp_all
  then show "createToolUseNodes_any E tu (Some (payload E tr)) =
      Inr ((if parameterParts_any E tu @
               snd (resultParts (toolNameOf tu) (Some (payload E tr))) \<noteq> []
            then u_lit ''html'' (detailsHtml html (md_stringify E
                   (parameterParts_any E tu @
                    snd (resultParts (toolNameOf tu) (Some (payload E tr))))))
            else u_lit ''html'' html)
           # nodes0 @ fst (resultParts (toolNameOf tu) (Some (payload E tr))))"
    by (rule createToolUseNodes_any_eq)
next
  show "collectToolResults E entries k = last_payload E k (scanned_blocks entries)"
    by (rule collectToolResults_lookup)
next
  assume "recordable b1 \<and> recordable b2 \<and> btool_use_id b1 = btool_use_id b2 \<and>
    user_blocks entry = Some [b1, b2]"
  then show "collectToolResults E [entry] (or_empty (btool_use_id b2)) = Some (payload E b2)"
    by (intro collect_two_blocks [where ?b1.0 = b1]) simp_all
qed

theorem tool_reconciliation_witness:
  "mergeToolResults sample_env
     [ChatMessage (asks ''t1'' ''Bash''), ChatMessage (answers [(''t1'', ''ok'')])] =
     [ChatMessage ((asks ''t1'' ''Bash'')\<lparr>toolResults := Some [''t1'' \<mapsto> ''ok'']\<rparr>)] \<and>
   createToolUseNodes_any sample_env (tool_call ''t1'' ''Bash'' None) (Some ''ok'') =
     Inr [u_lit ''html'' (detailsHtml (wrench @ '' <strong>Bash</strong>'')
            (md_stringify sample_env
               [u_par ''paragraph'' [u_par ''strong'' [u_lit ''text'' ''Result:'']],
                u_props_lit ''code'' [(''lang'', PNull)] ''ok'']))] \<and>
   mergeToolResults sample_env
     [ChatMessage (asks ''t1'' ''Bash''),
      ChatMessage (sample_message User (CBlocks [tool_result ''t1'' (Some (RArr [JStr ''a'']))])
        ''2'')] =
     [ChatMessage ((asks ''t1'' ''Bash'')\<lparr>toolResults := Some [''t1'' \<mapsto> ''[]'']\<rparr>)] \<and>
   collectToolResults sample_env
     [ChatMessage (answers [(''t1'', ''first''), (''t1'', ''second'')])] ''t1'' = Some ''second''"
proof -
  let ?tu = "tool_call ''t1'' ''Bash'' None"
  let ?ok = "tool_result ''t1'' (Some (RStr ''ok''))"
  let ?arr = "tool_result ''t1'' (Some (RArr [JStr ''a'']))"
  let ?first = "tool_result ''t1'' (Some (RStr ''first''))"
  let ?second = "tool_result ''t1'' (Some (RStr ''second''))"
  let ?u = "sample_message User (CBlocks [?arr]) ''2''"
  have p: "payload sample_env ?ok = ''ok''" "payload sample_env ?arr = ''[]''"
    "payload sample_env ?second = ''second''"
    by (simp_all add: payload_def tool_result_def sample_env_def)
  have bt: "btype ?ok = BToolResult" "btype ?arr = BToolResult" "btype ?tu = BToolUse"
    "bid ?tu = Some ''t1''"
    by (simp_all add: tool_result_def tool_call_def)
  have s: "mtype (asks ''t1'' ''Bash'') = Assistant \<and>
      mcontent (asks ''t1'' ''Bash'') = CBlocks [?tu] \<and> btype ?tu = BToolUse \<and>
      bid ?tu = Some ''t1'' \<and> mtype (answers [(''t1'', ''ok'')]) = User \<and>
      mcontent (answers [(''t1'', ''ok'')]) = CBlocks [?ok] \<and> btype ?ok = BToolResult \<and>
      btool_use_id ?ok = Some ''t1'' \<and> payload sample_env ?ok \<noteq> []"
    by (simp add: asks_def answers_def sample_message_def bt sample_tool_use_id p)
  have s': "mtype (asks ''t1'' ''Bash'') = Assistant \<and>
      mcontent (asks ''t1'' ''Bash'') = CBlocks [?tu] \<and> btype ?tu = BToolUse \<and>
      bid ?tu = Some ''t1'' \<and> mtype ?u = User \<and> mcontent ?u = CBlocks [?arr] \<and>
      btype ?arr = BToolResult \<and> btool_use_id ?arr = Some ''t1'' \<and> payload sample_env ?arr \<noteq> []"
    by (simp add: asks_def sample_message_def bt sample_tool_use_id p)
  have r: "toolSummaryAndNodes_any sample_env ?tu = Inr (createToolSummary ''Bash'' NoDescription, []) \<and>
      unistToHtml sample_env (createToolSummary ''Bash'' NoDescription) =
        Inr (wrench @ '' <strong>Bash</strong>'')"
    by (simp add: sample_asks_summary)
  have d: "recordable ?first \<and> recordable ?second \<and> btool_use_id ?first = btool_use_id ?second \<and>
      user_blocks (ChatMessage (answers [(''t1'', ''first''), (''t1'', ''second'')])) =
        Some [?first, ?second]"
    by (simp add: sample_recordable sample_tool_use_id sample_user_blocks)
  note t = tool_reconciliation [of "asks ''t1'' ''Bash''" ?tu "answers [(''t1'', ''ok'')]" ?ok
      sample_env "createToolSummary ''Bash'' NoDescription" "[]"
      "wrench @ '' <strong>Bash</strong>''" "[]" "[]" ?first ?second
      "ChatMessage (answers [(''t1'', ''first''), (''t1'', ''second'')])"]
  note t' = tool_reconciliation [of "asks ''t1'' ''Bash''" ?tu ?u ?arr
      sample_env "createToolSummary ''Bash'' NoDescription" "[]"
      "wrench @ '' <strong>Bash</strong>''" "[]" "[]" ?first ?second
      "ChatMessage (answers [(''t1'', ''first''), (''t1'', ''second'')])"]
  from s t have m: "mergeToolResults sample_env
     [ChatMessage (asks ''t1'' ''Bash''), ChatMessage (answers [(''t1'', ''ok'')])] =
     [ChatMessage ((asks ''t1'' ''Bash'')\<lparr>toolResults := Some [''t1'' \<mapsto> payload sample_env ?ok]\<rparr>)]"
    by blast
  from s r t have c: "createToolUseNodes_any sample_env ?tu (Some (payload sample_env ?ok)) =
      Inr ((if parameterParts_any sample_env ?tu @
               snd (resultParts (toolNameOf ?tu) (Some (payload sample_env ?ok))) \<noteq> []
            then u_lit ''html'' (detailsHtml (wrench @ '' <strong>Bash</strong>'')
                   (md_stringify sample_env
                      (parameterParts_any sample_env ?tu @
                       snd (resultParts (toolNameOf ?tu) (Some (payload sample_env ?ok))))))
            else u_lit ''html'' (wrench @ '' <strong>Bash</strong>''))
           # [] @ fst (resultParts (toolNameOf ?tu) (Some (payload sample_env ?ok))))"
    by blast
  from s' t' have m': "mergeToolResults sample_env [ChatMessage (asks ''t1'' ''Bash''), ChatMessage ?u] =
     [ChatMessage ((asks ''t1'' ''Bash'')\<lparr>toolResults := Some [''t1'' \<mapsto> payload sample_env ?arr]\<rparr>)]"
    by blast
  from d t have l: "collectToolResults sample_env
     [ChatMessage (answers [(''t1'', ''first''), (''t1'', ''second'')])]
     (or_empty (btool_use_id ?second)) = Some (payload sample_env ?second)"
    by blast
  have n: "toolNameOf ?tu = ''Bash''" "parameterParts_any sample_env ?tu = []"
    by (simp_all add: toolNameOf_def tool_call_def truthy_def or_empty_def parameterParts_any_def)
  from m c m' l show ?thesis
    by (simp add: p n resultParts_present sample_tool_use_id or_empty_def)
qed


section \<open>Properties of the start time and of the sort\<close>

lemma firstTimestamp_none:
  "list_all (no_timestamp E) lines \<Longrightarrow> firstTimestamp E lines = epoch"
  by (induction lines) (auto simp: no_timestamp_def split: option.splits)

lemma getChatStartTime_unreadable:
  "files chatFile = Inl e \<Longrightarrow> getChatStartTime E files chatFile = epoch"
  by (simp add: getChatStartTime_def)

lemma getChatStartTime_no_timestamp:
  "files chatFile = Inr content \<Longrightarrow> list_all (no_timestamp E) (file_lines content) \<Longrightarrow>
   getChatStartTime E files chatFile = epoch"
  by (simp add: getChatStartTime_def Let_def firstTimestamp_none)

lemma mset_binaryInsert: "mset (binaryInsert cmp run pivot) = add_mset pivot (mset run)"
proof -
  have "mset (take n run @ pivot # drop n run) = add_mset pivot (mset run)" for n
    using append_take_drop_id [of n run] by (metis mset_append union_mset_add_mset_right mset.simps(2))
  then show ?thesis by (simp add: binaryInsert_def Let_def)
qed

lemma mset_foldl_binaryInsert: "mset (foldl (binaryInsert cmp) acc xs) = mset acc + mset xs"
  by (induction xs arbitrary: acc) (simp_all add: mset_binaryInsert)

lemma mset_countAndMakeRun: "mset (fst (countAndMakeRun cmp xs)) = mset xs"
proof -
  have t: "mset (take n l) + mset (drop n l) = mset l" for n and l :: "'a list"
    by (metis append_take_drop_id mset_append)
  show ?thesis
    by (simp add: countAndMakeRun_def Let_def t split: list.splits)
qed

lemma mset_array_sort: "mset (array_sort cmp xs) = mset xs"
proof (cases "length xs < 2")
  case True
  then show ?thesis by (simp add: array_sort_def)
next
  case False
  obtain ys n where c: "countAndMakeRun cmp xs = (ys, n)" by (cases "countAndMakeRun cmp xs")
  with mset_countAndMakeRun [of cmp xs] have "mset ys = mset xs" by simp
  moreover have "mset (take n ys) + mset (drop n ys) = mset ys"
    by (metis append_take_drop_id mset_append)
  ultimately show ?thesis
    using False by (simp add: array_sort_def c mset_foldl_binaryInsert)
qed

lemma search_spec:
  assumes "sorted (map key xs)" and "left \<le> right" and "right \<le> length xs"
    and "\<forall>i<left. key (xs ! i) \<le> key pivot"
    and "\<forall>i. right \<le> i \<and> i < length xs \<longrightarrow> key pivot < key (xs ! i)"
    and "\<forall>x\<in>set xs. negative (cmp pivot x) = (key pivot < key x)"
  shows "search cmp pivot xs left right \<le> length xs \<and>
    (\<forall>i<search cmp pivot xs left right. key (xs ! i) \<le> key pivot) \<and>
    (\<forall>i. search cmp pivot xs left right \<le> i \<and> i < length xs \<longrightarrow> key pivot < key (xs ! i))"
  using assms
proof (induction cmp pivot xs left right rule: search.induct)
  case (1 cmp pivot xs left right)
  let ?mid = "left + (right - left) div 2"
  show ?case
  proof (cases "left < right")
    case False
    with "1.prems" show ?thesis
      by (subst search.simps, subst search.simps, subst search.simps) auto
  next
    case True
    then have m: "left \<le> ?mid" "?mid < right" by auto
    with "1.prems"(3) have ml: "?mid < length xs" by simp
    then have mem: "xs ! ?mid \<in> set xs" by simp
    show ?thesis
    proof (cases "negative (cmp pivot (xs ! ?mid))")
      case neg: True
      with "1.prems"(6) mem have lt: "key pivot < key (xs ! ?mid)" by blast
      have up: "\<forall>i. ?mid \<le> i \<and> i < length xs \<longrightarrow> key pivot < key (xs ! i)"
      proof (intro allI impI)
        fix i assume i: "?mid \<le> i \<and> i < length xs"
        with "1.prems"(1) have "map key xs ! ?mid \<le> map key xs ! i"
          by (intro sorted_nth_mono) simp_all
        with i ml lt show "key pivot < key (xs ! i)" by simp
      qed
      have "search cmp pivot xs left ?mid \<le> length xs \<and>
        (\<forall>i<search cmp pivot xs left ?mid. key (xs ! i) \<le> key pivot) \<and>
        (\<forall>i. search cmp pivot xs left ?mid \<le> i \<and> i < length xs \<longrightarrow> key pivot < key (xs ! i))"
        using True neg m ml "1.prems"(1,4,6) up
        by (intro "1.IH"(1)) simp_all
      moreover have "search cmp pivot xs left right = search cmp pivot xs left ?mid"
        using True neg by (subst search.simps) simp
      ultimately show ?thesis by simp
    next
      case pos: False
      with "1.prems"(6) mem have ge: "key (xs ! ?mid) \<le> key pivot" by auto
      have low: "\<forall>i<?mid + 1. key (xs ! i) \<le> key pivot"
      proof (intro allI impI)
        fix i assume i: "i < ?mid + 1"
        with "1.prems"(1) ml have "map key xs ! i \<le> map key xs ! ?mid"
          by (intro sorted_nth_mono) simp_all
        with i ml ge show "key (xs ! i) \<le> key pivot" by simp
      qed
      have "search cmp pivot xs (?mid + 1) right \<le> length xs \<and>
        (\<forall>i<search cmp pivot xs (?mid + 1) right. key (xs ! i) \<le> key pivot) \<and>
        (\<forall>i. search cmp pivot xs (?mid + 1) right \<le> i \<and> i < length xs \<longrightarrow> key pivot < key (xs ! i))"
        using True pos m "1.prems"(1,3,5,6) low
        by (intro "1.IH"(2)) simp_all
      moreover have "search cmp pivot xs left right = search cmp pivot xs (?mid + 1) right"
        using True pos by (subst search.simps) simp
      ultimately show ?thesis by simp
    qed
  qed
qed

lemma binaryInsert_spec:
  assumes "sorted (map key xs)" and "\<forall>x\<in>set xs. negative (cmp pivot x) = (key pivot < key x)"
  shows "sorted (map key (binaryInsert cmp xs pivot))"
    and "filter (\<lambda>y. key y = t) (binaryInsert cmp xs pivot) =
      filter (\<lambda>y. key y = t) xs @ (if key pivot = t then [pivot] else [])"
proof -
  let ?p = "search cmp pivot xs 0 (length xs)"
  have "?p \<le> length xs \<and> (\<forall>i<?p. key (xs ! i) \<le> key pivot) \<and>
      (\<forall>i. ?p \<le> i \<and> i < length xs \<longrightarrow> key pivot < key (xs ! i))"
    by (rule search_spec [where key = key]) (use assms in auto)
  then have b: "?p \<le> length xs" and lo: "\<forall>i<?p. key (xs ! i) \<le> key pivot"
    and hi: "\<forall>i. ?p \<le> i \<and> i < length xs \<longrightarrow> key pivot < key (xs ! i)"
    by blast+
  have lo': "\<forall>x\<in>set (take ?p xs). key x \<le> key pivot"
    using lo b by (auto simp: in_set_conv_nth)
  have hi': "\<forall>x\<in>set (drop ?p xs). key pivot < key x"
  proof
    fix x assume "x \<in> set (drop ?p xs)"
    then obtain i where "i < length (drop ?p xs)" "x = drop ?p xs ! i"
      by (auto simp: in_set_conv_nth)
    with b hi show "key pivot < key x" by simp
  qed
  have s: "sorted (map key (take ?p xs))" "sorted (map key (drop ?p xs))"
    using assms(1) by (simp_all add: sorted_wrt_take sorted_wrt_drop take_map [symmetric] drop_map [symmetric])
  show "sorted (map key (binaryInsert cmp xs pivot))"
    using s lo' hi' by (fastforce simp: binaryInsert_def Let_def sorted_append)
  have "filter (\<lambda>y. key y = t) (drop ?p xs) = []" if "key pivot = t"
    using hi' that by (auto simp: filter_empty_conv)
  moreover have "filter (\<lambda>y. key y = t) (take ?p xs) @ filter (\<lambda>y. key y = t) (drop ?p xs) =
      filter (\<lambda>y. key y = t) xs"
    by (metis append_take_drop_id filter_append)
  ultimately show "filter (\<lambda>y. key y = t) (binaryInsert cmp xs pivot) =
      filter (\<lambda>y. key y = t) xs @ (if key pivot = t then [pivot] else [])"
    by (auto simp: binaryInsert_def Let_def)
qed

lemma set_binaryInsert: "set (binaryInsert cmp xs pivot) = insert pivot (set xs)"
  using mset_binaryInsert [of cmp xs pivot] by (metis set_mset_mset set_mset_add_mset_insert)

lemma foldl_binaryInsert_spec:
  assumes "agrees cmp key (set acc \<union> set xs)" and "sorted (map key acc)"
  shows "sorted (map key (foldl (binaryInsert cmp) acc xs)) \<and>
    filter (\<lambda>y. key y = t) (foldl (binaryInsert cmp) acc xs) =
      filter (\<lambda>y. key y = t) acc @ filter (\<lambda>y. key y = t) xs"
  using assms
proof (induction xs arbitrary: acc)
  case Nil
  then show ?case by simp
next
  case (Cons x xs)
  have a: "\<forall>y\<in>set acc. negative (cmp x y) = (key x < key y)"
    using Cons.prems(1) by (auto simp: agrees_def)
  note b = binaryInsert_spec [where key = key and xs = acc and cmp = cmp and pivot = x,
      OF Cons.prems(2) a]
  have "agrees cmp key (set (binaryInsert cmp acc x) \<union> set xs)"
    using Cons.prems(1) by (simp add: set_binaryInsert agrees_def)
  from Cons.IH [OF this b(1)] b(2) [of t] show ?case by simp
qed

lemma run_rest_le: "run_rest cmp d prev rest \<le> length rest"
  by (induction rest arbitrary: prev) simp_all

lemma ascending_run:
  assumes "agrees cmp key (insert prev (set rest))"
  shows "sorted (map key (prev # take (run_rest cmp False prev rest) rest))"
  using assms
proof (induction rest arbitrary: prev)
  case Nil
  then show ?case by simp
next
  case (Cons x rest)
  show ?case
  proof (cases "negative (cmp x prev)")
    case True
    then show ?thesis by simp
  next
    case False
    with Cons.prems have le: "key prev \<le> key x" by (auto simp: agrees_def)
    have "agrees cmp key (insert x (set rest))"
      using Cons.prems by (simp add: agrees_def)
    from Cons.IH [OF this] have "sorted (map key (x # take (run_rest cmp False x rest) rest))" .
    with le False show ?thesis by auto
  qed
qed

lemma descending_run:
  assumes "agrees cmp key (insert prev (set rest))"
  shows "sorted_wrt (\<lambda>a b. key b < key a) (prev # take (run_rest cmp True prev rest) rest)"
  using assms
proof (induction rest arbitrary: prev)
  case Nil
  then show ?case by simp
next
  case (Cons x rest)
  show ?case
  proof (cases "negative (cmp x prev)")
    case False
    then show ?thesis by simp
  next
    case True
    with Cons.prems have lt: "key x < key prev" by (auto simp: agrees_def)
    have "agrees cmp key (insert x (set rest))"
      using Cons.prems by (simp add: agrees_def)
    from Cons.IH [OF this]
    have "sorted_wrt (\<lambda>a b. key b < key a) (x # take (run_rest cmp True x rest) rest)" .
    with lt True show ?thesis by fastforce
  qed
qed

lemma strict_filter:
  "sorted_wrt (\<lambda>a b. key b < key a) xs \<Longrightarrow> length (filter (\<lambda>y. key y = (t::int)) xs) \<le> 1"
proof (induction xs)
  case Nil
  then show ?case by simp
next
  case (Cons x xs)
  then have "key x = t \<Longrightarrow> filter (\<lambda>y. key y = t) xs = []"
    by (auto simp: filter_empty_conv)
  with Cons show ?case by auto
qed

lemma strict_rev:
  assumes "sorted_wrt (\<lambda>a b. key b < key a) xs"
  shows "sorted (map key (rev xs))" and "filter (\<lambda>y. key y = (t::int)) (rev xs) = filter (\<lambda>y. key y = t) xs"
proof -
  have "sorted_wrt (\<lambda>a b. key a < key b) (rev xs)"
    using assms by (simp add: sorted_wrt_rev)
  then have "sorted_wrt (\<lambda>a b. key a \<le> key b) (rev xs)"
    by (rule sorted_wrt_mono_rel [rotated]) simp
  then show "sorted (map key (rev xs))"
    by (simp add: sorted_wrt_map)
  from strict_filter [OF assms, of t] have "length (filter (\<lambda>y. key y = t) xs) \<le> 1" .
  then have "rev (filter (\<lambda>y. key y = t) xs) = filter (\<lambda>y. key y = t) xs"
    by (cases "filter (\<lambda>y. key y = t) xs") (auto simp: le_Suc_eq)
  then show "filter (\<lambda>y. key y = t) (rev xs) = filter (\<lambda>y. key y = t) xs"
    by (simp add: rev_filter)
qed

lemma countAndMakeRun_spec:
  assumes "agrees cmp key (set xs)" and "countAndMakeRun cmp xs = (ys, n)"
  shows "sorted (map key (take n ys))"
    and "filter (\<lambda>y. key y = t) (take n ys) @ filter (\<lambda>y. key y = t) (drop n ys) =
      filter (\<lambda>y. key y = t) xs"
    and "set ys = set xs"
proof -
  have split: "filter (\<lambda>y. key y = t) (take k xs) @ filter (\<lambda>y. key y = t) (drop k xs) =
      filter (\<lambda>y. key y = t) xs" for k
    by (metis append_take_drop_id filter_append)
  have "sorted (map key (take n ys)) \<and>
    filter (\<lambda>y. key y = t) (take n ys) @ filter (\<lambda>y. key y = t) (drop n ys) =
      filter (\<lambda>y. key y = t) xs \<and> set ys = set xs"
  proof (cases xs)
    case Nil
    with assms(2) show ?thesis by (simp add: countAndMakeRun_def)
  next
    case (Cons a xs')
    show ?thesis
    proof (cases xs')
      case Nil
      with Cons assms(2) show ?thesis by (auto simp: countAndMakeRun_def)
    next
      case (Cons b rest)
      note xs = \<open>xs = a # xs'\<close> Cons
      let ?d = "negative (cmp b a)"
      let ?k = "run_rest cmp ?d b rest"
      have n: "n = 2 + ?k" and ys: "ys = (if ?d then rev (take n xs) @ drop n xs else xs)"
        using assms(2) by (auto simp: countAndMakeRun_def xs Let_def)
      have ag: "agrees cmp key (insert b (set rest))"
        using assms(1) by (simp add: xs agrees_def)
      have tk: "take n xs = a # b # take ?k rest"
        by (simp add: n xs)
      have len: "length (take n xs) = n"
        using run_rest_le [of cmp ?d b rest] by (simp add: n xs)
      show ?thesis
      proof (cases ?d)
        case False
        with assms(1) have "key a \<le> key b" by (auto simp: agrees_def xs)
        moreover from ascending_run [OF ag] False
        have "sorted (map key (b # take ?k rest))" by simp
        ultimately have "sorted (map key (take n xs))"
          unfolding tk by auto
        with False ys split [of n] show ?thesis by simp
      next
        case True
        with assms(1) have "key b < key a" by (auto simp: agrees_def xs)
        moreover from descending_run [OF ag] True
        have "sorted_wrt (\<lambda>a b. key b < key a) (b # take ?k rest)" by simp
        ultimately have st: "sorted_wrt (\<lambda>a b. key b < key a) (take n xs)"
          unfolding tk by fastforce
        have y: "ys = rev (take n xs) @ drop n xs" using True ys by simp
        have "take n ys = rev (take n xs)" "drop n ys = drop n xs"
          using len by (simp_all add: y)
        moreover have "set ys = set xs"
          unfolding y by (metis append_take_drop_id set_append set_rev)
        ultimately show ?thesis
          using strict_rev(1) [OF st] strict_rev(2) [OF st, of t] split [of n] by simp
      qed
    qed
  qed
  then show "sorted (map key (take n ys))"
    and "filter (\<lambda>y. key y = t) (take n ys) @ filter (\<lambda>y. key y = t) (drop n ys) =
      filter (\<lambda>y. key y = t) xs"
    and "set ys = set xs"
    by simp_all
qed

lemma array_sort_spec:
  assumes "agrees cmp key (set xs)"
  shows "sorted (map key (array_sort cmp xs))"
    and "filter (\<lambda>y. key y = t) (array_sort cmp xs) = filter (\<lambda>y. key y = t) xs"
proof -
  have "sorted (map key (array_sort cmp xs)) \<and>
    filter (\<lambda>y. key y = t) (array_sort cmp xs) = filter (\<lambda>y. key y = t) xs"
  proof (cases "length xs < 2")
    case True
    then have "xs = [] \<or> (\<exists>a. xs = [a])"
      by (cases xs) (auto simp: length_Suc_conv)
    with True show ?thesis by (auto simp: array_sort_def)
  next
    case False
    obtain ys n where c: "countAndMakeRun cmp xs = (ys, n)" by (cases "countAndMakeRun cmp xs")
    note r = countAndMakeRun_spec [OF assms c]
    have "set (take n ys) \<union> set (drop n ys) = set xs"
      using r(3) by (metis append_take_drop_id set_append)
    with assms have "agrees cmp key (set (take n ys) \<union> set (drop n ys))" by simp
    from foldl_binaryInsert_spec [OF this r(1), of t] r(2) [of t] False show ?thesis
      by (simp add: array_sort_def c)
  qed
  then show "sorted (map key (array_sort cmp xs))"
    and "filter (\<lambda>y. key y = t) (array_sort cmp xs) = filter (\<lambda>y. key y = t) xs"
    by simp_all
qed

lemma mset_sortChatFilesByTime: "mset (sortChatFilesByTime E files chatFiles) = mset chatFiles"
proof -
  let ?xs = "map (\<lambda>f. (f, getChatStartTime E files f)) chatFiles"
  have "mset (map fst (array_sort compareStartTime ?xs)) =
      image_mset fst (mset (array_sort compareStartTime ?xs))"
    by (simp only: mset_map)
  also have "\<dots> = image_mset fst (mset ?xs)"
    by (simp only: mset_array_sort)
  also have "\<dots> = mset (map fst ?xs)"
    by (simp only: mset_map)
  also have "map fst ?xs = chatFiles"
    by (simp add: comp_def)
  finally show ?thesis
    by (simp add: sortChatFilesByTime_def)
qed

text \<open>With valid start times the comparator orders the pairs as \<open>pair_millis\<close> does.\<close>

lemma compare_valid_times:
  assumes "list_all (\<lambda>f. getChatStartTime E files f \<noteq> None) chatFiles"
  shows "agrees compareStartTime pair_millis
    (set (map (\<lambda>f. (f, getChatStartTime E files f)) chatFiles))"
  unfolding agrees_def
proof (intro ballI)
  fix a b
  assume "a \<in> set (map (\<lambda>f. (f, getChatStartTime E files f)) chatFiles)"
    and "b \<in> set (map (\<lambda>f. (f, getChatStartTime E files f)) chatFiles)"
  with assms have "snd a \<noteq> None" "snd b \<noteq> None"
    by (auto simp: list_all_iff)
  then obtain ta tb where "snd a = Some ta" "snd b = Some tb"
    by auto
  then show "negative (compareStartTime a b) = (pair_millis a < pair_millis b)"
    by (simp add: compareStartTime_def negative_def pair_millis_def)
qed

lemma sorted_pairs:
  assumes "mset ps = mset (map (\<lambda>f. (f, getChatStartTime E files f)) chatFiles)"
  shows "map (startMillis E files) (map fst ps) = map pair_millis ps"
    and "filter (\<lambda>f. startMillis E files f = t) (map fst ps) =
      map fst (filter (\<lambda>p. pair_millis p = t) ps)"
proof -
  have "set ps = set (map (\<lambda>f. (f, getChatStartTime E files f)) chatFiles)"
    using assms by (rule mset_eq_setD)
  then have k: "\<And>p. p \<in> set ps \<Longrightarrow> startMillis E files (fst p) = pair_millis p"
    by (auto simp: startMillis_def pair_millis_def)
  from k show "map (startMillis E files) (map fst ps) = map pair_millis ps"
    by simp
  have "filter (\<lambda>p. startMillis E files (fst p) = t) ps = filter (\<lambda>p. pair_millis p = t) ps"
    using k by (intro filter_cong) simp_all
  then show "filter (\<lambda>f. startMillis E files f = t) (map fst ps) =
      map fst (filter (\<lambda>p. pair_millis p = t) ps)"
    by (simp add: filter_map comp_def)
qed

lemma sortChatFilesByTime_sorted:
  assumes "list_all (\<lambda>f. getChatStartTime E files f \<noteq> None) chatFiles"
  shows "sorted (map (startMillis E files) (sortChatFilesByTime E files chatFiles))"
proof -
  let ?ps = "array_sort compareStartTime (map (\<lambda>f. (f, getChatStartTime E files f)) chatFiles)"
  have "map (startMillis E files) (map fst ?ps) = map pair_millis ?ps"
    by (rule sorted_pairs(1)) (rule mset_array_sort)
  moreover have "sorted (map pair_millis ?ps)"
    by (rule array_sort_spec(1) [OF compare_valid_times [OF assms]])
  ultimately have "sorted (map (startMillis E files) (map fst ?ps))"
    by (simp only:)
  then show ?thesis
    by (simp only: sortChatFilesByTime_def)
qed

lemma sortChatFilesByTime_stable:
  assumes "list_all (\<lambda>f. getChatStartTime E files f \<noteq> None) chatFiles"
  shows "filter (\<lambda>f. startMillis E files f = t) (sortChatFilesByTime E files chatFiles) =
    filter (\<lambda>f. startMillis E files f = t) chatFiles"
proof -
  let ?xs = "map (\<lambda>f. (f, getChatStartTime E files f)) chatFiles"
  let ?ps = "array_sort compareStartTime ?xs"
  have "filter (\<lambda>f. startMillis E files f = t) (map fst ?ps) =
      map fst (filter (\<lambda>p. pair_millis p = t) ?ps)"
    by (rule sorted_pairs(2)) (rule mset_array_sort)
  also have "\<dots> = map fst (filter (\<lambda>p. pair_millis p = t) ?xs)"
    by (simp only: array_sort_spec(2) [OF compare_valid_times [OF assms]])
  also have "\<dots> = filter (\<lambda>f. startMillis E files f = t) (map fst ?xs)"
    by (rule sorted_pairs(2) [symmetric]) simp
  finally show ?thesis
    by (simp add: sortChatFilesByTime_def comp_def)
qed

lemma epoch_before_later:
  assumes "sorted (map key xs)" and "i < length xs" and "j < length xs"
    and "key (xs ! j) = 0" and "0 < key (xs ! i)"
  shows "j < i"
proof (rule ccontr)
  assume "\<not> j < i"
  then have "i \<le> j" by simp
  with assms(1,3) have "map key xs ! i \<le> map key xs ! j"
    by (intro sorted_nth_mono) simp_all
  with assms show False by simp
qed

lemma sample_times:
  "getChatStartTime sample_env sample_files ''a.jsonl'' = Some 5"
  "getChatStartTime sample_env sample_files ''n.jsonl'' = None"
  "getChatStartTime sample_env sample_files ''z.jsonl'' = epoch"
  "getChatStartTime sample_env sample_files ''missing.jsonl'' = epoch"
  by (simp_all add: getChatStartTime_def sample_files_def file_lines_def trim_def trimStart_def trimEnd_def is_space_def is_space2_def
      is_space3_def
      sample_env_def sample_decode_def entry_timestamp_def sample_message_def epoch_def)

text \<open>
  The start time is the epoch for a file that cannot be read and for a file none of whose
  lines decodes to a record with a timestamp (an empty file has no lines). The sort returns
  a permutation of the files; and when the start time of every file of the list is a valid
  date, the result is in ascending order of start time, files with equal start times keep
  their input order, and every file whose start time is the epoch comes before every file
  that starts later than the epoch.
\<close>

lemma start_time_valid_dates:
  "(files chatFile = Inl e \<longrightarrow> getChatStartTime E files chatFile = epoch) \<and>
   (files chatFile = Inr content \<and> list_all (no_timestamp E) (file_lines content) \<longrightarrow>
      getChatStartTime E files chatFile = epoch) \<and>
   mset (sortChatFilesByTime E files chatFiles) = mset chatFiles \<and>
   (list_all (\<lambda>f. getChatStartTime E files f \<noteq> None) chatFiles \<longrightarrow>
      sorted (map (startMillis E files) (sortChatFilesByTime E files chatFiles)) \<and>
      filter (\<lambda>f. startMillis E files f = t) (sortChatFilesByTime E files chatFiles) =
        filter (\<lambda>f. startMillis E files f = t) chatFiles \<and>
      (i < length (sortChatFilesByTime E files chatFiles) \<and>
       j < length (sortChatFilesByTime E files chatFiles) \<and>
       getChatStartTime E files (sortChatFilesByTime E files chatFiles ! j) = epoch \<and>
       0 < startMillis E files (sortChatFilesByTime E files chatFiles ! i) \<longrightarrow> j < i))"
proof (intro conjI impI)
  assume "files chatFile = Inl e"
  then show "getChatStartTime E files chatFile = epoch"
    by (rule getChatStartTime_unreadable)
next
  assume "files chatFile = Inr content \<and> list_all (no_timestamp E) (file_lines content)"
  then have "files chatFile = Inr content" and "list_all (no_timestamp E) (file_lines content)"
    by simp_all
  then show "getChatStartTime E files chatFile = epoch"
    by (rule getChatStartTime_no_timestamp)
next
  show "mset (sortChatFilesByTime E files chatFiles) = mset chatFiles"
    by (rule mset_sortChatFilesByTime)
next
  assume v: "list_all (\<lambda>f. getChatStartTime E files f \<noteq> None) chatFiles"
  show s: "sorted (map (startMillis E files) (sortChatFilesByTime E files chatFiles))"
    by (rule sortChatFilesByTime_sorted [OF v])
  show "filter (\<lambda>f. startMillis E files f = t) (sortChatFilesByTime E files chatFiles) =
        filter (\<lambda>f. startMillis E files f = t) chatFiles"
    by (rule sortChatFilesByTime_stable [OF v])
  assume a: "i < length (sortChatFilesByTime E files chatFiles) \<and>
       j < length (sortChatFilesByTime E files chatFiles) \<and>
       getChatStartTime E files (sortChatFilesByTime E files chatFiles ! j) = epoch \<and>
       0 < startMillis E files (sortChatFilesByTime E files chatFiles ! i)"
  then have z: "startMillis E files (sortChatFilesByTime E files chatFiles ! j) = 0"
    by (simp add: startMillis_def epoch_def)
  from a have i: "i < length (sortChatFilesByTime E files chatFiles)"
    and j: "j < length (sortChatFilesByTime E files chatFiles)"
    and p: "0 < startMillis E files (sortChatFilesByTime E files chatFiles ! i)"
    by blast+
  show "j < i"
    by (rule epoch_before_later [OF s i j z p])
qed

text \<open>
  C10. The first half holds: the start time of the empty file z is the epoch. The order
  does not follow from it. The timestamp of a record is any string and
  \<open>new Date(entry.timestamp)\<close> is returned as it is, so the start time of the file n,
  whose first timestamp is no date, is an invalid date; the comparator gives \<open>NaN\<close>
  against it, which the sort reads as equal. For the files a (first record 5 ms after the
  epoch), n and z, in this order, \<open>sortChatFilesByTime\<close> returns the list as it is: the
  chat z, whose start time is the epoch, comes after the chat a, which starts later. (The
  sort compares n with a and z with n only, takes the array for one ascending run and
  leaves it.)
\<close>

theorem start_time_order_failing_input:
  "getChatStartTime sample_env sample_files ''a.jsonl'' = Some 5 \<and>
   getChatStartTime sample_env sample_files ''n.jsonl'' = None \<and>
   getChatStartTime sample_env sample_files ''z.jsonl'' = epoch \<and>
   sortChatFilesByTime sample_env sample_files [''a.jsonl'', ''n.jsonl'', ''z.jsonl''] =
     [''a.jsonl'', ''n.jsonl'', ''z.jsonl'']"
  by (simp add: sample_times sortChatFilesByTime_def array_sort_def countAndMakeRun_def
      compareStartTime_def negative_def epoch_def)


section \<open>Properties of the document\<close>

lemma rendersD: "renders E entry \<Longrightarrow> createChatEntryNodes E entry = Inr (entryNodes E entry)"
  by (simp add: renders_def entryNodes_def split: sum.splits)

lemma pushEntries_append:
  "pushEntries E (doc @ d) entries =
     (doc @ fst (pushEntries E d entries), snd (pushEntries E d entries))"
  by (induction entries arbitrary: d) (simp_all split: sum.splits)

lemma pushEntries_rendered:
  "list_all (renders E) entries \<Longrightarrow>
   pushEntries E doc entries = (doc @ concat (map (entryNodes E) entries), None)"
  by (induction entries arbitrary: doc) (simp_all add: rendersD)

lemma pushEntries_throws:
  "list_all (renders E) before \<Longrightarrow> createChatEntryNodes E bad = Inl e \<Longrightarrow>
   pushEntries E doc (before @ bad # after) = (doc @ concat (map (entryNodes E) before), Some e)"
  by (induction before arbitrary: doc) (simp_all add: rendersD)

lemma processChat_own_file:
  "processChat E files chatFile doc = processChat E (\<lambda>path. files chatFile) chatFile doc"
  by (simp add: processChat_def parseClaudeChatFile_def)

lemma processChat_append:
  "processChat E files chatFile doc =
     (doc @ fst (processChat E files chatFile []), snd (processChat E files chatFile []))"
  using pushEntries_append [of E doc]
  by (simp add: processChat_def Let_def split: sum.splits)

lemma processChat_unreadable:
  "processChat E (\<lambda>path. Inl e) chatFile [] = ([], Some e)"
  by (simp add: processChat_def parseClaudeChatFile_def)

lemma processChat_readable:
  "processChat E (\<lambda>path. Inr content) chatFile [] =
     pushEntries E (chatMetadataNodes E content) (chatEntries E content)"
  by (simp add: processChat_def parseClaudeChatFile_def Let_def chatEntries_def
      chatMetadataNodes_def)

lemma section_unreadable:
  "sectionOf E (Inl e) chatFile =
     [chatHeading E chatFile,
      u_par ''paragraph''
        [u_par ''emphasis'' [u_lit ''text'' (''Error processing this chat: '' @ message e)]],
      u_leaf ''thematicBreak'']"
  by (simp add: sectionOf_def processChat_unreadable errorParagraph_def)

lemma section_rendered:
  "list_all (renders E) (chatEntries E content) \<Longrightarrow>
   sectionOf E (Inr content) chatFile =
     chatHeading E chatFile # chatMetadataNodes E content @
     concat (map (entryNodes E) (chatEntries E content)) @ [u_leaf ''thematicBreak'']"
  by (simp add: sectionOf_def processChat_readable pushEntries_rendered)

lemma section_throws:
  assumes "chatEntries E content = before @ bad # after"
    and "list_all (renders E) before" and "createChatEntryNodes E bad = Inl e"
  shows "sectionOf E (Inr content) chatFile =
     chatHeading E chatFile # chatMetadataNodes E content @
     concat (map (entryNodes E) before) @
     [u_par ''paragraph''
        [u_par ''emphasis'' [u_lit ''text'' (''Error processing this chat: '' @ message e)]],
      u_leaf ''thematicBreak'']"
  by (simp add: sectionOf_def processChat_readable assms(1) pushEntries_throws [OF assms(2,3)]
      errorParagraph_def)

lemma chatLoop_sections:
  "chatLoop E files doc chatFiles =
     doc @ concat (map (\<lambda>f. sectionOf E (files f) f) chatFiles)"
proof (induction chatFiles arbitrary: doc)
  case Nil
  then show ?case by simp
next
  case (Cons f fs)
  obtain pushed thrown where p: "processChat E (\<lambda>path. files f) f [] = (pushed, thrown)"
    by (cases "processChat E (\<lambda>path. files f) f []")
  have "processChat E files f (doc @ [chatHeading E f]) =
      ((doc @ [chatHeading E f]) @ pushed, thrown)"
    by (subst processChat_append) (simp add: processChat_own_file [of E files] p)
  then show ?case
    by (simp add: Cons.IH sectionOf_def p split: option.splits)
qed

lemma document_sections:
  "documentNodesOf E files title chatFiles options =
     documentHead E title chatFiles options @
     concat (map (\<lambda>f. sectionOf E (files f) f) (sortChatFilesByTime E files chatFiles))"
  by (simp add: documentNodesOf_def chatLoop_sections)

lemma createChatEntryNodes_user_text:
  assumes "mtype m = User" and "mcontent m = CString s" and "s \<noteq> []"
  shows "createChatEntryNodes E (ChatMessage m) =
    Inr [u_props_par ''heading'' [(''depth'', PNum 3)]
           [u_lit ''text'' (formatTimestamp E (mtimestamp m))],
         u_par ''blockquote'' [u_par ''paragraph'' (lineChildren (split CHR 0x0A s))]]"
  using assms
  by (simp add: createChatEntryNodes_def extractTextContentAsNodes_def blockNodes_def
      textBlock_def truthy_def or_empty_def)

lemma createChatEntryNodes_throws:
  assumes "mcontent m = CBlocks [block]" and "btype block = BToolUse"
    and "toolSummaryAndNodes_any E block = Inr (summary, nodes0)"
    and "unistToHtml E summary = Inl e"
  shows "createChatEntryNodes E (ChatMessage m) = Inl e"
  using assms(1,2)
  by (simp add: createChatEntryNodes_def extractTextContentAsNodes_def blocksNodes_single
      blockNodes_tool_use createToolUseNodes_any_throws [OF assms(3,4)])

lemma createChatEntryNodes_type_error:
  assumes "mcontent m = CBlocks [block]" and "btype block = BToolUse"
    and "toolSummaryAndNodes_any E block = Inl e"
  shows "createChatEntryNodes E (ChatMessage m) = Inl e"
  using assms(1,2)
  by (simp add: createChatEntryNodes_def extractTextContentAsNodes_def blocksNodes_single
      blockNodes_tool_use createToolUseNodes_any_type_error [OF assms(3)])

text \<open>The sample files, line by line.\<close>

lemma sample_lines:
  "file_lines ''u5'' = [''u5'']"
  "file_lines three_lines = [''u5'', ''w6'', ''u7'']"
  "file_lines ''g1'' = [''g1'']"
  by (simp_all add: file_lines_def trim_def trimStart_def trimEnd_def is_space_def is_space2_def
      is_space3_def nl_def three_lines_def)

lemma sample_decoded:
  "decode_line sample_env ''u5'' = Some (hello ''5'')"
  "decode_line sample_env ''u7'' = Some (hello ''7'')"
  "decode_line sample_env ''w6'' =
     Some (ChatMessage (sample_message Assistant (CBlocks [todos_text]) ''6''))"
  "decode_line sample_env ''g1'' =
     Some (ChatMessage (sample_message Assistant (CBlocks [pattern_object]) ''1''))"
  by (simp_all add: sample_env_def sample_decode_def hello_def)

lemma sample_survivors:
  "survives (hello ts)" "annotate r (hello ts) = hello ts"
  "survives (ChatMessage (sample_message Assistant c ts))"
  "annotate Map.empty (ChatMessage (sample_message Assistant (CBlocks [block]) ts)) = calls block ts"
  "user_blocks (hello ts) = None"
  "user_blocks (ChatMessage (sample_message Assistant c ts)) = None"
  by (simp_all add: survives_def annotate_def user_blocks_def hello_def sample_message_def
      calls_def)

lemma sample_entries:
  "chatEntries sample_env ''u5'' = [hello ''5'']"
  "chatEntries sample_env three_lines =
     [hello ''5''] @ calls todos_text ''6'' # [hello ''7'']"
  "chatEntries sample_env ''g1'' = [] @ calls pattern_object ''1'' # []"
  by (simp_all add: chatEntries_def sample_lines sample_decoded mergeToolResults_eq
      sample_survivors collectToolResults_def collect_entry_def)

lemma sample_metadata: "chatMetadataNodes sample_env content = []"
  by (simp add: chatMetadataNodes_def sample_env_def formatTime_def createMetadataTableNodes_def)

lemma sample_hello: "createChatEntryNodes sample_env (hello ts) = Inr (hello_nodes ts)"
  unfolding hello_def
  by (subst createChatEntryNodes_user_text [where s = "''hello''"])
    (simp_all add: sample_message_def hello_nodes_def sample_env_def)

lemma sample_hello_renders:
  "renders sample_env (hello ts)" "entryNodes sample_env (hello ts) = hello_nodes ts"
  by (simp_all add: renders_def entryNodes_def sample_hello)

lemma sample_blocks:
  "btype todos_text = BToolUse" "btype pattern_object = BToolUse"
  by (simp_all add: todos_text_def pattern_object_def tool_call_def)

lemma sample_pattern_object:
  "toolSummaryAndNodes_any sample_env pattern_object =
     Inr (createToolSummary ''Glob''
            (DNodes [u_lit ''text'' ''Search pattern '', u_leaf ''heading'']), [])"
  by (simp add: toolSummaryAndNodes_any_def pattern_object_def tool_call_def toolNameOf_def
      truthy_def or_empty_def input_field_def no_fields_def truthy_pattern_def inlineCodeOf_def)

lemma sample_pattern_summary:
  "unistToHtml E (createToolSummary ''Glob''
      (DNodes [u_lit ''text'' ''Search pattern '', u_leaf ''heading''])) =
     Inl (Error ''Unsupported unist node type: heading'')"
  by (simp add: unistToHtml_def createToolSummary_def u_lit_def u_par_def u_leaf_def)

lemma sample_calls:
  "createChatEntryNodes sample_env (calls todos_text ts) =
     Inl (Error ''todos.filter is not a function'')"
  "createChatEntryNodes sample_env (calls pattern_object ts) =
     Inl (Error ''Unsupported unist node type: heading'')"
  unfolding calls_def
  by (rule createChatEntryNodes_type_error [where block = todos_text],
      simp add: sample_message_def, rule sample_blocks, rule sample_todos_text)
    (rule createChatEntryNodes_throws [where block = pattern_object],
      simp add: sample_message_def, rule sample_blocks, rule sample_pattern_object,
      rule sample_pattern_summary)

lemma sample_date: "date_time sample_env ''5'' = Some 5" "date_time sample_env ''1'' = Some 1"
  by (simp_all add: sample_env_def)

lemma sample_more_times:
  "getChatStartTime sample_env sample_files ''w.jsonl'' = Some 5"
  "getChatStartTime sample_env sample_files ''g.jsonl'' = Some 1"
  by (simp_all add: getChatStartTime_def sample_files_def sample_lines sample_decoded
      entry_timestamp_def hello_def sample_message_def sample_date)

lemma sample_order:
  "sortChatFilesByTime sample_env sample_files [''a.jsonl'', ''w.jsonl'', ''missing.jsonl''] =
     [''missing.jsonl'', ''a.jsonl'', ''w.jsonl'']"
  "sortChatFilesByTime sample_env sample_files [''g.jsonl''] = [''g.jsonl'']"
  by (simp_all add: sortChatFilesByTime_def array_sort_def countAndMakeRun_def binaryInsert_def
      search.simps sample_times sample_more_times compareStartTime_def negative_def epoch_def)

text \<open>
  C5. The document is the head followed, for each chat file in sorted order, by that
  file's own section, which depends on no other file; every file of the list has its
  section. For a file that cannot be read the section is the chat heading, the emphasised
  paragraph "Error processing this chat: " with the message of the error, and the thematic
  break. For a file that can be read it is the heading, the metadata table, the nodes of
  every reconciled entry in order and the break, when every entry renders; and when
  rendering an entry throws, it is the heading, the metadata table, the nodes of the
  entries before that one, the error paragraph with the message of what was thrown, and
  the break. A user message with a text renders to its timestamp heading and the block
  quote of the text.
\<close>

theorem per_chat_failure_isolation:
  "documentNodesOf E files title chatFiles options =
     documentHead E title chatFiles options @
     concat (map (\<lambda>f. sectionOf E (files f) f) (sortChatFilesByTime E files chatFiles)) \<and>
   buildMarkdownDocument E files title chatFiles options =
     md_stringify E (documentNodesOf E files title chatFiles options) \<and>
   mset (sortChatFilesByTime E files chatFiles) = mset chatFiles \<and>
   sectionOf E (Inl e) chatFile =
     [chatHeading E chatFile,
      u_par ''paragraph''
        [u_par ''emphasis'' [u_lit ''text'' (''Error processing this chat: '' @ message e)]],
      u_leaf ''thematicBreak''] \<and>
   (list_all (renders E) (chatEntries E content) \<longrightarrow>
      sectionOf E (Inr content) chatFile =
        chatHeading E chatFile # chatMetadataNodes E content @
        concat (map (entryNodes E) (chatEntries E content)) @ [u_leaf ''thematicBreak'']) \<and>
   (chatEntries E content = before @ bad # after \<and> list_all (renders E) before \<and>
    createChatEntryNodes E bad = Inl e \<longrightarrow>
      sectionOf E (Inr content) chatFile =
        chatHeading E chatFile # chatMetadataNodes E content @
        concat (map (entryNodes E) before) @
        [u_par ''paragraph''
           [u_par ''emphasis'' [u_lit ''text'' (''Error processing this chat: '' @ message e)]],
         u_leaf ''thematicBreak'']) \<and>
   (mtype m = User \<and> mcontent m = CString s \<and> s \<noteq> [] \<longrightarrow>
      renders E (ChatMessage m) \<and>
      entryNodes E (ChatMessage m) =
        [u_props_par ''heading'' [(''depth'', PNum 3)]
           [u_lit ''text'' (formatTimestamp E (mtimestamp m))],
         u_par ''blockquote'' [u_par ''paragraph'' (lineChildren (split CHR 0x0A s))]])"
proof (intro conjI impI)
  show "documentNodesOf E files title chatFiles options =
     documentHead E title chatFiles options @
     concat (map (\<lambda>f. sectionOf E (files f) f) (sortChatFilesByTime E files chatFiles))"
    by (rule document_sections)
  show "buildMarkdownDocument E files title chatFiles options =
     md_stringify E (documentNodesOf E files title chatFiles options)"
    by (simp add: buildMarkdownDocument_def stringifyMarkdown_def)
  show "mset (sortChatFilesByTime E files chatFiles) = mset chatFiles"
    by (rule mset_sortChatFilesByTime)
  show "sectionOf E (Inl e) chatFile =
     [chatHeading E chatFile,
      u_par ''paragraph''
        [u_par ''emphasis'' [u_lit ''text'' (''Error processing this chat: '' @ message e)]],
      u_leaf ''thematicBreak'']"
    by (rule section_unreadable)
next
  assume "list_all (renders E) (chatEntries E content)"
  then show "sectionOf E (Inr content) chatFile =
        chatHeading E chatFile # chatMetadataNodes E content @
        concat (map (entryNodes E) (chatEntries E content)) @ [u_leaf ''thematicBreak'']"
    by (rule section_rendered)
next
  assume "chatEntries E content = before @ bad # after \<and> list_all (renders E) before \<and>
    createChatEntryNodes E bad = Inl e"
  then have "chatEntries E content = before @ bad # after" and "list_all (renders E) before"
    and "createChatEntryNodes E bad = Inl e"
    by simp_all
  then show "sectionOf E (Inr content) chatFile =
        chatHeading E chatFile # chatMetadataNodes E content @
        concat (map (entryNodes E) before) @
        [u_par ''paragraph''
           [u_par ''emphasis'' [u_lit ''text'' (''Error processing this chat: '' @ message e)]],
         u_leaf ''thematicBreak'']"
    by (rule section_throws)
next
  assume "mtype m = User \<and> mcontent m = CString s \<and> s \<noteq> []"
  then have r: "createChatEntryNodes E (ChatMessage m) =
    Inr [u_props_par ''heading'' [(''depth'', PNum 3)]
           [u_lit ''text'' (formatTimestamp E (mtimestamp m))],
         u_par ''blockquote'' [u_par ''paragraph'' (lineChildren (split CHR 0x0A s))]]"
    by (intro createChatEntryNodes_user_text) simp_all
  show "renders E (ChatMessage m)"
    by (simp add: renders_def r)
  show "entryNodes E (ChatMessage m) =
        [u_props_par ''heading'' [(''depth'', PNum 3)]
           [u_lit ''text'' (formatTimestamp E (mtimestamp m))],
         u_par ''blockquote'' [u_par ''paragraph'' (lineChildren (split CHR 0x0A s))]]"
    by (simp add: entryNodes_def r)
qed

theorem per_chat_failure_isolation_witness:
  "sectionOf sample_env (Inr ''u5'') ''a.jsonl'' =
     chatHeading sample_env ''a.jsonl'' # hello_nodes ''5'' @ [u_leaf ''thematicBreak''] \<and>
   chatEntries sample_env three_lines =
     [hello ''5''] @ calls todos_text ''6'' # [hello ''7''] \<and>
   createChatEntryNodes sample_env (calls todos_text ''6'') =
     Inl (Error ''todos.filter is not a function'') \<and>
   sectionOf sample_env (Inr three_lines) ''w.jsonl'' =
     chatHeading sample_env ''w.jsonl'' # hello_nodes ''5'' @
     [u_par ''paragraph''
        [u_par ''emphasis''
           [u_lit ''text'' ''Error processing this chat: todos.filter is not a function'']],
      u_leaf ''thematicBreak''] \<and>
   sectionOf sample_env (Inl (Error ''No such file'')) ''missing.jsonl'' =
     [chatHeading sample_env ''missing.jsonl'',
      u_par ''paragraph''
        [u_par ''emphasis'' [u_lit ''text'' ''Error processing this chat: No such file'']],
      u_leaf ''thematicBreak''] \<and>
   documentNodesOf sample_env sample_files ''Export''
       [''a.jsonl'', ''w.jsonl'', ''missing.jsonl''] no_options =
     documentHead sample_env ''Export'' [''a.jsonl'', ''w.jsonl'', ''missing.jsonl''] no_options @
     concat (map (\<lambda>f. sectionOf sample_env (sample_files f) f)
       [''missing.jsonl'', ''a.jsonl'', ''w.jsonl''])"
proof -
  let ?w = three_lines
  note t = per_chat_failure_isolation [of sample_env sample_files "''Export''"
      "[''a.jsonl'', ''w.jsonl'', ''missing.jsonl'']" no_options "Error ''No such file''"
      "''missing.jsonl''" "''u5''" "[]" "hello ''5''" "[]" "sample_message User (CString ''hello'') ''5''"
      "''hello''"]
  note t' = per_chat_failure_isolation [of sample_env sample_files "''Export''"
      "[''a.jsonl'', ''w.jsonl'', ''missing.jsonl'']" no_options
      "Error ''todos.filter is not a function''"
      "''w.jsonl''" ?w "[hello ''5'']" "calls todos_text ''6''" "[hello ''7'']"
      "sample_message User (CString ''hello'') ''5''" "''hello''"]
  have u: "mtype (sample_message User (CString ''hello'') ''5'') = User \<and>
      mcontent (sample_message User (CString ''hello'') ''5'') = CString ''hello'' \<and> ''hello'' \<noteq> []"
    by (simp add: sample_message_def)
  from u t have h: "renders sample_env (hello ''5'')"
    unfolding hello_def by blast
  from u t have n: "entryNodes sample_env (hello ''5'') =
        [u_props_par ''heading'' [(''depth'', PNum 3)]
           [u_lit ''text'' (formatTimestamp sample_env
              (mtimestamp (sample_message User (CString ''hello'') ''5'')))],
         u_par ''blockquote''
           [u_par ''paragraph'' (lineChildren (split CHR 0x0A ''hello''))]]"
    unfolding hello_def by blast
  have n': "entryNodes sample_env (hello ''5'') = hello_nodes ''5''"
    unfolding n by (simp add: hello_nodes_def sample_message_def sample_env_def)
  have r: "list_all (renders sample_env) (chatEntries sample_env ''u5'')"
    by (simp add: sample_entries h)
  from r t have "sectionOf sample_env (Inr ''u5'') ''missing.jsonl'' =
        chatHeading sample_env ''missing.jsonl'' # chatMetadataNodes sample_env ''u5'' @
        concat (map (entryNodes sample_env) (chatEntries sample_env ''u5'')) @
        [u_leaf ''thematicBreak'']"
    by blast
  note a0 = per_chat_failure_isolation [of sample_env sample_files "''Export''"
      "[''a.jsonl'', ''w.jsonl'', ''missing.jsonl'']" no_options "Error ''No such file''"
      "''a.jsonl''" "''u5''" "[]" "hello ''5''" "[]" "sample_message User (CString ''hello'') ''5''"
      "''hello''"]
  from r a0 have "sectionOf sample_env (Inr ''u5'') ''a.jsonl'' =
        chatHeading sample_env ''a.jsonl'' # chatMetadataNodes sample_env ''u5'' @
        concat (map (entryNodes sample_env) (chatEntries sample_env ''u5'')) @
        [u_leaf ''thematicBreak'']"
    by blast
  then have a: "sectionOf sample_env (Inr ''u5'') ''a.jsonl'' =
     chatHeading sample_env ''a.jsonl'' # hello_nodes ''5'' @ [u_leaf ''thematicBreak'']"
    by (simp add: sample_metadata sample_entries n')
  have e: "chatEntries sample_env ?w = [hello ''5''] @ calls todos_text ''6'' # [hello ''7'']"
    by (rule sample_entries)
  have c: "createChatEntryNodes sample_env (calls todos_text ''6'') =
     Inl (Error ''todos.filter is not a function'')"
    by (rule sample_calls)
  have b: "list_all (renders sample_env) [hello ''5'']"
    by (simp add: h)
  from e b c t' have "sectionOf sample_env (Inr ?w) ''w.jsonl'' =
        chatHeading sample_env ''w.jsonl'' # chatMetadataNodes sample_env ?w @
        concat (map (entryNodes sample_env) [hello ''5'']) @
        [u_par ''paragraph''
           [u_par ''emphasis''
              [u_lit ''text'' (''Error processing this chat: '' @
                 message (Error ''todos.filter is not a function''))]],
         u_leaf ''thematicBreak'']"
    by blast
  then have w: "sectionOf sample_env (Inr ?w) ''w.jsonl'' =
     chatHeading sample_env ''w.jsonl'' # hello_nodes ''5'' @
     [u_par ''paragraph''
        [u_par ''emphasis''
           [u_lit ''text'' ''Error processing this chat: todos.filter is not a function'']],
      u_leaf ''thematicBreak'']"
    by (simp add: sample_metadata n' message_def)
  from t have "sectionOf sample_env (Inl (Error ''No such file'')) ''missing.jsonl'' =
     [chatHeading sample_env ''missing.jsonl'',
      u_par ''paragraph''
        [u_par ''emphasis''
           [u_lit ''text'' (''Error processing this chat: '' @ message (Error ''No such file''))]],
      u_leaf ''thematicBreak'']"
    by blast
  then have m: "sectionOf sample_env (Inl (Error ''No such file'')) ''missing.jsonl'' =
     [chatHeading sample_env ''missing.jsonl'',
      u_par ''paragraph''
        [u_par ''emphasis'' [u_lit ''text'' ''Error processing this chat: No such file'']],
      u_leaf ''thematicBreak'']"
    by (simp add: message_def)
  from t have "documentNodesOf sample_env sample_files ''Export''
       [''a.jsonl'', ''w.jsonl'', ''missing.jsonl''] no_options =
     documentHead sample_env ''Export'' [''a.jsonl'', ''w.jsonl'', ''missing.jsonl''] no_options @
     concat (map (\<lambda>f. sectionOf sample_env (sample_files f) f)
       (sortChatFilesByTime sample_env sample_files [''a.jsonl'', ''w.jsonl'', ''missing.jsonl'']))"
    by blast
  then have d: "documentNodesOf sample_env sample_files ''Export''
       [''a.jsonl'', ''w.jsonl'', ''missing.jsonl''] no_options =
     documentHead sample_env ''Export'' [''a.jsonl'', ''w.jsonl'', ''missing.jsonl''] no_options @
     concat (map (\<lambda>f. sectionOf sample_env (sample_files f) f)
       [''missing.jsonl'', ''a.jsonl'', ''w.jsonl''])"
    by (simp only: sample_order)
  from a e c w m d show ?thesis by blast
qed

text \<open>
  C6 as stated fails on its last clause. A call of Glob whose \<open>pattern\<close> is the object
  \<open>{"type": "heading"}\<close> puts a node of type heading in the summary of the tool-use block;
  the conversion of the summary throws "Unsupported unist node type: heading", and the
  handler of \<open>buildMarkdownDocument\<close> around the processing of one chat catches it: the
  document is built, with the error paragraph in the section of that chat.
\<close>

theorem inline_render_unsupported_counterexample:
  "decode_line sample_env ''g1'' =
     Some (ChatMessage (sample_message Assistant (CBlocks [pattern_object]) ''1'')) \<and>
   unistToHtml sample_env
     (createToolSummary ''Glob'' (DNodes [u_lit ''text'' ''Search pattern '', u_leaf ''heading''])) =
     Inl (Error ''Unsupported unist node type: heading'') \<and>
   createChatEntryNodes sample_env (calls pattern_object ''1'') =
     Inl (Error ''Unsupported unist node type: heading'') \<and>
   documentNodesOf sample_env sample_files ''Export'' [''g.jsonl''] no_options =
     [u_props_par ''heading'' [(''depth'', PNum 1)] [u_lit ''text'' ''Export''],
      u_props_par ''heading'' [(''depth'', PNum 2)] [u_lit ''text'' ''Chat: g.jsonl''],
      u_par ''paragraph''
        [u_par ''emphasis''
           [u_lit ''text'' ''Error processing this chat: Unsupported unist node type: heading'']],
      u_leaf ''thematicBreak'']"
proof -
  have s: "sectionOf sample_env (Inr ''g1'') ''g.jsonl'' =
     chatHeading sample_env ''g.jsonl'' # chatMetadataNodes sample_env ''g1'' @
     concat (map (entryNodes sample_env) []) @
     [u_par ''paragraph''
        [u_par ''emphasis''
           [u_lit ''text'' (''Error processing this chat: '' @
              message (Error ''Unsupported unist node type: heading''))]],
      u_leaf ''thematicBreak'']"
    by (rule section_throws [OF sample_entries(3) _ sample_calls(2)]) simp
  have s': "sectionOf sample_env (Inr ''g1'') ''g.jsonl'' =
     [chatHeading sample_env ''g.jsonl'',
      u_par ''paragraph''
        [u_par ''emphasis''
           [u_lit ''text'' ''Error processing this chat: Unsupported unist node type: heading'']],
      u_leaf ''thematicBreak'']"
    unfolding s by (simp add: sample_metadata message_def)
  have hd: "chatHeading sample_env ''g.jsonl'' =
      u_props_par ''heading'' [(''depth'', PNum 2)] [u_lit ''text'' ''Chat: g.jsonl'']"
    by (simp add: chatHeading_def sample_env_def)
  have dh: "documentHead sample_env ''Export'' [''g.jsonl''] no_options =
      [u_props_par ''heading'' [(''depth'', PNum 1)] [u_lit ''text'' ''Export'']]"
    by (simp add: documentHead_def)
  have f: "sample_files ''g.jsonl'' = Inr ''g1''"
    by (simp add: sample_files_def)
  have "documentNodesOf sample_env sample_files ''Export'' [''g.jsonl''] no_options =
     [u_props_par ''heading'' [(''depth'', PNum 1)] [u_lit ''text'' ''Export''],
      u_props_par ''heading'' [(''depth'', PNum 2)] [u_lit ''text'' ''Chat: g.jsonl''],
      u_par ''paragraph''
        [u_par ''emphasis''
           [u_lit ''text'' ''Error processing this chat: Unsupported unist node type: heading'']],
      u_leaf ''thematicBreak'']"
    unfolding document_sections sample_order
    by (simp add: f s' hd dh)
  with sample_decoded(4) sample_pattern_summary [of sample_env] sample_calls(2) [of "''1''"]
  show ?thesis by simp
qed

text \<open>
  C6, amended. \<open>nodeToElement\<close> throws "Unsupported unist node type" for a node whose type
  is not one of text, strong, code, inlineCode, link, and so does \<open>unistToHtml\<close> for a list
  that holds such a node; neither throws for nodes built only from the supported types.
  The functions between the converter and the document pass the error on:
  \<open>createDetailsBlock\<close>, \<open>createToolUseNodes\<close> and, for the message that holds the
  block, \<open>createChatEntryNodes\<close>. The handler of \<open>buildMarkdownDocument\<close> around the
  processing of one chat catches it as it catches every error: the section of the chat
  is the heading, the metadata table, the nodes of the entries before the one that threw,
  the error paragraph with the message, and the thematic break.
\<close>

theorem inline_render_unsupported:
  "(\<not> supported (ntype n) \<longrightarrow>
      nodeToElement n = Inl (Error (''Unsupported unist node type: '' @ ntype n))) \<and>
   (n \<in> set ns \<and> \<not> supported (ntype n) \<longrightarrow>
      (\<exists>t. \<not> supported t \<and>
           unistToHtml E ns = Inl (Error (''Unsupported unist node type: '' @ t)))) \<and>
   (all_supported n \<longrightarrow> (\<exists>el. nodeToElement n = Inr el)) \<and>
   (list_all all_supported ns \<longrightarrow>
      (\<exists>ds. nodesToElements ns = Inr ds \<and> unistToHtml E ns = Inr (inner_html E ds))) \<and>
   (unistToHtml E summary = Inl e \<longrightarrow>
      createDetailsBlock E summary body = Inl e \<and>
      (toolSummaryAndNodes_any E block = Inr (summary, nodes0) \<longrightarrow>
         createToolUseNodes_any E block result = Inl e \<and>
         (mcontent m = CBlocks [block] \<and> btype block = BToolUse \<longrightarrow>
            createChatEntryNodes E (ChatMessage m) = Inl e))) \<and>
   (chatEntries E content = before @ bad # after \<and> list_all (renders E) before \<and>
    createChatEntryNodes E bad = Inl e \<longrightarrow>
      sectionOf E (Inr content) chatFile =
        chatHeading E chatFile # chatMetadataNodes E content @
        concat (map (entryNodes E) before) @
        [u_par ''paragraph''
           [u_par ''emphasis'' [u_lit ''text'' (''Error processing this chat: '' @ message e)]],
         u_leaf ''thematicBreak''])"
proof (intro conjI impI)
  assume "\<not> supported (ntype n)"
  then show "nodeToElement n = Inl (Error (''Unsupported unist node type: '' @ ntype n))"
    by (rule nodeToElement_unsupported)
next
  assume "n \<in> set ns \<and> \<not> supported (ntype n)"
  then have "n \<in> set ns" and "\<not> supported (ntype n)" by simp_all
  then show "\<exists>t. \<not> supported t \<and>
      unistToHtml E ns = Inl (Error (''Unsupported unist node type: '' @ t))"
    by (rule unistToHtml_throws)
next
  assume "all_supported n"
  then show "\<exists>el. nodeToElement n = Inr el"
    by (rule conversion_succeeds(1))
next
  assume "list_all all_supported ns"
  then show "\<exists>ds. nodesToElements ns = Inr ds \<and> unistToHtml E ns = Inr (inner_html E ds)"
    by (rule unistToHtml_supported)
next
  assume h: "unistToHtml E summary = Inl e"
  then show "createDetailsBlock E summary body = Inl e"
    by (rule createDetailsBlock_throws)
  assume s: "toolSummaryAndNodes_any E block = Inr (summary, nodes0)"
  show "createToolUseNodes_any E block result = Inl e"
    by (rule createToolUseNodes_any_throws [OF s h])
  assume "mcontent m = CBlocks [block] \<and> btype block = BToolUse"
  then have "mcontent m = CBlocks [block]" and "btype block = BToolUse" by simp_all
  then show "createChatEntryNodes E (ChatMessage m) = Inl e"
    using s h by (rule createChatEntryNodes_throws)
next
  assume "chatEntries E content = before @ bad # after \<and> list_all (renders E) before \<and>
    createChatEntryNodes E bad = Inl e"
  then have "chatEntries E content = before @ bad # after" and "list_all (renders E) before"
    and "createChatEntryNodes E bad = Inl e"
    by simp_all
  then show "sectionOf E (Inr content) chatFile =
        chatHeading E chatFile # chatMetadataNodes E content @
        concat (map (entryNodes E) before) @
        [u_par ''paragraph''
           [u_par ''emphasis'' [u_lit ''text'' (''Error processing this chat: '' @ message e)]],
         u_leaf ''thematicBreak'']"
    by (rule section_throws)
qed

theorem inline_render_unsupported_witness:
  "\<not> supported (ntype (par ''x'')) \<and>
   nodeToElement (par ''x'') = Inl (Error ''Unsupported unist node type: paragraph'') \<and>
   (\<exists>t. \<not> supported t \<and>
      unistToHtml sample_env [u_lit ''text'' ''a'', par ''x''] =
        Inl (Error (''Unsupported unist node type: '' @ t))) \<and>
   all_supported (u_par ''strong'' [u_lit ''text'' ''b'']) \<and>
   (\<exists>ds. nodesToElements [u_lit ''text'' ''a'', u_par ''strong'' [u_lit ''text'' ''b'']] = Inr ds \<and>
      unistToHtml sample_env [u_lit ''text'' ''a'', u_par ''strong'' [u_lit ''text'' ''b'']] =
        Inr (inner_html sample_env ds)) \<and>
   createDetailsBlock sample_env
     (createToolSummary ''Glob'' (DNodes [u_lit ''text'' ''Search pattern '', u_leaf ''heading'']))
     [] = Inl (Error ''Unsupported unist node type: heading'') \<and>
   createToolUseNodes_any sample_env pattern_object None =
     Inl (Error ''Unsupported unist node type: heading'') \<and>
   createChatEntryNodes sample_env (calls pattern_object ''1'') =
     Inl (Error ''Unsupported unist node type: heading'') \<and>
   sectionOf sample_env (Inr ''g1'') ''g.jsonl'' =
     [chatHeading sample_env ''g.jsonl'',
      u_par ''paragraph''
        [u_par ''emphasis''
           [u_lit ''text'' ''Error processing this chat: Unsupported unist node type: heading'']],
      u_leaf ''thematicBreak'']"
proof -
  let ?summary = "createToolSummary ''Glob''
      (DNodes [u_lit ''text'' ''Search pattern '', u_leaf ''heading''])"
  let ?e = "Error ''Unsupported unist node type: heading''"
  let ?m = "(sample_message Assistant (CBlocks [pattern_object]) ''1'')
      \<lparr>toolResults := Some Map.empty\<rparr>"
  have t: "ntype (par ''x'') = ''paragraph''"
    by (simp add: par_def u_par_def)
  have u: "\<not> supported (ntype (par ''x''))"
    by (simp add: t supported_def)
  have s: "all_supported (u_par ''strong'' [u_lit ''text'' ''b''])"
    "list_all all_supported [u_lit ''text'' ''a'', u_par ''strong'' [u_lit ''text'' ''b'']]"
    by (simp_all add: u_par_def u_lit_def supported_def)
  have h: "unistToHtml sample_env ?summary = Inl ?e"
    by (rule sample_pattern_summary)
  have b: "mcontent ?m = CBlocks [pattern_object] \<and> btype pattern_object = BToolUse"
    by (simp add: sample_message_def sample_blocks)
  have c: "chatEntries sample_env ''g1'' = [] @ calls pattern_object ''1'' # [] \<and>
      list_all (renders sample_env) []"
    by (simp add: sample_entries)
  note i = inline_render_unsupported [of "par ''x''" "[u_lit ''text'' ''a'', par ''x'']"
      sample_env ?summary ?e "[]" pattern_object "[]" None ?m "''g1''" "[]"
      "calls pattern_object ''1''" "[]" "''g.jsonl''"]
  note j = inline_render_unsupported [of "u_par ''strong'' [u_lit ''text'' ''b'']"
      "[u_lit ''text'' ''a'', u_par ''strong'' [u_lit ''text'' ''b'']]"
      sample_env ?summary ?e "[]" pattern_object "[]" None ?m "''g1''" "[]"
      "calls pattern_object ''1''" "[]" "''g.jsonl''"]
  from u i have 1: "nodeToElement (par ''x'') =
      Inl (Error (''Unsupported unist node type: '' @ ntype (par ''x'')))"
    by blast
  have "par ''x'' \<in> set [u_lit ''text'' ''a'', par ''x'']" by simp
  with u i have 2: "\<exists>t. \<not> supported t \<and>
      unistToHtml sample_env [u_lit ''text'' ''a'', par ''x''] =
        Inl (Error (''Unsupported unist node type: '' @ t))"
    by blast
  from s j have 3: "\<exists>ds. nodesToElements [u_lit ''text'' ''a'',
        u_par ''strong'' [u_lit ''text'' ''b'']] = Inr ds \<and>
      unistToHtml sample_env [u_lit ''text'' ''a'', u_par ''strong'' [u_lit ''text'' ''b'']] =
        Inr (inner_html sample_env ds)"
    by blast
  from h i have 4: "createDetailsBlock sample_env ?summary [] = Inl ?e"
    by blast
  from h sample_pattern_object i have 5: "createToolUseNodes_any sample_env pattern_object None = Inl ?e"
    by blast
  from h sample_pattern_object b i have 6: "createChatEntryNodes sample_env (ChatMessage ?m) = Inl ?e"
    by blast
  then have 6: "createChatEntryNodes sample_env (calls pattern_object ''1'') = Inl ?e"
    by (simp add: calls_def)
  from c 6 i have "sectionOf sample_env (Inr ''g1'') ''g.jsonl'' =
        chatHeading sample_env ''g.jsonl'' # chatMetadataNodes sample_env ''g1'' @
        concat (map (entryNodes sample_env) []) @
        [u_par ''paragraph''
           [u_par ''emphasis'' [u_lit ''text'' (''Error processing this chat: '' @ message ?e)]],
         u_leaf ''thematicBreak'']"
    by blast
  then have 7: "sectionOf sample_env (Inr ''g1'') ''g.jsonl'' =
     [chatHeading sample_env ''g.jsonl'',
      u_par ''paragraph''
        [u_par ''emphasis''
           [u_lit ''text'' ''Error processing this chat: Unsupported unist node type: heading'']],
      u_leaf ''thematicBreak'']"
    by (simp add: sample_metadata message_def)
  from u 1 2 s(1) 3 4 5 6 7 show ?thesis
    by (simp add: t)
qed

end
